theory Spec2Isabelle
  imports Main
begin

section \<open>The Extension entity (src/fshtypes/Extension.ts)\<close>

text \<open>
  The class declares \<open>id\<close>, \<open>parent\<close>, \<open>title?\<close>, \<open>description?\<close>, \<open>mixins?\<close>,
  \<open>rules\<close> and the constructor parameter property \<open>name\<close>. An optional field that was
  never assigned is \<open>None\<close>. The rule type \<open>SdRule\<close> is declared elsewhere and is a type
  parameter here. The field \<open>id\<close> is written \<open>id'\<close>, since \<open>id\<close> is the identity of HOL.
\<close>

record 'rule Extension =
  name :: string
  id' :: string
  parent :: string
  title :: "string option"
  description :: "string option"
  mixins :: "string list option"
  rules :: "'rule list"

text \<open>The constructor \<open>new Extension(name)\<close>.\<close>

definition newExtension :: "string \<Rightarrow> 'rule Extension" where
  "newExtension name0 =
     \<lparr> Extension.name = name0,
       Extension.id' = name0,
       Extension.parent = ''Extension'',
       Extension.title = None,
       Extension.description = None,
       Extension.mixins = Some [],
       Extension.rules = [] \<rparr>"

section \<open>Rules, entities and documents of the code system exporter\<close>

text \<open>
  A source position. The type is declared outside the exporter, which only hands the
  positions on to the logger.
\<close>

datatype SourceInfo = SourceInfo (fileName: string) (lineNumber: nat)

text \<open>The values a rule assigns; the exporter hands them on to path validation unread.\<close>

datatype FshValue = FshString string | FshNumber int | FshBoolean bool | FshCode string

text \<open>
  The rules of a code system, with the fields the exporter reads. \<open>rule instanceof C\<close> is
  the discriminator \<open>is_C\<close>. The fields \<open>value\<close> and \<open>definition\<close> carry a prime.
\<close>

datatype Rule =
    CaretValueRule (caretPath: string) (value': FshValue) (sourceInfo: "SourceInfo option")
  | ConceptRule (code: string) (display: "string option") (definition': "string option")
      (hierarchy: "string list") (sourceInfo: "SourceInfo option")
  | CodeCaretValueRule (codePath: "string list") (caretPath: string) (value': FshValue)
      (sourceInfo: "SourceInfo option")
  | InsertRule (ruleSet: string) (sourceInfo: "SourceInfo option")

text \<open>The entity \<open>FshCodeSystem\<close>, with the fields the exporter reads.\<close>

record FshCodeSystem =
  name :: string
  id' :: string
  title :: "string option"
  description :: "string option"
  rules :: "Rule list"
  sourceInfo :: "SourceInfo option"

text \<open>
  A concept of the document, with the properties the exporter reads and writes;
  \<open>concept\<close> is \<open>None\<close> while the property is undefined.
\<close>

datatype CodeSystemConcept =
  CodeSystemConcept (code: string) (display: "string option") (definition': "string option")
    (concept: "CodeSystemConcept list option")

text \<open>
  The document. The exporter reads and writes the fields below; every other element of the
  resource is kept in \<open>properties\<close>.
\<close>

record CodeSystem =
  name :: "string option"
  id' :: "string option"
  title :: "string option"
  description :: "string option"
  version :: "string option"
  url :: "string option"
  content :: "string option"
  count :: "nat option"
  concept :: "CodeSystemConcept list option"
  properties :: "(string \<times> FshValue) list"

record Configuration =
  canonical :: string
  version :: "string option"

section \<open>Logger, package and observation history\<close>

datatype level = ErrorLevel | WarnLevel | InfoLevel

type_synonym diagnostic = "level \<times> string \<times> SourceInfo option"

text \<open>
  The phases of one export, and the events of the observation history. The history is a
  ghost component: the exporter appends to it and never reads it. It records when a phase is
  completed, when soft indices are resolved and for which rules, when the application of a
  rule begins, and each path handed to path validation.
\<close>

datatype phase =
  Init | MetadataSet | CaretRulesApplied | ConceptsBuilt | ConceptCaretRulesApplied
  | CountReconciled | Exported

datatype event =
    is_Reached: Reached phase
  | is_SoftIndexResolution: SoftIndexResolution "Rule list"
  | is_RuleApplication: RuleApplication Rule
  | is_PathResolution: PathResolution string

text \<open>
  The mutable state around one exporter: \<open>this.pkg.codeSystems\<close>, the messages given to
  the logger, and the history.
\<close>

record ExporterState =
  codeSystems :: "CodeSystem list"
  log :: "diagnostic list"
  history :: "event list"

definition logger_error :: "string \<Rightarrow> SourceInfo option \<Rightarrow> ExporterState \<Rightarrow> ExporterState" where
  "logger_error msg src st = st\<lparr>log := log st @ [(ErrorLevel, msg, src)]\<rparr>"

definition logger_warn :: "string \<Rightarrow> SourceInfo option \<Rightarrow> ExporterState \<Rightarrow> ExporterState" where
  "logger_warn msg src st = st\<lparr>log := log st @ [(WarnLevel, msg, src)]\<rparr>"

definition logger_info :: "string \<Rightarrow> ExporterState \<Rightarrow> ExporterState" where
  "logger_info msg st = st\<lparr>log := log st @ [(InfoLevel, msg, None)]\<rparr>"

definition observe :: "event list \<Rightarrow> ExporterState \<Rightarrow> ExporterState" where
  "observe evs st = st\<lparr>history := history st @ evs\<rparr>"

section \<open>Collaborators of the exporter\<close>

text \<open>
  What is thrown: \<open>CannotResolvePathError\<close> with the path it was built from, or any other
  error with its message.
\<close>

datatype jsError = CannotResolvePathError string | OtherError string

text \<open>
  The functions the exporter calls and that are implemented outside it are parameters:

  \<^item> \<open>config\<close> is \<open>this.tank.config\<close>, \<open>newCodeSystem\<close> is \<open>new CodeSystem()\<close>;
  \<^item> \<open>setName\<close> and \<open>setId\<close> are the methods of the document class: each returns
    the document it leaves behind and what it logs;
  \<^item> \<open>applyInsertRules\<close> expands the insert rules of the entity;
  \<^item> \<open>fetchSchema\<close> is
    \<open>StructureDefinition.fromJSON(this.fisher.fishForFHIR('CodeSystem', Type.Resource))\<close>,
    \<open>Inl\<close> when it throws;
  \<^item> \<open>resolveSoftIndexing\<close> rewrites the caret paths of the rules it is given: it returns
    the new caret path of each rule, in order, and what it logs;
  \<^item> \<open>validateValueAtPath\<close> returns the assigned value and the path parts (together, a
    value of \<open>'r\<close>) or throws;
  \<^item> \<open>setPropertyOnInstance\<close> returns the document it leaves behind and what it throws,
    if it throws;
  \<^item> \<open>message\<close> is \<open>e.message\<close>.
\<close>

record ('sd, 'r) Collaborators =
  config :: Configuration
  newCodeSystem :: CodeSystem
  setName :: "CodeSystem \<Rightarrow> string \<Rightarrow> SourceInfo option \<Rightarrow> CodeSystem \<times> diagnostic list"
  setId :: "CodeSystem \<Rightarrow> string \<Rightarrow> SourceInfo option \<Rightarrow> CodeSystem \<times> diagnostic list"
  applyInsertRules :: "FshCodeSystem \<Rightarrow> FshCodeSystem"
  fetchSchema :: "jsError + 'sd"
  resolveSoftIndexing :: "Rule list \<Rightarrow> string list \<times> diagnostic list"
  validateValueAtPath :: "'sd \<Rightarrow> string \<Rightarrow> FshValue \<Rightarrow> jsError + 'r"
  setPropertyOnInstance :: "CodeSystem \<Rightarrow> 'r \<Rightarrow> CodeSystem \<times> jsError option"
  message :: "jsError \<Rightarrow> string"

section \<open>Helpers of the host language\<close>

text \<open>\<open>Array.prototype.findIndex\<close>, with \<open>None\<close> for \<open>-1\<close>.\<close>

fun findIndex :: "('a \<Rightarrow> bool) \<Rightarrow> 'a list \<Rightarrow> nat option" where
  "findIndex P [] = None"
| "findIndex P (x # xs) = (if P x then Some 0 else map_option Suc (findIndex P xs))"

text \<open>\<open>Array.prototype.join\<close>.\<close>

fun join :: "string \<Rightarrow> string list \<Rightarrow> string" where
  "join sep [] = []"
| "join sep [x] = x"
| "join sep (x # y # ys) = x @ sep @ join sep (y # ys)"

text \<open>A natural number in a template literal: its decimal digits.\<close>

fun showNat :: "nat \<Rightarrow> string" where
  "showNat n =
     (if n < 10 then [''0123456789'' ! n]
      else showNat (n div 10) @ [''0123456789'' ! (n mod 10)])"

text \<open>A string in a condition: undefined and the empty string are falsy.\<close>

definition truthy :: "string option \<Rightarrow> bool" where
  "truthy s = (case s of None \<Rightarrow> False | Some t \<Rightarrow> t \<noteq> [])"

text \<open>\<open>x ?? []\<close> on an optional list.\<close>

definition orEmpty :: "'a list option \<Rightarrow> 'a list" where
  "orEmpty xs = (case xs of None \<Rightarrow> [] | Some ys \<Rightarrow> ys)"

section \<open>setMetadata\<close>

text \<open>
  \<open>setMetadata\<close>. The two methods get the position of the entity; what they log goes
  to the log in the order of the calls.
\<close>

definition setMetadata ::
  "('sd, 'r) Collaborators \<Rightarrow> CodeSystem \<Rightarrow> FshCodeSystem \<Rightarrow> ExporterState
     \<Rightarrow> CodeSystem \<times> ExporterState" where
  "setMetadata env codeSystem fshDefinition st =
     (let named = setName env codeSystem (FshCodeSystem.name fshDefinition)
                    (FshCodeSystem.sourceInfo fshDefinition);
          st1 = st\<lparr>log := log st @ snd named\<rparr>;
          identified = setId env (fst named) (FshCodeSystem.id' fshDefinition)
                         (FshCodeSystem.sourceInfo fshDefinition);
          st2 = st1\<lparr>log := log st1 @ snd identified\<rparr>;
          cs2 = fst identified;
          cs3 = (if truthy (FshCodeSystem.title fshDefinition)
                 then cs2\<lparr>CodeSystem.title := FshCodeSystem.title fshDefinition\<rparr> else cs2);
          cs4 = (if truthy (FshCodeSystem.description fshDefinition)
                 then cs3\<lparr>CodeSystem.description := FshCodeSystem.description fshDefinition\<rparr>
                 else cs3);
          cs5 = cs4\<lparr>CodeSystem.version := Configuration.version (config env)\<rparr>
      in (cs5\<lparr>CodeSystem.url :=
            Some (canonical (config env) @ ''/CodeSystem/'' @
                  (case CodeSystem.id' cs5 of None \<Rightarrow> ''undefined'' | Some i \<Rightarrow> i))\<rparr>,
          st2))"

section \<open>setConcepts\<close>

text \<open>The object \<open>newConcept\<close> built from a concept rule.\<close>

definition newConcept :: "Rule \<Rightarrow> CodeSystemConcept" where
  "newConcept rule =
     CodeSystemConcept (Rule.code rule)
       (if truthy (Rule.display rule) then Rule.display rule else None)
       (if truthy (Rule.definition' rule) then Rule.definition' rule else None)
       None"

definition setChildren :: "CodeSystemConcept \<Rightarrow> CodeSystemConcept list \<Rightarrow> CodeSystemConcept" where
  "setChildren c cs =
     CodeSystemConcept (CodeSystemConcept.code c) (CodeSystemConcept.display c)
       (CodeSystemConcept.definition' c) (Some cs)"

text \<open>
  The walk over \<open>concept.hierarchy\<close> and the final \<open>push\<close>, on the container the walk is
  at. The source walks by reference and mutates in place: the concept that \<open>find\<close>
  returns, the first with the ancestor's code, gets an empty \<open>concept\<close> array when it has
  none, also when a later ancestor is then missing. Here the concept is addressed by its
  index. The result is the container after the walk and the ancestor code that was not
  found, if any.
\<close>

fun walkAndPush ::
  "CodeSystemConcept list \<Rightarrow> string list \<Rightarrow> CodeSystemConcept
     \<Rightarrow> CodeSystemConcept list \<times> string option" where
  "walkAndPush conceptContainer [] newC = (conceptContainer @ [newC], None)"
| "walkAndPush conceptContainer (ancestorCode # rest) newC =
     (case findIndex (\<lambda>ancestorConcept. CodeSystemConcept.code ancestorConcept = ancestorCode)
             conceptContainer of
        None \<Rightarrow> (conceptContainer, Some ancestorCode)
      | Some i \<Rightarrow>
          (let ancestorConcept = conceptContainer ! i;
               r = walkAndPush (orEmpty (CodeSystemConcept.concept ancestorConcept)) rest newC
           in (conceptContainer[i := setChildren ancestorConcept (fst r)], snd r)))"

definition missingAncestorMessage :: "string \<Rightarrow> string \<Rightarrow> string" where
  "missingAncestorMessage ancestorCode conceptCode =
     ''Could not find '' @ ancestorCode @ '' in concept hierarchy to use as ancestor of ''
       @ conceptCode @ ''.''"

text \<open>The callback of \<open>concepts.forEach\<close>, on the array \<open>codeSystem.concept\<close>.\<close>

definition setConcepts_each ::
  "Rule \<Rightarrow> CodeSystemConcept list \<times> ExporterState \<Rightarrow> CodeSystemConcept list \<times> ExporterState" where
  "setConcepts_each rule s =
     (let st1 = observe [RuleApplication rule] (snd s);
          r = walkAndPush (fst s) (hierarchy rule) (newConcept rule)
      in case snd r of
           None \<Rightarrow> (fst r, st1)
         | Some ancestorCode \<Rightarrow>
             (fst r,
              logger_error (missingAncestorMessage ancestorCode (Rule.code rule))
                (Rule.sourceInfo rule) st1))"

text \<open>\<open>concepts.forEach\<close>, from the array and the state it is started in.\<close>

definition setConcepts_forEach ::
  "Rule list \<Rightarrow> CodeSystemConcept list \<times> ExporterState
     \<Rightarrow> CodeSystemConcept list \<times> ExporterState" where
  "setConcepts_forEach concepts s = foldl (\<lambda>acc rule. setConcepts_each rule acc) s concepts"

definition setConcepts ::
  "Rule list \<Rightarrow> CodeSystem \<times> ExporterState \<Rightarrow> CodeSystem \<times> ExporterState" where
  "setConcepts concepts s =
     (if length concepts > 0 then
        (let r = setConcepts_forEach concepts ([], snd s)
         in ((fst s)\<lparr>CodeSystem.concept := Some (fst r)\<rparr>, snd r))
      else s)"

section \<open>setCaretRules\<close>

text \<open>
  The rules after \<open>resolveSoftIndexing\<close>: each rule with the caret path the resolver
  returned for it; a rule for which it returned none is left as it is.
\<close>

fun assignCaretPaths :: "Rule list \<Rightarrow> string list \<Rightarrow> Rule list" where
  "assignCaretPaths [] ps = []"
| "assignCaretPaths (r # rs) [] = r # rs"
| "assignCaretPaths (r # rs) (p # ps) =
     (case r of
        CaretValueRule cp v src \<Rightarrow> CaretValueRule p v src
      | _ \<Rightarrow> r) # assignCaretPaths rs ps"

text \<open>Validation and mutation for one path and value, inside the \<open>try\<close> of a rule.\<close>

definition validateAndSet ::
  "('sd, 'r) Collaborators \<Rightarrow> 'sd \<Rightarrow> string \<Rightarrow> Rule \<Rightarrow> CodeSystem \<times> ExporterState
     \<Rightarrow> CodeSystem \<times> ExporterState" where
  "validateAndSet env sd path rule s =
     (let st1 = observe [PathResolution path] (snd s)
      in case validateValueAtPath env sd path (value' rule) of
           Inl e \<Rightarrow> (fst s, logger_error (message env e) (Rule.sourceInfo rule) st1)
         | Inr resolved \<Rightarrow>
             (case setPropertyOnInstance env (fst s) resolved of
                (codeSystem', None) \<Rightarrow> (codeSystem', st1)
              | (codeSystem', Some e) \<Rightarrow>
                  (codeSystem', logger_error (message env e) (Rule.sourceInfo rule) st1)))"

text \<open>The body of the loop of \<open>setCaretRules\<close>.\<close>

definition setCaretRules_each ::
  "('sd, 'r) Collaborators \<Rightarrow> 'sd \<Rightarrow> Rule \<Rightarrow> CodeSystem \<times> ExporterState
     \<Rightarrow> CodeSystem \<times> ExporterState" where
  "setCaretRules_each env sd rule s =
     validateAndSet env sd (caretPath rule) rule (fst s, observe [RuleApplication rule] (snd s))"

text \<open>
  \<open>setCaretRules\<close>. \<open>resolveSoftIndexing(rules)\<close> rewrites the rules in place, so the
  rewritten rules are returned as well: they are the objects of \<open>fshDefinition.rules\<close>.
\<close>

definition setCaretRules ::
  "('sd, 'r) Collaborators \<Rightarrow> 'sd \<Rightarrow> Rule list \<Rightarrow> CodeSystem \<times> ExporterState
     \<Rightarrow> Rule list \<times> CodeSystem \<times> ExporterState" where
  "setCaretRules env sd rules0 s =
     (let resolved = resolveSoftIndexing env rules0;
          rules1 = assignCaretPaths rules0 (fst resolved);
          st1 = observe [SoftIndexResolution rules0] (snd s);
          st2 = st1\<lparr>log := log st1 @ snd resolved\<rparr>
      in (rules1, foldl (\<lambda>acc rule. setCaretRules_each env sd rule acc) (fst s, st2) rules1))"

section \<open>findConceptPath and setCodeCaretRules\<close>

text \<open>
  The two strings \<open>findConceptPath\<close> builds: the code path in the error, and the
  document path of the concept indices.
\<close>

definition codePathText :: "string list \<Rightarrow> string" where
  "codePathText codePath0 = join '' '' (map (\<lambda>code0. ''#'' @ code0) codePath0)"

definition conceptPathOf :: "nat list \<Rightarrow> string" where
  "conceptPathOf conceptIndices =
     join ''.'' (map (\<lambda>conceptIndex. ''concept['' @ showNat conceptIndex @ '']'') conceptIndices)"

text \<open>
  The loop of \<open>findConceptPath\<close>, with its variables \<open>conceptIndices\<close> and
  \<open>conceptList\<close> and the code steps still to do.
\<close>

fun findConceptPath_loop ::
  "string list \<Rightarrow> nat list \<Rightarrow> CodeSystemConcept list \<Rightarrow> string list \<Rightarrow> jsError + string" where
  "findConceptPath_loop codePath0 conceptIndices conceptList [] =
     Inr (conceptPathOf conceptIndices)"
| "findConceptPath_loop codePath0 conceptIndices conceptList (codeStep # rest) =
     (case findIndex (\<lambda>c. CodeSystemConcept.code c = codeStep) conceptList of
        None \<Rightarrow> Inl (CannotResolvePathError (codePathText codePath0))
      | Some stepIndex \<Rightarrow>
          findConceptPath_loop codePath0 (conceptIndices @ [stepIndex])
            (orEmpty (CodeSystemConcept.concept (conceptList ! stepIndex))) rest)"

definition findConceptPath :: "CodeSystem \<Rightarrow> string list \<Rightarrow> jsError + string" where
  "findConceptPath codeSystem codePath0 =
     findConceptPath_loop codePath0 [] (orEmpty (CodeSystem.concept codeSystem)) codePath0"

text \<open>The body of the loop of \<open>setCodeCaretRules\<close>.\<close>

definition setCodeCaretRules_each ::
  "('sd, 'r) Collaborators \<Rightarrow> 'sd \<Rightarrow> Rule \<Rightarrow> CodeSystem \<times> ExporterState
     \<Rightarrow> CodeSystem \<times> ExporterState" where
  "setCodeCaretRules_each env sd rule s =
     (let st1 = observe [RuleApplication rule] (snd s)
      in case findConceptPath (fst s) (codePath rule) of
           Inl e \<Rightarrow> (fst s, logger_error (message env e) (Rule.sourceInfo rule) st1)
         | Inr conceptPath \<Rightarrow>
             validateAndSet env sd (conceptPath @ ''.'' @ caretPath rule) rule (fst s, st1))"

definition setCodeCaretRules ::
  "('sd, 'r) Collaborators \<Rightarrow> 'sd \<Rightarrow> Rule list \<Rightarrow> CodeSystem \<times> ExporterState
     \<Rightarrow> CodeSystem \<times> ExporterState" where
  "setCodeCaretRules env sd rules0 s =
     foldl (\<lambda>acc rule. setCodeCaretRules_each env sd rule acc) s rules0"

section \<open>countConcepts and updateCount\<close>

function countConcepts :: "CodeSystemConcept list option \<Rightarrow> nat" where
  "countConcepts None = 0"
| "countConcepts (Some concepts) =
     length concepts +
     foldl (\<lambda>sum next. sum + next) 0
       (map (\<lambda>c. countConcepts (CodeSystemConcept.concept c)) concepts)"
  by pat_completeness auto
termination
proof (relation "measure (size_option (size_list size))", goal_cases)
  case 1
  show ?case by simp
next
  case (2 concepts x)
  have "size_option (size_list size) (CodeSystemConcept.concept x) < size x"
    by (cases x) simp
  moreover have "size x \<le> size_list size concepts"
    using 2 by (simp add: size_list_estimation')
  ultimately show ?case by simp
qed

text \<open>\<open>${codeSystem.count}\<close> in the message.\<close>

definition showCount :: "nat option \<Rightarrow> string" where
  "showCount c = (case c of None \<Rightarrow> ''undefined'' | Some n \<Rightarrow> showNat n)"

definition countMismatchMessage :: "nat option \<Rightarrow> nat option \<Rightarrow> string" where
  "countMismatchMessage userCount actualCount =
     ''The user-specified ^count ('' @ showCount userCount @
     '') does not match the specified number of concepts ('' @
     showNat (case actualCount of None \<Rightarrow> 0 | Some n \<Rightarrow> n) @
     ''). If this is not a '' @ [CHR 0x22] @ ''complete'' @ [CHR 0x22] @
     '' CodeSystem, set the ^content property to the appropriate value; '' @
     ''otherwise fix or remove the ^count.''"

definition updateCount ::
  "CodeSystem \<Rightarrow> FshCodeSystem \<Rightarrow> ExporterState \<Rightarrow> CodeSystem \<times> ExporterState" where
  "updateCount codeSystem fshDefinition st =
     (if CodeSystem.content codeSystem = Some ''complete'' then
        (let n = countConcepts (CodeSystem.concept codeSystem);
             actualCount = (if n = 0 then None else Some n)
         in if CodeSystem.count codeSystem = None \<and> actualCount \<noteq> None then
              (codeSystem\<lparr>CodeSystem.count := actualCount\<rparr>, st)
            else if CodeSystem.count codeSystem \<noteq> actualCount then
              (let countRule =
                     find (\<lambda>r. is_CaretValueRule r \<and> caretPath r = ''count'')
                       (FshCodeSystem.rules fshDefinition);
                   src = (case countRule of
                            None \<Rightarrow> FshCodeSystem.sourceInfo fshDefinition
                          | Some r \<Rightarrow>
                              (case Rule.sourceInfo r of
                                 None \<Rightarrow> FshCodeSystem.sourceInfo fshDefinition
                               | Some i \<Rightarrow> Some i))
               in (codeSystem,
                   logger_warn
                     (countMismatchMessage (CodeSystem.count codeSystem) actualCount) src st))
            else (codeSystem, st))
      else (codeSystem, st))"

section \<open>exportCodeSystem and export\<close>

text \<open>
  \<open>fshDefinition.rules\<close> after \<open>resolveSoftIndexing\<close> has rewritten its caret value
  rules in place: the rewritten rules take the places of the caret value rules, in order.
\<close>

fun writeBack :: "Rule list \<Rightarrow> Rule list \<Rightarrow> Rule list" where
  "writeBack [] resolved = []"
| "writeBack (r # rs) resolved =
     (if is_CaretValueRule r then
        (case resolved of
           [] \<Rightarrow> r # writeBack rs []
         | r' # resolved' \<Rightarrow> r' # writeBack rs resolved')
      else r # writeBack rs resolved)"

text \<open>
  The three rule phases of \<open>exportCodeSystem\<close>: caret rules, concept rules, code caret
  rules, each on the rules of its class. The result holds the entity with the rules as
  they are now.
\<close>

definition applyRules ::
  "('sd, 'r) Collaborators \<Rightarrow> 'sd \<Rightarrow> FshCodeSystem \<Rightarrow> CodeSystem \<times> ExporterState
     \<Rightarrow> FshCodeSystem \<times> CodeSystem \<times> ExporterState" where
  "applyRules env csStructureDefinition fshDefinition s =
     (let r1 = setCaretRules env csStructureDefinition
                 (filter is_CaretValueRule (FshCodeSystem.rules fshDefinition)) s;
          fshDefinition' =
            fshDefinition\<lparr>FshCodeSystem.rules :=
              writeBack (FshCodeSystem.rules fshDefinition) (fst r1)\<rparr>;
          s1 = (fst (snd r1), observe [Reached CaretRulesApplied] (snd (snd r1)));
          r2 = setConcepts (filter is_ConceptRule (FshCodeSystem.rules fshDefinition')) s1;
          s2 = (fst r2, observe [Reached ConceptsBuilt] (snd r2));
          r3 = setCodeCaretRules env csStructureDefinition
                 (filter is_CodeCaretValueRule (FshCodeSystem.rules fshDefinition')) s2
      in (fshDefinition', fst r3, observe [Reached ConceptCaretRulesApplied] (snd r3)))"

definition duplicateIdMessage :: "string option \<Rightarrow> string" where
  "duplicateIdMessage i =
     ''Multiple code systems with id '' @ (case i of None \<Rightarrow> ''undefined'' | Some t \<Rightarrow> t) @
     ''. Each code system must have a unique id.''"

text \<open>The check for another code system with the same id.\<close>

definition checkDuplicateId :: "CodeSystem \<Rightarrow> FshCodeSystem \<Rightarrow> ExporterState \<Rightarrow> ExporterState" where
  "checkDuplicateId codeSystem fshDefinition st =
     (if list_ex (\<lambda>cs. CodeSystem.id' codeSystem = CodeSystem.id' cs) (codeSystems st)
      then logger_error (duplicateIdMessage (CodeSystem.id' codeSystem))
             (FshCodeSystem.sourceInfo fshDefinition) st
      else st)"

text \<open>
  \<open>exportCodeSystem\<close>: \<open>Inr None\<close> is the bare \<open>return\<close>, \<open>Inr (Some codeSystem)\<close> the
  returned document, \<open>Inl e\<close> the error thrown.
\<close>

definition exportCodeSystem ::
  "('sd, 'r) Collaborators \<Rightarrow> FshCodeSystem \<Rightarrow> ExporterState
     \<Rightarrow> (jsError + CodeSystem option) \<times> ExporterState" where
  "exportCodeSystem env fshDefinition st =
     (if list_ex (\<lambda>cs. CodeSystem.name cs = Some (FshCodeSystem.name fshDefinition))
           (codeSystems st)
      then (Inr None, st)
      else
        (let m = setMetadata env (newCodeSystem env) fshDefinition st;
             codeSystem = fst m;
             st1 = observe [Reached Init, Reached MetadataSet] (snd m);
             fshDefinition1 = applyInsertRules env fshDefinition
         in case fetchSchema env of
              Inl e \<Rightarrow> (Inl e, st1)
            | Inr csStructureDefinition \<Rightarrow>
                (let r = applyRules env csStructureDefinition fshDefinition1 (codeSystem, st1);
                     st2 = checkDuplicateId (fst (snd r)) (fst r) (snd (snd r));
                     c = updateCount (fst (snd r)) (fst r) st2;
                     st3 = observe [Reached CountReconciled] (snd c);
                     st4 = st3\<lparr>codeSystems := codeSystems st3 @ [fst c]\<rparr>
                 in (Inr (Some (fst c)), observe [Reached Exported] st4))))"

text \<open>The loop of \<open>export\<close> over \<open>this.tank.getAllCodeSystems()\<close>, and \<open>export\<close>.\<close>

fun export_loop ::
  "('sd, 'r) Collaborators \<Rightarrow> FshCodeSystem list \<Rightarrow> ExporterState \<Rightarrow> ExporterState" where
  "export_loop env [] st = st"
| "export_loop env (cs # rest) st =
     (case exportCodeSystem env cs st of
        (Inl e, st') \<Rightarrow>
          export_loop env rest (logger_error (message env e) (FshCodeSystem.sourceInfo cs) st')
      | (Inr res, st') \<Rightarrow> export_loop env rest st')"

definition export ::
  "('sd, 'r) Collaborators \<Rightarrow> FshCodeSystem list \<Rightarrow> ExporterState \<Rightarrow> ExporterState" where
  "export env allCodeSystems st =
     (let st1 = export_loop env allCodeSystems st
      in if length allCodeSystems > 0
         then logger_info (''Converted '' @ showNat (length allCodeSystems) @ '' FHIR CodeSystems.'') st1
         else st1)"

section \<open>Notions used to state the properties\<close>

text \<open>All concepts of a forest, parents before children, in the order of the arrays.\<close>

fun conceptsIn :: "CodeSystemConcept \<Rightarrow> CodeSystemConcept list" where
  "conceptsIn (CodeSystemConcept c d f k) =
     CodeSystemConcept c d f k # (case k of None \<Rightarrow> [] | Some l \<Rightarrow> concat (map conceptsIn l))"

definition forestConcepts :: "CodeSystemConcept list \<Rightarrow> CodeSystemConcept list" where
  "forestConcepts forest = concat (map conceptsIn forest)"

text \<open>
  The level an ancestor chain leads to: from the roots, at each level the first concept
  with the code, then its children (none when it has no array). \<open>None\<close> when a code of
  the chain is not found at its level.
\<close>

fun levelAt :: "CodeSystemConcept list \<Rightarrow> string list \<Rightarrow> CodeSystemConcept list option" where
  "levelAt forest [] = Some forest"
| "levelAt forest (a # rest) =
     (case find (\<lambda>c. CodeSystemConcept.code c = a) forest of
        None \<Rightarrow> None
      | Some c \<Rightarrow> levelAt (orEmpty (CodeSystemConcept.concept c)) rest)"

text \<open>What a concept says of itself, without its children.\<close>

definition entry :: "CodeSystemConcept \<Rightarrow> string \<times> string option \<times> string option" where
  "entry c =
     (CodeSystemConcept.code c, CodeSystemConcept.display c, CodeSystemConcept.definition' c)"

text \<open>The entries of the level a chain leads to, in array order; none when there is no such level.\<close>

definition levelEntries ::
  "CodeSystemConcept list \<Rightarrow> string list \<Rightarrow> (string \<times> string option \<times> string option) list" where
  "levelEntries forest h = (case levelAt forest h of None \<Rightarrow> [] | Some l \<Rightarrow> map entry l)"

text \<open>A concept with every undefined \<open>concept\<close> array replaced by the empty array.\<close>

fun normalise :: "CodeSystemConcept \<Rightarrow> CodeSystemConcept" where
  "normalise (CodeSystemConcept c d f k) =
     CodeSystemConcept c d f (Some (case k of None \<Rightarrow> [] | Some l \<Rightarrow> map normalise l))"

text \<open>
  The ancestor chain of every rule of the list leads to a level of the forest as it is
  when the rule is reached.
\<close>

definition chainsSatisfied :: "Rule list \<Rightarrow> ExporterState \<Rightarrow> bool" where
  "chainsSatisfied concepts st \<longleftrightarrow>
     (\<forall>before rule after. concepts = before @ rule # after \<longrightarrow>
        levelAt (fst (setConcepts_forEach before ([], st))) (hierarchy rule) \<noteq> None)"

text \<open>
  The positions of a code path: at each level the index of the first concept with the
  code of the step, then on to the children of that concept.
\<close>

inductive located :: "CodeSystemConcept list \<Rightarrow> string list \<Rightarrow> nat list \<Rightarrow> bool" where
  located_Nil: "located level [] []"
| located_Cons:
    "i < length level \<Longrightarrow> CodeSystemConcept.code (level ! i) = c \<Longrightarrow>
     (\<forall>j<i. CodeSystemConcept.code (level ! j) \<noteq> c) \<Longrightarrow>
     located (orEmpty (CodeSystemConcept.concept (level ! i))) cs is \<Longrightarrow>
     located level (c # cs) (i # is)"

text \<open>What is thrown inside the \<open>try\<close> of a rule, for a path and a document.\<close>

definition ruleError ::
  "('sd, 'r) Collaborators \<Rightarrow> 'sd \<Rightarrow> string \<Rightarrow> Rule \<Rightarrow> CodeSystem \<Rightarrow> jsError option" where
  "ruleError env sd path rule codeSystem =
     (case validateValueAtPath env sd path (value' rule) of
        Inl e \<Rightarrow> Some e
      | Inr resolved \<Rightarrow> snd (setPropertyOnInstance env codeSystem resolved))"

text \<open>
  Projections of a history: the milestones (phases reached and rule applications), and
  the events of soft index resolution and path resolution.
\<close>

definition milestones :: "event list \<Rightarrow> event list" where
  "milestones h = filter (\<lambda>e. is_Reached e \<or> is_RuleApplication e) h"

definition pathEvents :: "event list \<Rightarrow> event list" where
  "pathEvents h = filter (\<lambda>e. is_SoftIndexResolution e \<or> is_PathResolution e) h"

text \<open>The rank of a milestone in the order of the phases of one export.\<close>

fun rank :: "event \<Rightarrow> nat" where
  "rank (Reached Init) = 0"
| "rank (Reached MetadataSet) = 1"
| "rank (RuleApplication (CaretValueRule p v s)) = 2"
| "rank (Reached CaretRulesApplied) = 3"
| "rank (RuleApplication (ConceptRule c d f h s)) = 4"
| "rank (Reached ConceptsBuilt) = 5"
| "rank (RuleApplication (CodeCaretValueRule cp p v s)) = 6"
| "rank (Reached ConceptCaretRulesApplied) = 7"
| "rank (Reached CountReconciled) = 8"
| "rank (Reached Exported) = 9"
| "rank e = 10"

text \<open>
  The entity and the rules as \<open>exportCodeSystem\<close> sees them: after insert rule
  expansion; the caret value rules before and after soft index resolution.
\<close>

definition expandedRules :: "('sd, 'r) Collaborators \<Rightarrow> FshCodeSystem \<Rightarrow> Rule list" where
  "expandedRules env fshDefinition = FshCodeSystem.rules (applyInsertRules env fshDefinition)"

definition caretRules :: "('sd, 'r) Collaborators \<Rightarrow> FshCodeSystem \<Rightarrow> Rule list" where
  "caretRules env fshDefinition = filter is_CaretValueRule (expandedRules env fshDefinition)"

definition resolvedCaretRules :: "('sd, 'r) Collaborators \<Rightarrow> FshCodeSystem \<Rightarrow> Rule list" where
  "resolvedCaretRules env fshDefinition =
     assignCaretPaths (caretRules env fshDefinition)
       (fst (resolveSoftIndexing env (caretRules env fshDefinition)))"

text \<open>
  The rules of the entity with the caret paths as soft index resolution left them, as the
  later steps of \<open>exportCodeSystem\<close> see it.
\<close>

definition resolvedEntity :: "('sd, 'r) Collaborators \<Rightarrow> FshCodeSystem \<Rightarrow> FshCodeSystem" where
  "resolvedEntity env fshDefinition =
     (applyInsertRules env fshDefinition)\<lparr>FshCodeSystem.rules :=
        writeBack (expandedRules env fshDefinition) (resolvedCaretRules env fshDefinition)\<rparr>"

text \<open>What \<open>setName\<close> and \<open>setId\<close> log for an entity, in this order.\<close>

definition metadataLog :: "('sd, 'r) Collaborators \<Rightarrow> FshCodeSystem \<Rightarrow> diagnostic list" where
  "metadataLog env fshDefinition =
     (let named = setName env (newCodeSystem env) (FshCodeSystem.name fshDefinition)
                    (FshCodeSystem.sourceInfo fshDefinition)
      in snd named @
         snd (setId env (fst named) (FshCodeSystem.id' fshDefinition)
                (FshCodeSystem.sourceInfo fshDefinition)))"

subsection \<open>The state machine of one export\<close>

text \<open>
  The document and the state of the exporter at each phase of the export of one entity
  from the state \<open>st\<close>, for the schema \<open>sd\<close>, following the state machine of the
  specification: each phase starts from the phase before it and applies the rules of one
  class only, in their order in the entity.

  \<^item> \<open>MetadataSet\<close>: a new document with the metadata of the entity.
  \<^item> \<open>CaretRulesApplied\<close>: soft index resolution on the caret value rules, then each of
    them applied to the document.
  \<^item> \<open>ConceptsBuilt\<close>: when there are concept rules, each of them applied to an empty
    forest, which becomes the concepts of the document.
  \<^item> \<open>ConceptCaretRulesApplied\<close>: each code caret rule applied to the document.
  \<^item> \<open>CountReconciled\<close>: the check for a document with the same id, then count
    reconciliation.
  \<^item> \<open>Exported\<close>: the document appended to the package.
\<close>

definition atMetadataSet ::
  "('sd, 'r) Collaborators \<Rightarrow> FshCodeSystem \<Rightarrow> ExporterState \<Rightarrow> CodeSystem \<times> ExporterState" where
  "atMetadataSet env fshDefinition st =
     (let m = setMetadata env (newCodeSystem env) fshDefinition st
      in (fst m, observe [Reached Init, Reached MetadataSet] (snd m)))"

definition atCaretRulesApplied ::
  "('sd, 'r) Collaborators \<Rightarrow> 'sd \<Rightarrow> FshCodeSystem \<Rightarrow> ExporterState
     \<Rightarrow> CodeSystem \<times> ExporterState" where
  "atCaretRulesApplied env sd fshDefinition st =
     (let m = atMetadataSet env fshDefinition st;
          st1 = observe [SoftIndexResolution (caretRules env fshDefinition)] (snd m);
          st2 = st1\<lparr>log := log st1 @ snd (resolveSoftIndexing env (caretRules env fshDefinition))\<rparr>;
          a = foldl (\<lambda>acc rule. setCaretRules_each env sd rule acc) (fst m, st2)
                (resolvedCaretRules env fshDefinition)
      in (fst a, observe [Reached CaretRulesApplied] (snd a)))"

definition atConceptsBuilt ::
  "('sd, 'r) Collaborators \<Rightarrow> 'sd \<Rightarrow> FshCodeSystem \<Rightarrow> ExporterState
     \<Rightarrow> CodeSystem \<times> ExporterState" where
  "atConceptsBuilt env sd fshDefinition st =
     (let a = atCaretRulesApplied env sd fshDefinition st;
          concepts = filter is_ConceptRule (expandedRules env fshDefinition)
      in if concepts = [] then (fst a, observe [Reached ConceptsBuilt] (snd a))
         else (let f = foldl (\<lambda>acc rule. setConcepts_each rule acc) ([], snd a) concepts
               in ((fst a)\<lparr>CodeSystem.concept := Some (fst f)\<rparr>,
                   observe [Reached ConceptsBuilt] (snd f))))"

definition atConceptCaretRulesApplied ::
  "('sd, 'r) Collaborators \<Rightarrow> 'sd \<Rightarrow> FshCodeSystem \<Rightarrow> ExporterState
     \<Rightarrow> CodeSystem \<times> ExporterState" where
  "atConceptCaretRulesApplied env sd fshDefinition st =
     (let c = foldl (\<lambda>acc rule. setCodeCaretRules_each env sd rule acc)
                (atConceptsBuilt env sd fshDefinition st)
                (filter is_CodeCaretValueRule (expandedRules env fshDefinition))
      in (fst c, observe [Reached ConceptCaretRulesApplied] (snd c)))"

definition atCountReconciled ::
  "('sd, 'r) Collaborators \<Rightarrow> 'sd \<Rightarrow> FshCodeSystem \<Rightarrow> ExporterState
     \<Rightarrow> CodeSystem \<times> ExporterState" where
  "atCountReconciled env sd fshDefinition st =
     (let c = atConceptCaretRulesApplied env sd fshDefinition st;
          checked = checkDuplicateId (fst c) (resolvedEntity env fshDefinition) (snd c);
          u = updateCount (fst c) (resolvedEntity env fshDefinition) checked
      in (fst u, observe [Reached CountReconciled] (snd u)))"

definition atExported ::
  "('sd, 'r) Collaborators \<Rightarrow> 'sd \<Rightarrow> FshCodeSystem \<Rightarrow> ExporterState
     \<Rightarrow> CodeSystem \<times> ExporterState" where
  "atExported env sd fshDefinition st =
     (let r = atCountReconciled env sd fshDefinition st
      in (fst r,
          observe [Reached Exported] ((snd r)\<lparr>codeSystems := codeSystems (snd r) @ [fst r]\<rparr>)))"

subsection \<open>Rules applied one by one, each in its own try\<close>

text \<open>
  What the body of the \<open>try\<close> of a rule does for a path and a document: the document it
  leaves and what it throws.
\<close>

definition attempt ::
  "('sd, 'r) Collaborators \<Rightarrow> 'sd \<Rightarrow> string \<Rightarrow> Rule \<Rightarrow> CodeSystem
     \<Rightarrow> CodeSystem \<times> jsError option" where
  "attempt env sd path rule codeSystem =
     (case validateValueAtPath env sd path (value' rule) of
        Inl e \<Rightarrow> (codeSystem, Some e)
      | Inr resolved \<Rightarrow> setPropertyOnInstance env codeSystem resolved)"

definition caretRuleAttempt ::
  "('sd, 'r) Collaborators \<Rightarrow> 'sd \<Rightarrow> Rule \<Rightarrow> CodeSystem \<Rightarrow> CodeSystem \<times> jsError option" where
  "caretRuleAttempt env sd rule codeSystem = attempt env sd (caretPath rule) rule codeSystem"

definition codeCaretRuleAttempt ::
  "('sd, 'r) Collaborators \<Rightarrow> 'sd \<Rightarrow> Rule \<Rightarrow> CodeSystem \<Rightarrow> CodeSystem \<times> jsError option" where
  "codeCaretRuleAttempt env sd rule codeSystem =
     (case findConceptPath codeSystem (codePath rule) of
        Inl e \<Rightarrow> (codeSystem, Some e)
      | Inr conceptPath \<Rightarrow>
          attempt env sd (conceptPath @ ''.'' @ caretPath rule) rule codeSystem)"

text \<open>
  The failure semantics of the specification for a list of rules: each rule is attempted
  on the document the rule before it left; what a rule throws becomes one error, its
  message at the position of the rule; the next rule is attempted whatever happened. The
  result is the last document and the errors in the order of the rules.
\<close>

fun ruleByRule ::
  "(jsError \<Rightarrow> string) \<Rightarrow> (Rule \<Rightarrow> CodeSystem \<Rightarrow> CodeSystem \<times> jsError option) \<Rightarrow> Rule list
     \<Rightarrow> CodeSystem \<Rightarrow> CodeSystem \<times> diagnostic list" where
  "ruleByRule describe attemptRule [] codeSystem = (codeSystem, [])"
| "ruleByRule describe attemptRule (rule # rest) codeSystem =
     (let attempted = attemptRule rule codeSystem;
          more = ruleByRule describe attemptRule rest (fst attempted)
      in (fst more,
          (case snd attempted of
             None \<Rightarrow> []
           | Some e \<Rightarrow> [(ErrorLevel, describe e, Rule.sourceInfo rule)]) @ snd more))"

text \<open>
  What a list of concept rules logs: the errors of the rules whose ancestor chain is not
  satisfied, in the order of the rules.
\<close>

definition conceptErrors :: "Rule list \<Rightarrow> diagnostic list" where
  "conceptErrors concepts =
     log (snd (setConcepts_forEach concepts ([], \<lparr>codeSystems = [], log = [], history = []\<rparr>)))"

text \<open>
  What the metadata and the three rule phases of an export log, in this order: the
  diagnostics of \<open>setName\<close> and \<open>setId\<close>, those of soft index resolution, the
  errors of the caret value rules, of the concept rules and of the code caret rules.
\<close>

definition rulePhasesLog ::
  "('sd, 'r) Collaborators \<Rightarrow> 'sd \<Rightarrow> FshCodeSystem \<Rightarrow> ExporterState \<Rightarrow> diagnostic list" where
  "rulePhasesLog env sd fshDefinition st =
     metadataLog env fshDefinition @
     snd (resolveSoftIndexing env (caretRules env fshDefinition)) @
     snd (ruleByRule (message env) (caretRuleAttempt env sd)
            (resolvedCaretRules env fshDefinition) (fst (atMetadataSet env fshDefinition st))) @
     conceptErrors (filter is_ConceptRule (expandedRules env fshDefinition)) @
     snd (ruleByRule (message env) (codeCaretRuleAttempt env sd)
            (filter is_CodeCaretValueRule (expandedRules env fshDefinition))
            (fst (atConceptsBuilt env sd fshDefinition st)))"

subsection \<open>Contracts of the document class and of the rules of an entity\<close>


definition identifiesDocuments :: "('sd, 'r) Collaborators \<Rightarrow> bool" where
  "identifiesDocuments env \<longleftrightarrow>
     (\<forall>codeSystem codeSystem' i src src'.
        CodeSystem.id' (fst (setId env codeSystem i src)) =
        CodeSystem.id' (fst (setId env codeSystem' i src')))"

text \<open>
  No caret value rule and no code caret rule of the entity assigns the field \<open>field\<close> of
  the document: whenever the path of the rule and its value are valid, setting the value
  there leaves the field as it is. For a code caret rule the path is the caret path after
  the path of any concept.
\<close>

definition rulesKeep ::
  "(CodeSystem \<Rightarrow> 'a) \<Rightarrow> ('sd, 'r) Collaborators \<Rightarrow> 'sd \<Rightarrow> FshCodeSystem \<Rightarrow> bool" where
  "rulesKeep field env sd fshDefinition \<longleftrightarrow>
     (\<forall>rule \<in> set (resolvedCaretRules env fshDefinition). \<forall>codeSystem resolved.
        validateValueAtPath env sd (caretPath rule) (value' rule) = Inr resolved \<longrightarrow>
        field (fst (setPropertyOnInstance env codeSystem resolved)) = field codeSystem)
     \<and> (\<forall>rule \<in> set (filter is_CodeCaretValueRule (expandedRules env fshDefinition)).
          \<forall>codeSystem conceptPath resolved.
            validateValueAtPath env sd (conceptPath @ ''.'' @ caretPath rule) (value' rule)
              = Inr resolved \<longrightarrow>
            field (fst (setPropertyOnInstance env codeSystem resolved)) = field codeSystem)"

text \<open>The guard of \<open>exportCodeSystem\<close>: a document of the package has the name of the entity.\<close>

definition nameExported :: "FshCodeSystem \<Rightarrow> ExporterState \<Rightarrow> bool" where
  "nameExported fshDefinition st =
     list_ex (\<lambda>cs. CodeSystem.name cs = Some (FshCodeSystem.name fshDefinition)) (codeSystems st)"

text \<open>A path with a soft index: a segment indexed by \<open>[+]\<close> or \<open>[=]\<close>.\<close>

fun splitOn :: "char \<Rightarrow> string \<Rightarrow> string list" where
  "splitOn sep [] = [[]]"
| "splitOn sep (c # cs) =
     (if c = sep then [] # splitOn sep cs
      else (case splitOn sep cs of [] \<Rightarrow> [[c]] | w # ws \<Rightarrow> (c # w) # ws))"

definition hasSoftIndex :: "string \<Rightarrow> bool" where
  "hasSoftIndex path =
     list_ex (\<lambda>seg. dropWhile (\<lambda>c. c \<noteq> CHR ''['') seg \<in> set [''[+]'', ''[=]''])
       (splitOn CHR ''.'' path)"

section \<open>Stand-ins for the collaborators\<close>

text \<open>
  Modelled from the spec: the soft index resolver is implemented outside the exporter.
  This one follows section 4.1 of the specification: it scans the rules in order with a
  table from path prefix (the path up to and including the field name of the indexed
  segment) to the last index assigned; \<open>[+]\<close> takes the last index plus one, or 0 for a
  prefix not seen, and records it; \<open>[=]\<close> takes the last index, and fails for a prefix
  not seen, which here leaves the marker and logs an error.
\<close>

fun resolveSegments ::
  "(string \<times> nat) list \<Rightarrow> string list \<Rightarrow> string list
     \<Rightarrow> string list \<times> (string \<times> nat) list \<times> bool" where
  "resolveSegments counters resolved [] = (resolved, counters, True)"
| "resolveSegments counters resolved (seg # segs) =
     (let base = takeWhile (\<lambda>c. c \<noteq> CHR ''['') seg;
          marker = dropWhile (\<lambda>c. c \<noteq> CHR ''['') seg;
          prefix = join ''.'' (resolved @ [base])
      in if marker = ''[+]'' then
           (let n = (case map_of counters prefix of None \<Rightarrow> 0 | Some k \<Rightarrow> Suc k)
            in resolveSegments ((prefix, n) # counters)
                 (resolved @ [base @ ''['' @ showNat n @ '']'']) segs)
         else if marker = ''[=]'' then
           (case map_of counters prefix of
              None \<Rightarrow>
                (let r = resolveSegments counters (resolved @ [seg]) segs
                 in (fst r, fst (snd r), False))
            | Some k \<Rightarrow>
                resolveSegments counters (resolved @ [base @ ''['' @ showNat k @ '']'']) segs)
         else resolveSegments counters (resolved @ [seg]) segs)"

fun softIndexPass :: "(string \<times> nat) list \<Rightarrow> Rule list \<Rightarrow> string list \<times> diagnostic list" where
  "softIndexPass counters [] = ([], [])"
| "softIndexPass counters (r # rs) =
     (let res = resolveSegments counters [] (splitOn CHR ''.'' (caretPath r));
          more = softIndexPass (fst (snd res)) rs
      in (join ''.'' (fst res) # fst more,
          (if snd (snd res) then []
           else [(ErrorLevel, ''soft index without a prior assignment: '' @ caretPath r,
                  Rule.sourceInfo r)]) @ snd more))"

text \<open>
  Modelled from the spec: path validation and the document mutator are implemented
  outside the exporter. These follow sections 4.2 and 4.3 of the specification for a schema
  with the elements \<open>name\<close>, \<open>id\<close>, \<open>title\<close>, \<open>description\<close>, \<open>version\<close>, \<open>url\<close>,
  \<open>content\<close> (text), \<open>count\<close> (a number that is not negative) and \<open>contact\<close>,
  \<open>identifier\<close>, \<open>concept\<close> (anything below them). A path to another element, with an
  empty segment or with a soft index is not resolvable; a value of the wrong shape is a type
  mismatch; the mutator sets the value at the path.
\<close>

definition pathBase :: "string \<Rightarrow> string" where
  "pathBase path = takeWhile (\<lambda>c. c \<noteq> CHR ''.'' \<and> c \<noteq> CHR ''['') path"

definition textOf :: "FshValue \<Rightarrow> string option" where
  "textOf v = (case v of FshString t \<Rightarrow> Some t | FshCode t \<Rightarrow> Some t | _ \<Rightarrow> None)"

definition demoValidate :: "unit \<Rightarrow> string \<Rightarrow> FshValue \<Rightarrow> jsError + (string \<times> FshValue)" where
  "demoValidate sd path v =
     (if path \<in> set [''name'', ''id'', ''title'', ''description'', ''version'', ''url'', ''content'']
      then (case textOf v of
              Some t \<Rightarrow> Inr (path, v)
            | None \<Rightarrow> Inl (OtherError (''type mismatch at '' @ path)))
      else if path = ''count''
      then (case v of
              FshNumber n \<Rightarrow>
                if 0 \<le> n then Inr (path, v) else Inl (OtherError (''type mismatch at '' @ path))
            | _ \<Rightarrow> Inl (OtherError (''type mismatch at '' @ path)))
      else if pathBase path \<in> set [''contact'', ''identifier'', ''concept'']
              \<and> list_all (\<lambda>seg. seg \<noteq> []) (splitOn CHR ''.'' path)
              \<and> \<not> hasSoftIndex path
      then Inr (path, v)
      else Inl (CannotResolvePathError path))"

definition demoSet :: "CodeSystem \<Rightarrow> string \<times> FshValue \<Rightarrow> CodeSystem \<times> jsError option" where
  "demoSet codeSystem resolved =
     (let path = fst resolved; v = snd resolved
      in (if path = ''name'' then codeSystem\<lparr>CodeSystem.name := textOf v\<rparr>
          else if path = ''id'' then codeSystem\<lparr>CodeSystem.id' := textOf v\<rparr>
          else if path = ''title'' then codeSystem\<lparr>CodeSystem.title := textOf v\<rparr>
          else if path = ''description'' then codeSystem\<lparr>CodeSystem.description := textOf v\<rparr>
          else if path = ''version'' then codeSystem\<lparr>CodeSystem.version := textOf v\<rparr>
          else if path = ''url'' then codeSystem\<lparr>CodeSystem.url := textOf v\<rparr>
          else if path = ''content'' then codeSystem\<lparr>CodeSystem.content := textOf v\<rparr>
          else if path = ''count'' then
            codeSystem\<lparr>CodeSystem.count := (case v of FshNumber n \<Rightarrow> Some (nat n) | _ \<Rightarrow> None)\<rparr>
          else codeSystem\<lparr>properties := properties codeSystem @ [(path, v)]\<rparr>,
          None))"

definition demoMessage :: "jsError \<Rightarrow> string" where
  "demoMessage e =
     (case e of
        CannotResolvePathError p \<Rightarrow> ''path not resolvable: '' @ p
      | OtherError m \<Rightarrow> m)"

definition emptyCodeSystem :: CodeSystem where
  "emptyCodeSystem =
     \<lparr>CodeSystem.name = None, CodeSystem.id' = None, CodeSystem.title = None,
      CodeSystem.description = None, CodeSystem.version = None, CodeSystem.url = None,
      content = None, count = None, CodeSystem.concept = None, properties = []\<rparr>"

text \<open>
  Modelled from the spec: the methods \<open>setName\<close> and \<open>setId\<close> of the document class
  are implemented outside the exporter. Following section 4.6 of the specification (the
  metadata name and id are set first) these assign the field and log nothing.
\<close>

definition demoSetName ::
  "CodeSystem \<Rightarrow> string \<Rightarrow> SourceInfo option \<Rightarrow> CodeSystem \<times> diagnostic list" where
  "demoSetName codeSystem n src = (codeSystem\<lparr>CodeSystem.name := Some n\<rparr>, [])"

definition demoSetId ::
  "CodeSystem \<Rightarrow> string \<Rightarrow> SourceInfo option \<Rightarrow> CodeSystem \<times> diagnostic list" where
  "demoSetId codeSystem i src = (codeSystem\<lparr>CodeSystem.id' := Some i\<rparr>, [])"

text \<open>
  The stand-ins together, with a configuration, a new document without any property, no
  insert rules to expand, and a schema that is found.
\<close>

definition demoEnv :: "(unit, string \<times> FshValue) Collaborators" where
  "demoEnv =
     \<lparr>config = \<lparr>canonical = ''http://example.org'', Configuration.version = Some ''1.0.0''\<rparr>,
      newCodeSystem = emptyCodeSystem,
      setName = demoSetName,
      setId = demoSetId,
      applyInsertRules = (\<lambda>fshDefinition. fshDefinition),
      fetchSchema = Inr (),
      resolveSoftIndexing = softIndexPass [],
      validateValueAtPath = demoValidate,
      setPropertyOnInstance = demoSet,
      message = demoMessage\<rparr>"

text \<open>The same with a schema lookup that fails.\<close>

definition noSchemaEnv :: "(unit, string \<times> FshValue) Collaborators" where
  "noSchemaEnv = demoEnv\<lparr>fetchSchema := Inl (OtherError ''no definition of CodeSystem'')\<rparr>"

section \<open>Example inputs\<close>

definition emptyState :: ExporterState where
  "emptyState = \<lparr>codeSystems = [], log = [], history = []\<rparr>"

definition plainZoo :: FshCodeSystem where
  "plainZoo =
     \<lparr>FshCodeSystem.name = ''Zoo'', FshCodeSystem.id' = ''zoo'', FshCodeSystem.title = None,
      FshCodeSystem.description = None, FshCodeSystem.rules = [],
      FshCodeSystem.sourceInfo = Some (SourceInfo ''zoo.fsh'' 1)\<rparr>"

definition exampleForest :: "CodeSystemConcept list" where
  "exampleForest =
     [CodeSystemConcept ''bear'' None None (Some [CodeSystemConcept ''polar'' None None None]),
      CodeSystemConcept ''cat'' None None None]"

definition exampleDocument :: CodeSystem where
  "exampleDocument =
     \<lparr>CodeSystem.name = Some ''Zoo'', CodeSystem.id' = Some ''zoo'', CodeSystem.title = None,
      CodeSystem.description = None, CodeSystem.version = None, CodeSystem.url = None,
      content = Some ''complete'', count = None, CodeSystem.concept = Some exampleForest,
      properties = []\<rparr>"

definition bearRule :: Rule where
  "bearRule = ConceptRule ''bear'' (Some ''Bear'') None [] (Some (SourceInfo ''zoo.fsh'' 3))"

definition polarRule :: Rule where
  "polarRule = ConceptRule ''polar'' None None [''bear''] (Some (SourceInfo ''zoo.fsh'' 4))"

definition catRule :: Rule where
  "catRule = ConceptRule ''cat'' None (Some []) [] (Some (SourceInfo ''zoo.fsh'' 5))"

definition lionRule :: Rule where
  "lionRule = ConceptRule ''lion'' None None [''feline''] (Some (SourceInfo ''zoo.fsh'' 6))"

definition polarCaretRule :: Rule where
  "polarCaretRule =
     CodeCaretValueRule [''bear'', ''polar''] ''designation[+].value'' (FshString ''ours blanc'')
       (Some (SourceInfo ''zoo.fsh'' 7))"

definition grizzlyCaretRule :: Rule where
  "grizzlyCaretRule =
     CodeCaretValueRule [''bear'', ''grizzly''] ''designation[0].value'' (FshString ''grizzli'')
       (Some (SourceInfo ''zoo.fsh'' 8))"



definition reidentifiedZoo :: FshCodeSystem where
  "reidentifiedZoo =
     plainZoo\<lparr>FshCodeSystem.rules :=
       [CaretValueRule ''id'' (FshString ''safari'') (Some (SourceInfo ''zoo.fsh'' 2))]\<rparr>"

definition park :: FshCodeSystem where
  "park =
     \<lparr>FshCodeSystem.name = ''Park'', FshCodeSystem.id' = ''zoo'', FshCodeSystem.title = None,
      FshCodeSystem.description = None, FshCodeSystem.rules = [],
      FshCodeSystem.sourceInfo = Some (SourceInfo ''park.fsh'' 1)\<rparr>"

definition zooDocument :: CodeSystem where
  "zooDocument =
     \<lparr>CodeSystem.name = Some ''Zoo'', CodeSystem.id' = Some ''zoo'', CodeSystem.title = None,
      CodeSystem.description = None, CodeSystem.version = Some ''1.0.0'',
      CodeSystem.url = Some ''http://example.org/CodeSystem/zoo'', content = None, count = None,
      CodeSystem.concept = None, properties = []\<rparr>"

definition parkDocument :: CodeSystem where
  "parkDocument =
     zooDocument\<lparr>CodeSystem.name := Some ''Park'',
       CodeSystem.url := Some ''http://example.org/CodeSystem/zoo''\<rparr>"

definition contentRule :: Rule where
  "contentRule = CaretValueRule ''content'' (FshCode ''complete'') (Some (SourceInfo ''zoo.fsh'' 2))"

definition contactRule :: Rule where
  "contactRule =
     CaretValueRule ''contact[+].name'' (FshString ''Keeper'') (Some (SourceInfo ''zoo.fsh'' 9))"

definition badCountRule :: Rule where
  "badCountRule = CaretValueRule ''count'' (FshString ''many'') (Some (SourceInfo ''zoo.fsh'' 10))"

definition zoo :: FshCodeSystem where
  "zoo =
     plainZoo\<lparr>FshCodeSystem.rules :=
       [bearRule, contentRule, polarRule, polarCaretRule, catRule, contactRule]\<rparr>"

definition polarDesignationRule :: Rule where
  "polarDesignationRule =
     CodeCaretValueRule [''bear'', ''polar''] ''designation[0].value'' (FshString ''ours blanc'')
       (Some (SourceInfo ''zoo.fsh'' 11))"

text \<open>
  An entity whose rules are written in the reverse order of the phases: code caret rules,
  then concept rules, then caret value rules. One rule of each class fails.
\<close>

definition shuffledZoo :: FshCodeSystem where
  "shuffledZoo =
     plainZoo\<lparr>FshCodeSystem.rules :=
       [polarDesignationRule, grizzlyCaretRule, bearRule, lionRule, polarRule, catRule,
        contentRule, badCountRule, contactRule]\<rparr>"

definition shuffledZooDocument :: CodeSystem where
  "shuffledZooDocument =
     \<lparr>CodeSystem.name = Some ''Zoo'', CodeSystem.id' = Some ''zoo'', CodeSystem.title = None,
      CodeSystem.description = None, CodeSystem.version = Some ''1.0.0'',
      CodeSystem.url = Some ''http://example.org/CodeSystem/zoo'', content = Some ''complete'',
      count = Some 3,
      CodeSystem.concept =
        Some [CodeSystemConcept ''bear'' (Some ''Bear'') None
                (Some [CodeSystemConcept ''polar'' None None None]),
              CodeSystemConcept ''cat'' None None None],
      properties =
        [(''contact[0].name'', FshString ''Keeper''),
         (''concept[0].concept[0].designation[0].value'', FshString ''ours blanc'')]\<rparr>"

definition aviary :: FshCodeSystem where
  "aviary =
     \<lparr>FshCodeSystem.name = ''Aviary'', FshCodeSystem.id' = ''aviary'',
      FshCodeSystem.title = Some ''Aviary'', FshCodeSystem.description = None,
      FshCodeSystem.rules = [],
      FshCodeSystem.sourceInfo = Some (SourceInfo ''aviary.fsh'' 1)\<rparr>"

section \<open>Properties of the Extension constructor\<close>

text \<open>
  C10. A new Extension has its name as id, the parent \<open>Extension\<close>, no mixins and no
  rules; title and description are undefined. Assigning one of these fields afterwards
  changes that field only.
\<close>

theorem newExtension_defaults:
  "Extension.name (newExtension n) = n
   \<and> Extension.id' (newExtension n) = n
   \<and> Extension.parent (newExtension n) = ''Extension''
   \<and> Extension.mixins (newExtension n) = Some []
   \<and> Extension.rules (newExtension n) = []
   \<and> Extension.title (newExtension n) = None
   \<and> Extension.description (newExtension n) = None
   \<and> Extension.parent ((newExtension n)\<lparr>Extension.id' := i\<rparr>) = ''Extension''
   \<and> Extension.id' ((newExtension n)\<lparr>Extension.id' := i\<rparr>) = i
   \<and> Extension.id' ((newExtension n)\<lparr>Extension.parent := p\<rparr>) = n
   \<and> Extension.parent ((newExtension n)\<lparr>Extension.parent := p\<rparr>) = p"
  by (simp add: newExtension_def)

section \<open>Properties of count reconciliation\<close>

lemma foldl_plus_sum_list: "foldl (\<lambda>sum next. sum + next) a xs = (a::nat) + sum_list xs"
  by (induction xs arbitrary: a) auto

lemma countConcepts_sum:
  "countConcepts (Some concepts) =
     length concepts + sum_list (map (\<lambda>c. countConcepts (CodeSystemConcept.concept c)) concepts)"
  by (simp add: foldl_plus_sum_list)

lemma length_conceptsIn:
  "length (conceptsIn c) = Suc (length (forestConcepts (orEmpty (CodeSystemConcept.concept c))))"
  by (cases c) (simp add: forestConcepts_def orEmpty_def split: option.splits)

lemma length_forestConcepts:
  "length (forestConcepts cs) =
     length cs +
     sum_list (map (\<lambda>c. length (forestConcepts (orEmpty (CodeSystemConcept.concept c)))) cs)"
proof (induction cs)
  case Nil
  show ?case by (simp add: forestConcepts_def)
next
  case (Cons c cs)
  have "forestConcepts (c # cs) = conceptsIn c @ forestConcepts cs"
    by (simp add: forestConcepts_def)
  then show ?case using Cons by (simp add: length_conceptsIn)
qed

text \<open>The recursive counter counts the concepts of the forest.\<close>

lemma countConcepts_forestConcepts:
  "countConcepts k = length (forestConcepts (orEmpty k))"
proof (induction k rule: countConcepts.induct)
  case 1
  show ?case by (simp add: orEmpty_def forestConcepts_def)
next
  case (2 concepts)
  have "sum_list (map (\<lambda>c. countConcepts (CodeSystemConcept.concept c)) concepts)
        = sum_list (map (\<lambda>c. length (forestConcepts (orEmpty (CodeSystemConcept.concept c))))
                     concepts)"
    using 2 by (intro arg_cong [where f = sum_list] map_cong refl) simp
  moreover have "length (forestConcepts concepts)
        = length concepts +
          sum_list (map (\<lambda>c. length (forestConcepts (orEmpty (CodeSystemConcept.concept c))))
                     concepts)"
    by (rule length_forestConcepts)
  ultimately show ?case
    by (simp only: countConcepts_sum orEmpty_def option.case)
qed

lemma actualCount_forest:
  "(if countConcepts k = 0 then None else Some (countConcepts k)) =
   (if forestConcepts (orEmpty k) = [] then None
    else Some (length (forestConcepts (orEmpty k))))"
  by (simp add: countConcepts_forestConcepts)

text \<open>
  C1. \<open>updateCount\<close> changes nothing and logs nothing unless the content is \<open>complete\<close>.
  With content \<open>complete\<close>: when no count is set and the forest has a concept, the count
  becomes the number of concepts of the whole forest, nested ones included, and nothing is
  logged; when a count is set that differs from that number, the document is left as it
  is and exactly one warning, the count mismatch message, is logged.
\<close>

theorem updateCount_reconciles:
  "(CodeSystem.content codeSystem \<noteq> Some ''complete'' \<longrightarrow>
      updateCount codeSystem fshDefinition st = (codeSystem, st))
   \<and> (CodeSystem.content codeSystem = Some ''complete''
        \<and> CodeSystem.count codeSystem = None
        \<and> forestConcepts (orEmpty (CodeSystem.concept codeSystem)) \<noteq> [] \<longrightarrow>
      updateCount codeSystem fshDefinition st =
        (codeSystem\<lparr>CodeSystem.count :=
           Some (length (forestConcepts (orEmpty (CodeSystem.concept codeSystem))))\<rparr>, st))
   \<and> (CodeSystem.content codeSystem = Some ''complete''
        \<and> CodeSystem.count codeSystem = Some explicitCount
        \<and> explicitCount \<noteq> length (forestConcepts (orEmpty (CodeSystem.concept codeSystem))) \<longrightarrow>
      fst (updateCount codeSystem fshDefinition st) = codeSystem
      \<and> codeSystems (snd (updateCount codeSystem fshDefinition st)) = codeSystems st
      \<and> (\<exists>src. log (snd (updateCount codeSystem fshDefinition st)) =
            log st @ [(WarnLevel,
              countMismatchMessage (Some explicitCount)
                 (if forestConcepts (orEmpty (CodeSystem.concept codeSystem)) = [] then None
                  else Some (length (forestConcepts (orEmpty (CodeSystem.concept codeSystem))))),
              src)]))"
proof (intro conjI impI)
  assume "CodeSystem.content codeSystem \<noteq> Some ''complete''"
  then show "updateCount codeSystem fshDefinition st = (codeSystem, st)"
    by (simp add: updateCount_def)
next
  assume "CodeSystem.content codeSystem = Some ''complete''
        \<and> CodeSystem.count codeSystem = None
        \<and> forestConcepts (orEmpty (CodeSystem.concept codeSystem)) \<noteq> []"
  then show "updateCount codeSystem fshDefinition st =
        (codeSystem\<lparr>CodeSystem.count :=
           Some (length (forestConcepts (orEmpty (CodeSystem.concept codeSystem))))\<rparr>, st)"
    unfolding updateCount_def Let_def actualCount_forest by simp
next
  assume a: "CodeSystem.content codeSystem = Some ''complete''
        \<and> CodeSystem.count codeSystem = Some explicitCount
        \<and> explicitCount \<noteq> length (forestConcepts (orEmpty (CodeSystem.concept codeSystem)))"
  then show "fst (updateCount codeSystem fshDefinition st) = codeSystem"
    unfolding updateCount_def Let_def actualCount_forest by simp
  from a show "codeSystems (snd (updateCount codeSystem fshDefinition st)) = codeSystems st"
    unfolding updateCount_def Let_def actualCount_forest by (simp add: logger_warn_def)
  from a show "\<exists>src. log (snd (updateCount codeSystem fshDefinition st)) =
            log st @ [(WarnLevel,
              countMismatchMessage (Some explicitCount)
                 (if forestConcepts (orEmpty (CodeSystem.concept codeSystem)) = [] then None
                  else Some (length (forestConcepts (orEmpty (CodeSystem.concept codeSystem))))),
              src)]"
    unfolding updateCount_def Let_def actualCount_forest by (simp add: logger_warn_def)
qed

lemma forestConcepts_exampleForest: "length (forestConcepts exampleForest) = 3"
  by (simp add: forestConcepts_def exampleForest_def)

text \<open>
  C1 on a document with three concepts, one of them nested: with content \<open>fragment\<close>
  nothing happens; with content \<open>complete\<close> and no count the count becomes 3; with the
  count 5 it stays 5 and one warning is logged.
\<close>

theorem updateCount_reconciles_witness:
  "updateCount (exampleDocument\<lparr>content := Some ''fragment''\<rparr>) plainZoo emptyState
     = (exampleDocument\<lparr>content := Some ''fragment''\<rparr>, emptyState)
   \<and> updateCount exampleDocument plainZoo emptyState
     = (exampleDocument\<lparr>count := Some 3\<rparr>, emptyState)
   \<and> fst (updateCount (exampleDocument\<lparr>count := Some 5\<rparr>) plainZoo emptyState)
     = exampleDocument\<lparr>count := Some 5\<rparr>
   \<and> (\<exists>src. log (snd (updateCount (exampleDocument\<lparr>count := Some 5\<rparr>) plainZoo emptyState))
     = [(WarnLevel, countMismatchMessage (Some 5) (Some 3), src)])"
proof -
  have f: "forestConcepts (orEmpty (CodeSystem.concept exampleDocument)) \<noteq> []"
    "length (forestConcepts (orEmpty (CodeSystem.concept exampleDocument))) = 3"
    using forestConcepts_exampleForest by (auto simp: exampleDocument_def orEmpty_def)
  have c: "CodeSystem.content exampleDocument = Some ''complete''"
    "CodeSystem.count exampleDocument = None"
    by (simp_all add: exampleDocument_def)
  show ?thesis
    using updateCount_reconciles
            [of "exampleDocument\<lparr>content := Some ''fragment''\<rparr>" plainZoo emptyState 0]
          updateCount_reconciles [of exampleDocument plainZoo emptyState 0]
          updateCount_reconciles [of "exampleDocument\<lparr>count := Some 5\<rparr>" plainZoo emptyState 5]
          f c
    by (simp add: emptyState_def)
qed

section \<open>Properties of the concept forest\<close>

subsection \<open>Finding a concept by its code\<close>

lemma findIndex_None: "findIndex P xs = None \<longleftrightarrow> (\<forall>x\<in>set xs. \<not> P x)"
  by (induction xs) auto

lemma findIndex_Some:
  "findIndex P xs = Some i \<Longrightarrow> i < length xs \<and> P (xs ! i) \<and> (\<forall>j<i. \<not> P (xs ! j))"
proof (induction xs arbitrary: i)
  case Nil
  then show ?case by simp
next
  case (Cons x xs)
  show ?case
  proof (cases "P x")
    case True
    with Cons.prems show ?thesis by simp
  next
    case False
    with Cons.prems obtain k where k: "findIndex P xs = Some k" "i = Suc k" by auto
    from Cons.IH [OF k(1)] False k(2) show ?thesis
      by (auto simp: nth_Cons split: nat.splits)
  qed
qed

lemma find_findIndex: "find P xs = map_option (\<lambda>i. xs ! i) (findIndex P xs)"
  by (induction xs) (auto simp: option.map_comp comp_def)

lemma find_snoc:
  "find P (xs @ [y]) =
     (case find P xs of Some x \<Rightarrow> Some x | None \<Rightarrow> if P y then Some y else None)"
  by (induction xs) auto

lemma findIndex_update_same:
  "findIndex P xs = Some i \<Longrightarrow> P y \<Longrightarrow> findIndex P (xs[i := y]) = Some i"
proof (induction xs arbitrary: i)
  case Nil
  then show ?case by simp
next
  case (Cons x xs)
  then show ?case by (cases i) (auto split: if_splits)
qed

lemma find_update_other:
  "i < length xs \<Longrightarrow> \<not> Q (xs ! i) \<Longrightarrow> \<not> Q y \<Longrightarrow> find Q (xs[i := y]) = find Q xs"
proof (induction xs arbitrary: i)
  case Nil
  then show ?case by simp
next
  case (Cons x xs)
  then show ?case by (cases i) auto
qed

lemma find_update_same:
  "findIndex P xs = Some i \<Longrightarrow> P y \<Longrightarrow> find P (xs[i := y]) = Some y"
  using findIndex_update_same [of P xs i y] findIndex_Some [of P xs i]
  by (simp add: find_findIndex)

lemma code_setChildren [simp]: "CodeSystemConcept.code (setChildren c cs) = CodeSystemConcept.code c"
  by (simp add: setChildren_def)

lemma concept_setChildren [simp]: "CodeSystemConcept.concept (setChildren c cs) = Some cs"
  by (simp add: setChildren_def)

lemma entry_setChildren [simp]: "entry (setChildren c cs) = entry c"
  by (simp add: setChildren_def entry_def)

text \<open>The walk fails exactly when the ancestor chain does not lead to a level.\<close>

lemma walkAndPush_missing_iff:
  "snd (walkAndPush forest h n) = None \<longleftrightarrow> levelAt forest h \<noteq> None"
proof (induction forest h n rule: walkAndPush.induct)
  case (1 conceptContainer newC)
  show ?case by simp
next
  case (2 conceptContainer ancestorCode rest newC)
  show ?case
  proof (cases "findIndex (\<lambda>c. CodeSystemConcept.code c = ancestorCode) conceptContainer")
    case None
    then show ?thesis by (simp add: find_findIndex)
  next
    case (Some i)
    with 2 [OF Some refl] show ?thesis
      by (simp add: find_findIndex Let_def)
  qed
qed

lemma walkAndPush_missing:
  "snd (walkAndPush forest h n) = Some a \<Longrightarrow>
     \<exists>ks rest l. h = ks @ a # rest \<and> levelAt forest ks = Some l
        \<and> a \<notin> CodeSystemConcept.code ` set l"
proof (induction forest h n rule: walkAndPush.induct)
  case (1 conceptContainer newC)
  then show ?case by simp
next
  case (2 conceptContainer ancestorCode rest newC)
  show ?case
  proof (cases "findIndex (\<lambda>c. CodeSystemConcept.code c = ancestorCode) conceptContainer")
    case None
    with "2.prems" have "a = ancestorCode" by simp
    moreover from None have "ancestorCode \<notin> CodeSystemConcept.code ` set conceptContainer"
      by (auto simp: findIndex_None)
    ultimately have "ancestorCode # rest = [] @ a # rest \<and> levelAt conceptContainer [] = Some conceptContainer
        \<and> a \<notin> CodeSystemConcept.code ` set conceptContainer"
      by simp
    then show ?thesis by blast
  next
    case (Some i)
    with "2.prems" have
      "snd (walkAndPush (orEmpty (CodeSystemConcept.concept (conceptContainer ! i))) rest newC) = Some a"
      by (simp add: Let_def)
    from "2.IH" [OF Some refl this] obtain ks rest' l where
      k: "rest = ks @ a # rest'"
         "levelAt (orEmpty (CodeSystemConcept.concept (conceptContainer ! i))) ks = Some l"
         "a \<notin> CodeSystemConcept.code ` set l"
      by blast
    from Some k(2) have "levelAt conceptContainer (ancestorCode # ks) = Some l"
      by (simp add: find_findIndex)
    with k(1,3) have "ancestorCode # rest = (ancestorCode # ks) @ a # rest'
        \<and> levelAt conceptContainer (ancestorCode # ks) = Some l
        \<and> a \<notin> CodeSystemConcept.code ` set l"
      by simp
    then show ?thesis by blast
  qed
qed

lemma normalise_unfold:
  "normalise c =
     CodeSystemConcept (CodeSystemConcept.code c) (CodeSystemConcept.display c)
       (CodeSystemConcept.definition' c)
       (Some (map normalise (orEmpty (CodeSystemConcept.concept c))))"
  by (cases c) (simp add: orEmpty_def split: option.splits)

lemma normalise_setChildren:
  "map normalise cs = map normalise (orEmpty (CodeSystemConcept.concept c)) \<Longrightarrow>
     normalise (setChildren c cs) = normalise c"
  by (simp add: normalise_unfold [of "setChildren c cs"] normalise_unfold [of c] setChildren_def
        orEmpty_def)

lemma map_update_same:
  "i < length xs \<Longrightarrow> f y = f (xs ! i) \<Longrightarrow> map f (xs[i := y]) = map f xs"
  by (simp add: map_update list_update_same_conv)

text \<open>A walk that fails leaves the forest as it was, up to the empty arrays it created.\<close>

lemma walkAndPush_failed_forest:
  "levelAt forest h = None \<Longrightarrow>
     map normalise (fst (walkAndPush forest h n)) = map normalise forest"
proof (induction forest h n rule: walkAndPush.induct)
  case (1 conceptContainer newC)
  then show ?case by simp
next
  case (2 conceptContainer ancestorCode rest newC)
  show ?case
  proof (cases "findIndex (\<lambda>c. CodeSystemConcept.code c = ancestorCode) conceptContainer")
    case None
    then show ?thesis by simp
  next
    case (Some i)
    with "2.prems" have
      "levelAt (orEmpty (CodeSystemConcept.concept (conceptContainer ! i))) rest = None"
      by (simp add: find_findIndex)
    from "2.IH" [OF Some refl this] have
      "normalise (setChildren (conceptContainer ! i)
          (fst (walkAndPush (orEmpty (CodeSystemConcept.concept (conceptContainer ! i))) rest newC)))
       = normalise (conceptContainer ! i)"
      by (rule normalise_setChildren)
    moreover have "i < length conceptContainer"
      using findIndex_Some [OF Some] by simp
    ultimately show ?thesis using Some
      by (simp add: Let_def map_update_same)
  qed
qed

text \<open>A walk that succeeds appends the new concept as the last child of the level.\<close>

lemma walkAndPush_level:
  "levelAt forest h = Some l \<Longrightarrow>
     levelAt (fst (walkAndPush forest h n)) h = Some (l @ [n])"
proof (induction forest h n arbitrary: l rule: walkAndPush.induct)
  case (1 conceptContainer newC)
  then show ?case by simp
next
  case (2 conceptContainer ancestorCode rest newC)
  show ?case
  proof (cases "findIndex (\<lambda>c. CodeSystemConcept.code c = ancestorCode) conceptContainer")
    case None
    with "2.prems" show ?thesis by (simp add: find_findIndex)
  next
    case (Some i)
    with "2.prems" have
      "levelAt (orEmpty (CodeSystemConcept.concept (conceptContainer ! i))) rest = Some l"
      by (simp add: find_findIndex)
    from "2.IH" [OF Some refl this] have
      sub: "levelAt (fst (walkAndPush (orEmpty (CodeSystemConcept.concept (conceptContainer ! i)))
                       rest newC)) rest = Some (l @ [newC])" .
    have "CodeSystemConcept.code (conceptContainer ! i) = ancestorCode"
      using findIndex_Some [OF Some] by simp
    then have "find (\<lambda>c. CodeSystemConcept.code c = ancestorCode)
        (conceptContainer[i := setChildren (conceptContainer ! i)
           (fst (walkAndPush (orEmpty (CodeSystemConcept.concept (conceptContainer ! i))) rest newC))])
      = Some (setChildren (conceptContainer ! i)
           (fst (walkAndPush (orEmpty (CodeSystemConcept.concept (conceptContainer ! i))) rest newC)))"
      using Some by (intro find_update_same) simp_all
    with sub Some show ?thesis
      by (simp add: Let_def orEmpty_def)
  qed
qed

lemma orEmpty_simps [simp]: "orEmpty None = []" "orEmpty (Some xs) = xs"
  by (simp_all add: orEmpty_def)

lemma levelEntries_Nil [simp]: "levelEntries forest [] = map entry forest"
  by (simp add: levelEntries_def)

lemma levelEntries_Cons:
  "levelEntries forest (a # rest) =
     (case find (\<lambda>c. CodeSystemConcept.code c = a) forest of
        None \<Rightarrow> []
      | Some c \<Rightarrow> levelEntries (orEmpty (CodeSystemConcept.concept c)) rest)"
  by (simp add: levelEntries_def split: option.splits)

lemma levelEntries_empty [simp]: "levelEntries [] h = []"
  by (cases h) (simp_all add: levelEntries_Cons)

text \<open>
  A walk that succeeds changes one level only: the new concept is added at the end of the
  level the ancestor chain leads to, and every other level keeps its entries in order.
\<close>

lemma walkAndPush_entries:
  "levelAt forest h = Some l \<Longrightarrow> CodeSystemConcept.concept n = None \<Longrightarrow>
     levelEntries (fst (walkAndPush forest h n)) h' =
       levelEntries forest h' @ (if h' = h then [entry n] else [])"
proof (induction forest h n arbitrary: l h' rule: walkAndPush.induct)
  case (1 conceptContainer newC)
  show ?case
  proof (cases h')
    case Nil
    then show ?thesis by simp
  next
    case (Cons b bs)
    with "1.prems" show ?thesis
      by (simp add: levelEntries_Cons find_snoc orEmpty_def split: option.splits)
  qed
next
  case (2 conceptContainer ancestorCode rest newC)
  show ?case
  proof (cases "findIndex (\<lambda>c. CodeSystemConcept.code c = ancestorCode) conceptContainer")
    case None
    with "2.prems" show ?thesis by (simp add: find_findIndex)
  next
    case (Some i)
    let ?kids = "orEmpty (CodeSystemConcept.concept (conceptContainer ! i))"
    let ?new = "setChildren (conceptContainer ! i) (fst (walkAndPush ?kids rest newC))"
    have i: "i < length conceptContainer"
      "CodeSystemConcept.code (conceptContainer ! i) = ancestorCode"
      using findIndex_Some [OF Some] by simp_all
    have result: "fst (walkAndPush conceptContainer (ancestorCode # rest) newC)
        = conceptContainer[i := ?new]"
      using Some by (simp add: Let_def)
    from Some "2.prems" have sub: "levelAt ?kids rest = Some l"
      by (simp add: find_findIndex)
    show ?thesis
    proof (cases h')
      case Nil
      with i show ?thesis unfolding result by (simp add: map_update_same)
    next
      case (Cons b bs)
      show ?thesis
      proof (cases "b = ancestorCode")
        case True
        have "find (\<lambda>c. CodeSystemConcept.code c = ancestorCode) (conceptContainer[i := ?new])
              = Some ?new"
          using Some i by (intro find_update_same) simp_all
        moreover have "find (\<lambda>c. CodeSystemConcept.code c = ancestorCode) conceptContainer
              = Some (conceptContainer ! i)"
          using Some by (simp add: find_findIndex)
        moreover note "2.IH" [OF Some refl sub "2.prems"(2), of bs]
        ultimately show ?thesis unfolding result Cons True
          by (simp add: levelEntries_Cons)
      next
        case False
        with i have "find (\<lambda>c. CodeSystemConcept.code c = b) (conceptContainer[i := ?new])
              = find (\<lambda>c. CodeSystemConcept.code c = b) conceptContainer"
          by (intro find_update_other) simp_all
        with False show ?thesis unfolding result Cons
          by (simp add: levelEntries_Cons)
      qed
    qed
  qed
qed

lemma countConcepts_orEmpty: "countConcepts (Some (orEmpty k)) = countConcepts k"
  by (cases k) (simp_all add: orEmpty_def)

lemma sum_list_map_update:
  "i < length xs \<Longrightarrow>
     sum_list (map f (xs[i := y])) + f (xs ! i) = sum_list (map f xs) + (f y :: nat)"
proof (induction xs arbitrary: i)
  case Nil
  then show ?case by simp
next
  case (Cons x xs)
  then show ?case by (cases i) auto
qed

text \<open>A walk adds one concept when it succeeds and none when it fails.\<close>

lemma walkAndPush_count:
  "CodeSystemConcept.concept n = None \<Longrightarrow>
     countConcepts (Some (fst (walkAndPush forest h n))) =
       countConcepts (Some forest) + (if levelAt forest h = None then 0 else 1)"
proof (induction forest h n rule: walkAndPush.induct)
  case (1 conceptContainer newC)
  then show ?case by (simp add: foldl_plus_sum_list)
next
  case (2 conceptContainer ancestorCode rest newC)
  show ?case
  proof (cases "findIndex (\<lambda>c. CodeSystemConcept.code c = ancestorCode) conceptContainer")
    case None
    then show ?thesis by (simp add: find_findIndex)
  next
    case (Some i)
    let ?kids = "orEmpty (CodeSystemConcept.concept (conceptContainer ! i))"
    let ?new = "setChildren (conceptContainer ! i) (fst (walkAndPush ?kids rest newC))"
    let ?f = "\<lambda>c. countConcepts (CodeSystemConcept.concept c)"
    let ?d = "if levelAt ?kids rest = None then 0 else (1::nat)"
    have i: "i < length conceptContainer"
      using findIndex_Some [OF Some] by simp
    have result: "fst (walkAndPush conceptContainer (ancestorCode # rest) newC)
        = conceptContainer[i := ?new]"
      using Some by (simp add: Let_def)
    have level: "levelAt conceptContainer (ancestorCode # rest) = levelAt ?kids rest"
      using Some by (simp add: find_findIndex)
    have "?f ?new = ?f (conceptContainer ! i) + ?d"
      using "2.IH" [OF Some refl "2.prems"]
      by (simp add: countConcepts_orEmpty del: countConcepts.simps)
    with sum_list_map_update [OF i, of ?f ?new]
    have "sum_list (map ?f (conceptContainer[i := ?new])) = sum_list (map ?f conceptContainer) + ?d"
      by simp
    then show ?thesis unfolding result level countConcepts_sum
      by simp
  qed
qed

subsection \<open>State components through the logger and the history\<close>

lemma logger_error_simps [simp]:
  "log (logger_error m src st) = log st @ [(ErrorLevel, m, src)]"
  "history (logger_error m src st) = history st"
  "codeSystems (logger_error m src st) = codeSystems st"
  by (simp_all add: logger_error_def)

lemma observe_simps [simp]:
  "log (observe evs st) = log st"
  "history (observe evs st) = history st @ evs"
  "codeSystems (observe evs st) = codeSystems st"
  by (simp_all add: observe_def)

subsection \<open>One concept rule\<close>

lemma concept_newConcept [simp]: "CodeSystemConcept.concept (newConcept rule) = None"
  by (simp add: newConcept_def)

lemma setConcepts_each_forest:
  "fst (setConcepts_each rule s) = fst (walkAndPush (fst s) (hierarchy rule) (newConcept rule))"
  by (simp add: setConcepts_each_def Let_def split: option.splits)

lemma setConcepts_each_log:
  "log (snd (setConcepts_each rule s)) =
     log (snd s) @
     (case snd (walkAndPush (fst s) (hierarchy rule) (newConcept rule)) of
        None \<Rightarrow> []
      | Some a \<Rightarrow> [(ErrorLevel, missingAncestorMessage a (Rule.code rule), Rule.sourceInfo rule)])"
  by (simp add: setConcepts_each_def Let_def split: option.splits)

lemma setConcepts_each_history:
  "history (snd (setConcepts_each rule s)) = history (snd s) @ [RuleApplication rule]"
  by (simp add: setConcepts_each_def Let_def split: option.splits)

lemma setConcepts_each_codeSystems:
  "codeSystems (snd (setConcepts_each rule s)) = codeSystems (snd s)"
  by (simp add: setConcepts_each_def Let_def split: option.splits)

subsection \<open>The loop over the concept rules\<close>

lemma setConcepts_forEach_Nil [simp]: "setConcepts_forEach [] s = s"
  by (simp add: setConcepts_forEach_def)

lemma setConcepts_forEach_append:
  "setConcepts_forEach (xs @ ys) s = setConcepts_forEach ys (setConcepts_forEach xs s)"
  by (simp add: setConcepts_forEach_def)

lemma setConcepts_forEach_snoc:
  "setConcepts_forEach (xs @ [x]) s = setConcepts_each x (setConcepts_forEach xs s)"
  by (simp add: setConcepts_forEach_def)

lemma setConcepts_forEach_history:
  "history (snd (setConcepts_forEach rs s)) = history (snd s) @ map RuleApplication rs"
  by (induction rs rule: rev_induct)
     (simp_all add: setConcepts_forEach_snoc setConcepts_each_history)

lemma setConcepts_forEach_codeSystems:
  "codeSystems (snd (setConcepts_forEach rs s)) = codeSystems (snd s)"
  by (induction rs rule: rev_induct)
     (simp_all add: setConcepts_forEach_snoc setConcepts_each_codeSystems)

text \<open>The forest does not depend on the state the loop is started in.\<close>

lemma setConcepts_forEach_forest:
  "fst (setConcepts_forEach rs (forest, st)) = fst (setConcepts_forEach rs (forest, st'))"
  by (induction rs rule: rev_induct)
     (simp_all add: setConcepts_forEach_snoc setConcepts_each_forest)

text \<open>A code that occurs nowhere in the forest is not found at any level.\<close>

lemma levelAt_set_forestConcepts:
  "levelAt forest h = Some l \<Longrightarrow> a \<in> set h \<Longrightarrow>
     a \<in> CodeSystemConcept.code ` set (forestConcepts forest)"
proof (induction forest h arbitrary: l rule: levelAt.induct)
  case (1 forest)
  then show ?case by simp
next
  case (2 forest b rest)
  from "2.prems"(1) obtain c where
    c: "find (\<lambda>c. CodeSystemConcept.code c = b) forest = Some c"
       "levelAt (orEmpty (CodeSystemConcept.concept c)) rest = Some l"
    by (auto split: option.splits)
  from c(1) have cin: "c \<in> set forest" "CodeSystemConcept.code c = b"
    by (auto simp: find_Some_iff)
  have sub: "set (conceptsIn c) \<subseteq> set (forestConcepts forest)"
    using cin(1) by (auto simp: forestConcepts_def)
  have self: "c \<in> set (conceptsIn c)" by (cases c) simp
  have kids: "set (forestConcepts (orEmpty (CodeSystemConcept.concept c))) \<subseteq> set (conceptsIn c)"
    by (cases c) (auto simp: forestConcepts_def orEmpty_def split: option.splits)
  show ?case
  proof (cases "a = b")
    case True
    with cin(2) self sub show ?thesis by blast
  next
    case False
    with "2.prems"(2) have "a \<in> set rest" by simp
    from "2.IH" [OF c(1) c(2) this] kids sub show ?thesis by blast
  qed
qed

lemma absent_code_levelAt:
  "a \<in> set h \<Longrightarrow> a \<notin> CodeSystemConcept.code ` set (forestConcepts forest) \<Longrightarrow>
     levelAt forest h = None"
  using levelAt_set_forestConcepts [of forest h _ a] by (cases "levelAt forest h") auto

subsection \<open>A concept rule whose ancestor chain is not satisfied\<close>

lemma setConcepts_forEach_unlocated:
  assumes "levelAt (fst (setConcepts_forEach before ([], st))) (hierarchy rule) = None"
  shows "\<exists>a ks rest l.
           hierarchy rule = ks @ a # rest
           \<and> levelAt (fst (setConcepts_forEach before ([], st))) ks = Some l
           \<and> a \<notin> CodeSystemConcept.code ` set l
           \<and> log (snd (setConcepts_forEach (before @ [rule]) ([], st))) =
               log (snd (setConcepts_forEach before ([], st))) @
               [(ErrorLevel, missingAncestorMessage a (Rule.code rule), Rule.sourceInfo rule)]"
    and "map normalise (fst (setConcepts_forEach (before @ [rule]) ([], st))) =
         map normalise (fst (setConcepts_forEach before ([], st)))"
    and "length (forestConcepts (fst (setConcepts_forEach (before @ [rule]) ([], st)))) =
         length (forestConcepts (fst (setConcepts_forEach before ([], st))))"
proof -
  let ?s = "setConcepts_forEach before ([], st)"
  let ?w = "walkAndPush (fst ?s) (hierarchy rule) (newConcept rule)"
  from assms obtain a where a: "snd ?w = Some a"
    using walkAndPush_missing_iff [of "fst ?s" "hierarchy rule" "newConcept rule"]
    by (cases "snd ?w") auto
  from walkAndPush_missing [OF a] obtain ks rest l where
    k: "hierarchy rule = ks @ a # rest" "levelAt (fst ?s) ks = Some l"
       "a \<notin> CodeSystemConcept.code ` set l"
    by blast
  have "log (snd (setConcepts_forEach (before @ [rule]) ([], st))) =
          log (snd ?s) @
          [(ErrorLevel, missingAncestorMessage a (Rule.code rule), Rule.sourceInfo rule)]"
    using a by (simp add: setConcepts_forEach_snoc setConcepts_each_log)
  with k show "\<exists>a ks rest l.
           hierarchy rule = ks @ a # rest
           \<and> levelAt (fst ?s) ks = Some l
           \<and> a \<notin> CodeSystemConcept.code ` set l
           \<and> log (snd (setConcepts_forEach (before @ [rule]) ([], st))) =
               log (snd ?s) @
               [(ErrorLevel, missingAncestorMessage a (Rule.code rule), Rule.sourceInfo rule)]"
    by blast
  show "map normalise (fst (setConcepts_forEach (before @ [rule]) ([], st))) =
         map normalise (fst ?s)"
    using walkAndPush_failed_forest [OF assms]
    by (simp add: setConcepts_forEach_snoc setConcepts_each_forest)
  have "countConcepts (Some (fst ?w)) = countConcepts (Some (fst ?s))"
    using assms by (simp add: walkAndPush_count del: countConcepts.simps)
  then show "length (forestConcepts (fst (setConcepts_forEach (before @ [rule]) ([], st)))) =
         length (forestConcepts (fst ?s))"
    by (simp add: setConcepts_forEach_snoc setConcepts_each_forest countConcepts_forestConcepts
          del: countConcepts.simps)
qed

lemma setConcepts_split:
  "setConcepts (before @ rule # after) (codeSystem, st) =
     (codeSystem\<lparr>CodeSystem.concept :=
        Some (fst (setConcepts_forEach after (setConcepts_forEach (before @ [rule]) ([], st))))\<rparr>,
      snd (setConcepts_forEach after (setConcepts_forEach (before @ [rule]) ([], st))))"
proof -
  have "before @ rule # after = (before @ [rule]) @ after" by simp
  then have "setConcepts_forEach (before @ rule # after) ([], st) =
      setConcepts_forEach after (setConcepts_forEach (before @ [rule]) ([], st))"
    by (simp only: setConcepts_forEach_append)
  then show ?thesis by (simp add: setConcepts_def Let_def)
qed

lemma setConcepts_history:
  "history (snd (setConcepts concepts (codeSystem, st))) = history st @ map RuleApplication concepts"
  by (simp add: setConcepts_def Let_def setConcepts_forEach_history)

text \<open>
  C2. Take any list of concept rules and any rule of it that names an ancestor code
  occurring nowhere in the forest built by the rules before it. Then some code of its chain
  is not found at its level, the rule logs exactly one error, which names that code and the
  code of the concept, at the position of the rule; the forest after the rule is the forest
  before it, up to empty child arrays created on the way, and has as many concepts; and
  the rules after it are processed from the state the rule leaves, so that every rule of
  the list is applied, in order. Lemma \<open>setConcepts_forEach_unlocated\<close> shows the same for
  every rule whose chain does not lead to a level.
\<close>

theorem setConcepts_missing_ancestor:
  assumes "concepts = before @ rule # after"
    and "a \<in> set (hierarchy rule)"
    and "a \<notin> CodeSystemConcept.code `
           set (forestConcepts (fst (setConcepts_forEach before ([], st))))"
  shows "(\<exists>missing ks rest l.
            hierarchy rule = ks @ missing # rest
            \<and> levelAt (fst (setConcepts_forEach before ([], st))) ks = Some l
            \<and> missing \<notin> CodeSystemConcept.code ` set l
            \<and> log (snd (setConcepts_forEach (before @ [rule]) ([], st))) =
                log (snd (setConcepts_forEach before ([], st))) @
                [(ErrorLevel,
                  ''Could not find '' @ missing @
                  '' in concept hierarchy to use as ancestor of '' @ Rule.code rule @ ''.'',
                  Rule.sourceInfo rule)])
         \<and> map normalise (fst (setConcepts_forEach (before @ [rule]) ([], st))) =
             map normalise (fst (setConcepts_forEach before ([], st)))
         \<and> length (forestConcepts (fst (setConcepts_forEach (before @ [rule]) ([], st)))) =
             length (forestConcepts (fst (setConcepts_forEach before ([], st))))
         \<and> setConcepts concepts (codeSystem, st) =
             (codeSystem\<lparr>CodeSystem.concept :=
                Some (fst (setConcepts_forEach after
                             (setConcepts_forEach (before @ [rule]) ([], st))))\<rparr>,
              snd (setConcepts_forEach after (setConcepts_forEach (before @ [rule]) ([], st))))
         \<and> history (snd (setConcepts concepts (codeSystem, st))) =
             history st @ map RuleApplication concepts"
proof -
  have none: "levelAt (fst (setConcepts_forEach before ([], st))) (hierarchy rule) = None"
    using assms(2,3) by (rule absent_code_levelAt)
  show ?thesis
    using setConcepts_forEach_unlocated [OF none]
    unfolding assms(1) missingAncestorMessage_def
    by (intro conjI setConcepts_split setConcepts_history)
qed

lemmas example_rules_defs = bearRule_def polarRule_def catRule_def lionRule_def

lemmas run_defs =
  setConcepts_forEach_def setConcepts_each_def newConcept_def truthy_def setChildren_def
  observe_def logger_error_def emptyState_def Let_def

lemma run_bear:
  "fst (setConcepts_forEach [bearRule] ([], emptyState)) =
     [CodeSystemConcept ''bear'' (Some ''Bear'') None None]"
  by (simp add: run_defs example_rules_defs)

lemma run_bear_lion:
  "setConcepts_forEach [bearRule, lionRule] ([], emptyState) =
     ([CodeSystemConcept ''bear'' (Some ''Bear'') None None],
      \<lparr>codeSystems = [],
       log = [(ErrorLevel,
               ''Could not find feline in concept hierarchy to use as ancestor of lion.'',
               Some (SourceInfo ''zoo.fsh'' 6))],
       history = [RuleApplication bearRule, RuleApplication lionRule]\<rparr>)"
  by (simp add: run_defs example_rules_defs missingAncestorMessage_def)

text \<open>
  C2 on the rules for \<open>bear\<close>, for \<open>lion\<close> under the ancestor \<open>feline\<close>, and for
  \<open>cat\<close>: no concept has the code \<open>feline\<close>, the lion is dropped with the error
  \<open>Could not find feline in concept hierarchy to use as ancestor of lion.\<close> at the
  position of its rule, and the cat is added after it.
\<close>

theorem setConcepts_missing_ancestor_witness:
  "''feline'' \<in> set (hierarchy lionRule)
   \<and> ''feline'' \<notin> CodeSystemConcept.code `
         set (forestConcepts (fst (setConcepts_forEach [bearRule] ([], emptyState))))
   \<and> log (snd (setConcepts_forEach ([bearRule] @ [lionRule]) ([], emptyState))) =
       log (snd (setConcepts_forEach [bearRule] ([], emptyState))) @
       [(ErrorLevel, ''Could not find feline in concept hierarchy to use as ancestor of lion.'',
         Some (SourceInfo ''zoo.fsh'' 6))]
   \<and> setConcepts [bearRule, lionRule, catRule] (exampleDocument, emptyState) =
       (exampleDocument\<lparr>CodeSystem.concept :=
          Some [CodeSystemConcept ''bear'' (Some ''Bear'') None None,
                CodeSystemConcept ''cat'' None None None]\<rparr>,
        \<lparr>codeSystems = [],
         log = [(ErrorLevel,
                 ''Could not find feline in concept hierarchy to use as ancestor of lion.'',
                 Some (SourceInfo ''zoo.fsh'' 6))],
         history = [RuleApplication bearRule, RuleApplication lionRule,
                    RuleApplication catRule]\<rparr>)"
proof -
  have h1: "[bearRule, lionRule, catRule] = [bearRule] @ lionRule # [catRule]" by simp
  have h2: "''feline'' \<in> set (hierarchy lionRule)" by (simp add: lionRule_def)
  have h3: "''feline'' \<notin> CodeSystemConcept.code `
         set (forestConcepts (fst (setConcepts_forEach [bearRule] ([], emptyState))))"
    by (simp add: run_bear forestConcepts_def)
  have one: "hierarchy lionRule = ks @ missing # rest \<Longrightarrow> missing = ''feline''"
    for ks missing rest
    by (cases ks) (simp_all add: lionRule_def)
  have texts: "Rule.code lionRule = ''lion''"
    "Rule.sourceInfo lionRule = Some (SourceInfo ''zoo.fsh'' 6)"
    by (simp_all add: lionRule_def)
  have run: "setConcepts_forEach [catRule] (setConcepts_forEach ([bearRule] @ [lionRule]) ([], emptyState))
      = ([CodeSystemConcept ''bear'' (Some ''Bear'') None None,
          CodeSystemConcept ''cat'' None None None],
         \<lparr>codeSystems = [],
          log = [(ErrorLevel,
                  ''Could not find feline in concept hierarchy to use as ancestor of lion.'',
                  Some (SourceInfo ''zoo.fsh'' 6))],
          history = [RuleApplication bearRule, RuleApplication lionRule,
                     RuleApplication catRule]\<rparr>)"
    using run_bear_lion by (simp add: run_defs catRule_def)
  from setConcepts_missing_ancestor [OF h1 h2 h3, of exampleDocument] obtain missing ks rest where
    m: "hierarchy lionRule = ks @ missing # rest"
       "log (snd (setConcepts_forEach ([bearRule] @ [lionRule]) ([], emptyState))) =
          log (snd (setConcepts_forEach [bearRule] ([], emptyState))) @
          [(ErrorLevel,
            ''Could not find '' @ missing @
            '' in concept hierarchy to use as ancestor of '' @ Rule.code lionRule @ ''.'',
            Rule.sourceInfo lionRule)]"
    and s: "setConcepts [bearRule, lionRule, catRule] (exampleDocument, emptyState) =
       (exampleDocument\<lparr>CodeSystem.concept :=
          Some (fst (setConcepts_forEach [catRule]
                       (setConcepts_forEach ([bearRule] @ [lionRule]) ([], emptyState))))\<rparr>,
        snd (setConcepts_forEach [catRule]
               (setConcepts_forEach ([bearRule] @ [lionRule]) ([], emptyState))))"
    by blast
  from m(2) one [OF m(1)] texts
  have "log (snd (setConcepts_forEach ([bearRule] @ [lionRule]) ([], emptyState))) =
       log (snd (setConcepts_forEach [bearRule] ([], emptyState))) @
       [(ErrorLevel, ''Could not find feline in concept hierarchy to use as ancestor of lion.'',
         Some (SourceInfo ''zoo.fsh'' 6))]"
    by simp
  with h2 h3 s run show ?thesis by simp
qed

subsection \<open>Concept rules whose ancestor chains are satisfied\<close>

lemma chainsSatisfied_snoc:
  "chainsSatisfied (xs @ [x]) st \<Longrightarrow>
     chainsSatisfied xs st
     \<and> levelAt (fst (setConcepts_forEach xs ([], st))) (hierarchy x) \<noteq> None"
proof
  assume a: "chainsSatisfied (xs @ [x]) st"
  show "chainsSatisfied xs st"
    unfolding chainsSatisfied_def
  proof (intro allI impI)
    fix before rule after
    assume "xs = before @ rule # after"
    then have "xs @ [x] = before @ rule # (after @ [x])" by simp
    with a show "levelAt (fst (setConcepts_forEach before ([], st))) (hierarchy rule) \<noteq> None"
      unfolding chainsSatisfied_def by blast
  qed
  have "xs @ [x] = xs @ x # []" by simp
  with a show "levelAt (fst (setConcepts_forEach xs ([], st))) (hierarchy x) \<noteq> None"
    unfolding chainsSatisfied_def by blast
qed

lemma setConcepts_forEach_satisfied:
  "chainsSatisfied concepts st \<Longrightarrow>
     (\<forall>h. levelEntries (fst (setConcepts_forEach concepts ([], st))) h =
            map (\<lambda>r. entry (newConcept r)) (filter (\<lambda>r. hierarchy r = h) concepts))
     \<and> length (forestConcepts (fst (setConcepts_forEach concepts ([], st)))) = length concepts
     \<and> log (snd (setConcepts_forEach concepts ([], st))) = log st"
proof (induction concepts rule: rev_induct)
  case Nil
  show ?case by (simp add: forestConcepts_def)
next
  case (snoc x xs)
  let ?s = "setConcepts_forEach xs ([], st)"
  from chainsSatisfied_snoc [OF snoc.prems] obtain l where
    sat: "chainsSatisfied xs st" and l: "levelAt (fst ?s) (hierarchy x) = Some l"
    by auto
  note ih = snoc.IH [OF sat]
  have forest: "fst (setConcepts_forEach (xs @ [x]) ([], st)) =
      fst (walkAndPush (fst ?s) (hierarchy x) (newConcept x))"
    by (simp add: setConcepts_forEach_snoc setConcepts_each_forest)
  have "\<forall>h. levelEntries (fst (setConcepts_forEach (xs @ [x]) ([], st))) h =
            map (\<lambda>r. entry (newConcept r)) (filter (\<lambda>r. hierarchy r = h) (xs @ [x]))"
  proof
    fix h
    show "levelEntries (fst (setConcepts_forEach (xs @ [x]) ([], st))) h =
            map (\<lambda>r. entry (newConcept r)) (filter (\<lambda>r. hierarchy r = h) (xs @ [x]))"
      unfolding forest
      using walkAndPush_entries [OF l concept_newConcept, where h' = h] ih
      by auto
  qed
  moreover have "length (forestConcepts (fst (setConcepts_forEach (xs @ [x]) ([], st)))) =
      length (xs @ [x])"
  proof -
    have "countConcepts (Some (fst (walkAndPush (fst ?s) (hierarchy x) (newConcept x)))) =
        Suc (countConcepts (Some (fst ?s)))"
      using l by (simp add: walkAndPush_count del: countConcepts.simps)
    then show ?thesis unfolding forest using ih
      by (simp add: countConcepts_forestConcepts del: countConcepts.simps)
  qed
  moreover have "log (snd (setConcepts_forEach (xs @ [x]) ([], st))) = log st"
  proof -
    have "snd (walkAndPush (fst ?s) (hierarchy x) (newConcept x)) = None"
      using l by (simp add: walkAndPush_missing_iff)
    then show ?thesis using ih
      by (simp add: setConcepts_forEach_snoc setConcepts_each_log)
  qed
  ultimately show ?case by blast
qed

text \<open>
  C3. Take a non-empty list of concept rules in which the ancestor chain of every rule leads
  to a level of the forest as it is when the rule is reached. Then nothing is logged; each
  rule appends its concept as the last child of the level its chain leads to; the forest
  has exactly as many concepts as there are rules; and for every chain \<open>h\<close>, the
  level \<open>h\<close> leads to holds exactly the concepts of the rules with that chain, in the
  order of the rules.
\<close>

theorem setConcepts_insertion_order:
  assumes "concepts \<noteq> []"
    and "\<forall>before rule after. concepts = before @ rule # after \<longrightarrow>
           levelAt (fst (setConcepts_forEach before ([], st))) (hierarchy rule) \<noteq> None"
  shows "\<exists>forest.
           CodeSystem.concept (fst (setConcepts concepts (codeSystem, st))) = Some forest
           \<and> (\<forall>h. levelEntries forest h =
                  map (\<lambda>r. entry (newConcept r)) (filter (\<lambda>r. hierarchy r = h) concepts))
           \<and> length (forestConcepts forest) = length concepts
           \<and> log (snd (setConcepts concepts (codeSystem, st))) = log st
           \<and> (\<forall>before rule after l.
                  concepts = before @ rule # after
                  \<and> levelAt (fst (setConcepts_forEach before ([], st))) (hierarchy rule) = Some l
                  \<longrightarrow> levelAt (fst (setConcepts_forEach (before @ [rule]) ([], st)))
                        (hierarchy rule) = Some (l @ [newConcept rule]))"
proof -
  have sat: "chainsSatisfied concepts st"
    using assms(2) by (simp add: chainsSatisfied_def)
  have result: "setConcepts concepts (codeSystem, st) =
      (codeSystem\<lparr>CodeSystem.concept := Some (fst (setConcepts_forEach concepts ([], st)))\<rparr>,
       snd (setConcepts_forEach concepts ([], st)))"
    using assms(1) by (simp add: setConcepts_def Let_def)
  have last: "\<forall>before rule after l.
      concepts = before @ rule # after
      \<and> levelAt (fst (setConcepts_forEach before ([], st))) (hierarchy rule) = Some l
      \<longrightarrow> levelAt (fst (setConcepts_forEach (before @ [rule]) ([], st)))
            (hierarchy rule) = Some (l @ [newConcept rule])"
    by (simp add: setConcepts_forEach_snoc setConcepts_each_forest walkAndPush_level)
  show ?thesis
    using setConcepts_forEach_satisfied [OF sat] last unfolding result
    by simp
qed

lemma example_splits:
  "[a, b, c] = before @ rule # after \<longleftrightarrow>
     before = [] \<and> rule = a \<and> after = [b, c]
     \<or> before = [a] \<and> rule = b \<and> after = [c]
     \<or> before = [a, b] \<and> rule = c \<and> after = []"
  by (auto simp: Cons_eq_append_conv)

lemma run_bear_polar:
  "fst (setConcepts_forEach [bearRule, polarRule] ([], emptyState)) =
     [CodeSystemConcept ''bear'' (Some ''Bear'') None
        (Some [CodeSystemConcept ''polar'' None None None])]"
  by (simp add: run_defs example_rules_defs orEmpty_def)

text \<open>
  C3 on the rules for \<open>bear\<close>, for \<open>polar\<close> under \<open>bear\<close>, and for \<open>cat\<close>: the
  roots are bear and cat in this order, polar is the child of bear, and there are three
  concepts.
\<close>

theorem setConcepts_insertion_order_witness:
  "\<exists>forest.
     CodeSystem.concept (fst (setConcepts [bearRule, polarRule, catRule] (exampleDocument, emptyState)))
       = Some forest
     \<and> levelEntries forest [] = [(''bear'', Some ''Bear'', None), (''cat'', None, None)]
     \<and> levelEntries forest [''bear''] = [(''polar'', None, None)]
     \<and> length (forestConcepts forest) = 3
     \<and> log (snd (setConcepts [bearRule, polarRule, catRule] (exampleDocument, emptyState))) = []"
proof -
  have h1: "[bearRule, polarRule, catRule] \<noteq> []" by simp
  have h2: "\<forall>before rule after. [bearRule, polarRule, catRule] = before @ rule # after \<longrightarrow>
           levelAt (fst (setConcepts_forEach before ([], emptyState))) (hierarchy rule) \<noteq> None"
    unfolding example_splits
    using run_bear run_bear_polar
    by (auto simp: example_rules_defs)
  from setConcepts_insertion_order [OF h1 h2, of exampleDocument] obtain forest where
    f: "CodeSystem.concept (fst (setConcepts [bearRule, polarRule, catRule] (exampleDocument, emptyState)))
          = Some forest"
       "\<forall>h. levelEntries forest h =
              map (\<lambda>r. entry (newConcept r))
                (filter (\<lambda>r. hierarchy r = h) [bearRule, polarRule, catRule])"
       "length (forestConcepts forest) = length [bearRule, polarRule, catRule]"
       "log (snd (setConcepts [bearRule, polarRule, catRule] (exampleDocument, emptyState))) =
          log emptyState"
    by blast
  from f(2) [rule_format, of "[]"] f(2) [rule_format, of "[''bear'']"]
  have "levelEntries forest [] = [(''bear'', Some ''Bear'', None), (''cat'', None, None)]"
    "levelEntries forest [''bear''] = [(''polar'', None, None)]"
    by (simp_all add: example_rules_defs entry_def newConcept_def truthy_def)
  with f(1,3,4) show ?thesis by (simp add: emptyState_def)
qed

section \<open>Properties of code paths\<close>




text \<open>Every code path either has positions or has a code that is absent at its level.\<close>

lemma located_or_absent:
  "(\<exists>indices. located level steps indices)
   \<or> (\<exists>ks c rest l. steps = ks @ c # rest \<and> levelAt level ks = Some l
         \<and> c \<notin> CodeSystemConcept.code ` set l)"
proof (induction steps arbitrary: level)
  case Nil
  show ?case using located_Nil by blast
next
  case (Cons c cs)
  show ?case
  proof (cases "findIndex (\<lambda>x. CodeSystemConcept.code x = c) level")
    case None
    then have "c # cs = [] @ c # cs \<and> levelAt level [] = Some level
        \<and> c \<notin> CodeSystemConcept.code ` set level"
      by (auto simp: findIndex_None)
    then show ?thesis by blast
  next
    case (Some i)
    note f = findIndex_Some [OF Some]
    from Cons.IH [of "orEmpty (CodeSystemConcept.concept (level ! i))"] show ?thesis
    proof
      assume "\<exists>indices. located (orEmpty (CodeSystemConcept.concept (level ! i))) cs indices"
      then obtain indices where
        "located (orEmpty (CodeSystemConcept.concept (level ! i))) cs indices" ..
      with f have "located level (c # cs) (i # indices)"
        by (intro located_Cons) simp_all
      then show ?thesis by blast
    next
      assume "\<exists>ks c' rest l. cs = ks @ c' # rest
          \<and> levelAt (orEmpty (CodeSystemConcept.concept (level ! i))) ks = Some l
          \<and> c' \<notin> CodeSystemConcept.code ` set l"
      then obtain ks c' rest l where
        k: "cs = ks @ c' # rest"
           "levelAt (orEmpty (CodeSystemConcept.concept (level ! i))) ks = Some l"
           "c' \<notin> CodeSystemConcept.code ` set l"
        by blast
      from Some k(2) have "levelAt level (c # ks) = Some l"
        by (simp add: find_findIndex)
      with k(1,3) have "c # cs = (c # ks) @ c' # rest \<and> levelAt level (c # ks) = Some l
          \<and> c' \<notin> CodeSystemConcept.code ` set l"
        by simp
      then show ?thesis by blast
    qed
  qed
qed





section \<open>Properties of the export of an entity\<close>

subsection \<open>What one rule does to the state\<close>

lemma logger_warn_simps [simp]:
  "log (logger_warn m src st) = log st @ [(WarnLevel, m, src)]"
  "history (logger_warn m src st) = history st"
  "codeSystems (logger_warn m src st) = codeSystems st"
  by (simp_all add: logger_warn_def)

lemma validateAndSet_history:
  "history (snd (validateAndSet env sd path rule s)) = history (snd s) @ [PathResolution path]"
  by (simp add: validateAndSet_def Let_def split: sum.splits prod.splits option.splits)

lemma validateAndSet_codeSystems:
  "codeSystems (snd (validateAndSet env sd path rule s)) = codeSystems (snd s)"
  by (simp add: validateAndSet_def Let_def split: sum.splits prod.splits option.splits)

lemma validateAndSet_log:
  "log (snd (validateAndSet env sd path rule s)) =
     log (snd s) @
     (case ruleError env sd path rule (fst s) of
        None \<Rightarrow> []
      | Some e \<Rightarrow> [(ErrorLevel, message env e, Rule.sourceInfo rule)])"
  by (simp add: validateAndSet_def ruleError_def Let_def
        split: sum.splits prod.splits option.splits)

lemma setCaretRules_each_history:
  "history (snd (setCaretRules_each env sd rule s)) =
     history (snd s) @ [RuleApplication rule, PathResolution (caretPath rule)]"
  by (simp add: setCaretRules_each_def validateAndSet_history)

lemma setCaretRules_each_codeSystems:
  "codeSystems (snd (setCaretRules_each env sd rule s)) = codeSystems (snd s)"
  by (simp add: setCaretRules_each_def validateAndSet_codeSystems)

lemma setCaretRules_each_log:
  "log (snd (setCaretRules_each env sd rule s)) =
     log (snd s) @
     (case ruleError env sd (caretPath rule) rule (fst s) of
        None \<Rightarrow> []
      | Some e \<Rightarrow> [(ErrorLevel, message env e, Rule.sourceInfo rule)])"
  by (simp add: setCaretRules_each_def validateAndSet_log)

lemma setCodeCaretRules_each_history:
  "history (snd (setCodeCaretRules_each env sd rule s)) =
     history (snd s) @ RuleApplication rule #
     (case findConceptPath (fst s) (codePath rule) of
        Inl e \<Rightarrow> []
      | Inr conceptPath \<Rightarrow> [PathResolution (conceptPath @ ''.'' @ caretPath rule)])"
  by (simp add: setCodeCaretRules_each_def validateAndSet_history Let_def split: sum.splits)

lemma setCodeCaretRules_each_codeSystems:
  "codeSystems (snd (setCodeCaretRules_each env sd rule s)) = codeSystems (snd s)"
  by (simp add: setCodeCaretRules_each_def validateAndSet_codeSystems Let_def split: sum.splits)

lemma setCodeCaretRules_each_log:
  "log (snd (setCodeCaretRules_each env sd rule s)) =
     log (snd s) @
     (case (case findConceptPath (fst s) (codePath rule) of
              Inl e \<Rightarrow> Some e
            | Inr conceptPath \<Rightarrow>
                ruleError env sd (conceptPath @ ''.'' @ caretPath rule) rule (fst s)) of
        None \<Rightarrow> []
      | Some e \<Rightarrow> [(ErrorLevel, message env e, Rule.sourceInfo rule)])"
  by (simp add: setCodeCaretRules_each_def validateAndSet_log Let_def split: sum.splits)

subsection \<open>What the loops do to the history and the package\<close>

lemma milestones_append [simp]: "milestones (xs @ ys) = milestones xs @ milestones ys"
  by (simp add: milestones_def)

lemma pathEvents_append [simp]: "pathEvents (xs @ ys) = pathEvents xs @ pathEvents ys"
  by (simp add: pathEvents_def)

lemma milestones_simps [simp]:
  "milestones [] = []"
  "milestones (Reached p # h) = Reached p # milestones h"
  "milestones (RuleApplication r # h) = RuleApplication r # milestones h"
  "milestones (PathResolution path # h) = milestones h"
  "milestones (SoftIndexResolution rs # h) = milestones h"
  by (simp_all add: milestones_def)

lemma pathEvents_simps [simp]:
  "pathEvents [] = []"
  "pathEvents (Reached p # h) = pathEvents h"
  "pathEvents (RuleApplication r # h) = pathEvents h"
  "pathEvents (PathResolution path # h) = PathResolution path # pathEvents h"
  "pathEvents (SoftIndexResolution rs # h) = SoftIndexResolution rs # pathEvents h"
  by (simp_all add: pathEvents_def)

lemma milestones_RuleApplications [simp]:
  "milestones (map RuleApplication rs) = map RuleApplication rs"
  by (induction rs) simp_all

lemma pathEvents_RuleApplications [simp]: "pathEvents (map RuleApplication rs) = []"
  by (induction rs) simp_all

lemma caret_loop_history:
  "history (snd (foldl (\<lambda>acc rule. setCaretRules_each env sd rule acc) s rs)) =
     history (snd s) @ concat (map (\<lambda>r. [RuleApplication r, PathResolution (caretPath r)]) rs)"
  by (induction rs arbitrary: s) (simp_all add: setCaretRules_each_history)

lemma caret_loop_codeSystems:
  "codeSystems (snd (foldl (\<lambda>acc rule. setCaretRules_each env sd rule acc) s rs)) =
     codeSystems (snd s)"
  by (induction rs arbitrary: s) (simp_all add: setCaretRules_each_codeSystems)

lemma milestones_caret_events:
  "milestones (concat (map (\<lambda>r. [RuleApplication r, PathResolution (caretPath r)]) rs)) =
     map RuleApplication rs"
  by (induction rs) simp_all

lemma pathEvents_caret_events:
  "pathEvents (concat (map (\<lambda>r. [RuleApplication r, PathResolution (caretPath r)]) rs)) =
     map PathResolution (map caretPath rs)"
  by (induction rs) simp_all

lemma setCaretRules_rules:
  "fst (setCaretRules env sd rules0 s) =
     assignCaretPaths rules0 (fst (resolveSoftIndexing env rules0))"
  by (simp add: setCaretRules_def Let_def)

lemma setCaretRules_history:
  "history (snd (snd (setCaretRules env sd rules0 s))) =
     history (snd s) @ SoftIndexResolution rules0 #
     concat (map (\<lambda>r. [RuleApplication r, PathResolution (caretPath r)])
               (assignCaretPaths rules0 (fst (resolveSoftIndexing env rules0))))"
  by (simp add: setCaretRules_def Let_def caret_loop_history)

lemma setCaretRules_codeSystems:
  "codeSystems (snd (snd (setCaretRules env sd rules0 s))) = codeSystems (snd s)"
  by (simp add: setCaretRules_def Let_def caret_loop_codeSystems)

lemma setCodeCaretRules_milestones:
  "milestones (history (snd (setCodeCaretRules env sd rs s))) =
     milestones (history (snd s)) @ map RuleApplication rs"
  unfolding setCodeCaretRules_def
  by (induction rs arbitrary: s)
     (simp_all add: setCodeCaretRules_each_history split: sum.splits)

lemma setCodeCaretRules_codeSystems:
  "codeSystems (snd (setCodeCaretRules env sd rs s)) = codeSystems (snd s)"
  unfolding setCodeCaretRules_def
  by (induction rs arbitrary: s) (simp_all add: setCodeCaretRules_each_codeSystems)

lemma setConcepts_history':
  "history (snd (setConcepts concepts s)) = history (snd s) @ map RuleApplication concepts"
  using setConcepts_history [of concepts "fst s" "snd s"] by simp

lemma setConcepts_codeSystems:
  "codeSystems (snd (setConcepts concepts s)) = codeSystems (snd s)"
  by (simp add: setConcepts_def Let_def setConcepts_forEach_codeSystems)

subsection \<open>The rules after soft index resolution\<close>

lemma assignCaretPaths_length [simp]: "length (assignCaretPaths rs ps) = length rs"
  by (induction rs ps rule: assignCaretPaths.induct) simp_all

lemma assignCaretPaths_caret:
  "list_all is_CaretValueRule rs \<Longrightarrow> list_all is_CaretValueRule (assignCaretPaths rs ps)"
  by (induction rs ps rule: assignCaretPaths.induct) (auto split: Rule.splits)

lemma writeBack_filter:
  "list_all is_CaretValueRule resolved \<Longrightarrow> (\<And>r. is_CaretValueRule r \<Longrightarrow> \<not> P r) \<Longrightarrow>
     filter P (writeBack rs resolved) = filter P rs"
proof (induction rs arbitrary: resolved)
  case Nil
  show ?case by simp
next
  case (Cons r rs)
  show ?case
  proof (cases "is_CaretValueRule r")
    case True
    then show ?thesis
      using Cons.IH [OF _ Cons.prems(2)] Cons.prems
      by (cases resolved) auto
  next
    case False
    then show ?thesis using Cons.IH [OF Cons.prems(1) Cons.prems(2)] by simp
  qed
qed

lemma resolvedCaretRules_caret: "list_all is_CaretValueRule (resolvedCaretRules env fshDefinition)"
  unfolding resolvedCaretRules_def caretRules_def
  by (rule assignCaretPaths_caret) (simp add: list_all_iff)

lemma resolvedCaretRules_length:
  "length (resolvedCaretRules env fshDefinition) = length (caretRules env fshDefinition)"
  by (simp add: resolvedCaretRules_def)

subsection \<open>The three rule phases\<close>

lemma not_concept_if_caret: "is_CaretValueRule r \<Longrightarrow> \<not> is_ConceptRule r"
  by (cases r) simp_all

lemma not_codeCaret_if_caret: "is_CaretValueRule r \<Longrightarrow> \<not> is_CodeCaretValueRule r"
  by (cases r) simp_all

lemma assignCaretPaths_filter_caret:
  "list_all is_CaretValueRule (assignCaretPaths (filter is_CaretValueRule rs) ps)"
  by (rule assignCaretPaths_caret) (simp add: list_all_iff)

lemma writeBack_concepts:
  "filter is_ConceptRule
     (writeBack rs (assignCaretPaths (filter is_CaretValueRule rs) ps)) =
   filter is_ConceptRule rs"
  by (rule writeBack_filter) (simp_all add: assignCaretPaths_filter_caret not_concept_if_caret)

lemma writeBack_codeCarets:
  "filter is_CodeCaretValueRule
     (writeBack rs (assignCaretPaths (filter is_CaretValueRule rs) ps)) =
   filter is_CodeCaretValueRule rs"
  by (rule writeBack_filter) (simp_all add: assignCaretPaths_filter_caret not_codeCaret_if_caret)

subsection \<open>The rule loops and the rules attempted one by one\<close>

lemma ruleError_attempt: "ruleError env sd path rule codeSystem = snd (attempt env sd path rule codeSystem)"
  by (simp add: ruleError_def attempt_def split: sum.splits)

lemma validateAndSet_attempt:
  "fst (validateAndSet env sd path rule s) = fst (attempt env sd path rule (fst s))"
  "log (snd (validateAndSet env sd path rule s)) =
     log (snd s) @
     (case snd (attempt env sd path rule (fst s)) of
        None \<Rightarrow> []
      | Some e \<Rightarrow> [(ErrorLevel, message env e, Rule.sourceInfo rule)])"
  by (simp_all add: validateAndSet_def attempt_def Let_def
        split: sum.splits prod.splits option.splits)

lemma setCaretRules_each_attempt:
  "fst (setCaretRules_each env sd rule s) = fst (caretRuleAttempt env sd rule (fst s))"
  "log (snd (setCaretRules_each env sd rule s)) =
     log (snd s) @
     (case snd (caretRuleAttempt env sd rule (fst s)) of
        None \<Rightarrow> []
      | Some e \<Rightarrow> [(ErrorLevel, message env e, Rule.sourceInfo rule)])"
  by (simp_all add: setCaretRules_each_def caretRuleAttempt_def validateAndSet_attempt)

lemma setCodeCaretRules_each_attempt:
  "fst (setCodeCaretRules_each env sd rule s) = fst (codeCaretRuleAttempt env sd rule (fst s))"
  "log (snd (setCodeCaretRules_each env sd rule s)) =
     log (snd s) @
     (case snd (codeCaretRuleAttempt env sd rule (fst s)) of
        None \<Rightarrow> []
      | Some e \<Rightarrow> [(ErrorLevel, message env e, Rule.sourceInfo rule)])"
  by (simp_all add: setCodeCaretRules_each_def codeCaretRuleAttempt_def validateAndSet_attempt
        Let_def split: sum.splits)

lemma caret_loop_ruleByRule:
  "fst (foldl (\<lambda>acc rule. setCaretRules_each env sd rule acc) s rs) =
     fst (ruleByRule (message env) (caretRuleAttempt env sd) rs (fst s))
   \<and> log (snd (foldl (\<lambda>acc rule. setCaretRules_each env sd rule acc) s rs)) =
       log (snd s) @ snd (ruleByRule (message env) (caretRuleAttempt env sd) rs (fst s))"
  by (induction rs arbitrary: s) (simp_all add: setCaretRules_each_attempt Let_def)

lemma codeCaret_loop_ruleByRule:
  "fst (foldl (\<lambda>acc rule. setCodeCaretRules_each env sd rule acc) s rs) =
     fst (ruleByRule (message env) (codeCaretRuleAttempt env sd) rs (fst s))
   \<and> log (snd (foldl (\<lambda>acc rule. setCodeCaretRules_each env sd rule acc) s rs)) =
       log (snd s) @ snd (ruleByRule (message env) (codeCaretRuleAttempt env sd) rs (fst s))"
  by (induction rs arbitrary: s) (simp_all add: setCodeCaretRules_each_attempt Let_def)

lemma setCaretRules_ruleByRule:
  "fst (snd (setCaretRules env sd rules0 s)) =
     fst (ruleByRule (message env) (caretRuleAttempt env sd)
            (assignCaretPaths rules0 (fst (resolveSoftIndexing env rules0))) (fst s))"
  "log (snd (snd (setCaretRules env sd rules0 s))) =
     log (snd s) @ snd (resolveSoftIndexing env rules0) @
     snd (ruleByRule (message env) (caretRuleAttempt env sd)
            (assignCaretPaths rules0 (fst (resolveSoftIndexing env rules0))) (fst s))"
  by (simp_all add: setCaretRules_def Let_def caret_loop_ruleByRule)

lemma setCodeCaretRules_ruleByRule:
  "fst (setCodeCaretRules env sd rules0 s) =
     fst (ruleByRule (message env) (codeCaretRuleAttempt env sd) rules0 (fst s))"
  "log (snd (setCodeCaretRules env sd rules0 s)) =
     log (snd s) @ snd (ruleByRule (message env) (codeCaretRuleAttempt env sd) rules0 (fst s))"
  by (simp_all add: setCodeCaretRules_def codeCaret_loop_ruleByRule)

subsection \<open>Rules that leave a field of the document alone\<close>

lemma validateAndSet_keeps:
  assumes "\<And>codeSystem resolved.
             validateValueAtPath env sd path (value' rule) = Inr resolved \<Longrightarrow>
             field (fst (setPropertyOnInstance env codeSystem resolved)) = field codeSystem"
  shows "field (fst (validateAndSet env sd path rule s)) = field (fst s)"
proof (cases "validateValueAtPath env sd path (value' rule)")
  case (Inl e)
  then show ?thesis by (simp add: validateAndSet_def)
next
  case (Inr resolved)
  from assms [OF Inr, of "fst s"] Inr show ?thesis
    by (auto simp: validateAndSet_def Let_def split: prod.splits option.splits)
qed

lemma caret_loop_keeps:
  assumes "\<forall>rule \<in> set rs. \<forall>codeSystem resolved.
             validateValueAtPath env sd (caretPath rule) (value' rule) = Inr resolved \<longrightarrow>
             field (fst (setPropertyOnInstance env codeSystem resolved)) = field codeSystem"
  shows "field (fst (foldl (\<lambda>acc rule. setCaretRules_each env sd rule acc) s rs)) = field (fst s)"
  using assms
proof (induction rs arbitrary: s)
  case Nil
  show ?case by simp
next
  case (Cons r rs)
  have "field (fst (validateAndSet env sd (caretPath r) r
                      (fst s, observe [RuleApplication r] (snd s)))) =
        field (fst (fst s, observe [RuleApplication r] (snd s)))"
    using Cons.prems by (intro validateAndSet_keeps) simp
  then have "field (fst (setCaretRules_each env sd r s)) = field (fst s)"
    by (simp add: setCaretRules_each_def)
  with Cons.IH [of "setCaretRules_each env sd r s"] Cons.prems show ?case by simp
qed

lemma codeCaret_loop_keeps:
  assumes "\<forall>rule \<in> set rs. \<forall>codeSystem conceptPath resolved.
             validateValueAtPath env sd (conceptPath @ ''.'' @ caretPath rule) (value' rule)
               = Inr resolved \<longrightarrow>
             field (fst (setPropertyOnInstance env codeSystem resolved)) = field codeSystem"
  shows "field (fst (foldl (\<lambda>acc rule. setCodeCaretRules_each env sd rule acc) s rs)) =
         field (fst s)"
  using assms
proof (induction rs arbitrary: s)
  case Nil
  show ?case by simp
next
  case (Cons r rs)
  have "field (fst (setCodeCaretRules_each env sd r s)) = field (fst s)"
  proof (cases "findConceptPath (fst s) (codePath r)")
    case (Inl e)
    then show ?thesis by (simp add: setCodeCaretRules_each_def)
  next
    case (Inr conceptPath)
    have "field (fst (validateAndSet env sd (conceptPath @ ''.'' @ caretPath r) r
                        (fst s, observe [RuleApplication r] (snd s)))) =
          field (fst (fst s, observe [RuleApplication r] (snd s)))"
      using Cons.prems by (intro validateAndSet_keeps) simp
    with Inr show ?thesis by (simp add: setCodeCaretRules_each_def)
  qed
  with Cons.IH [of "setCodeCaretRules_each env sd r s"] Cons.prems show ?case by simp
qed


subsection \<open>The phases of an export\<close>

lemma setMetadata_state:
  "snd (setMetadata env (newCodeSystem env) fshDefinition st) =
     st\<lparr>log := log st @ metadataLog env fshDefinition\<rparr>"
  by (simp add: setMetadata_def metadataLog_def Let_def)

lemma setMetadata_document:
  "fst (setMetadata env codeSystem fshDefinition st) =
     fst (setMetadata env codeSystem fshDefinition st')"
  by (simp add: setMetadata_def Let_def)

lemma atMetadataSet_state:
  "codeSystems (snd (atMetadataSet env fshDefinition st)) = codeSystems st"
  "log (snd (atMetadataSet env fshDefinition st)) = log st @ metadataLog env fshDefinition"
  "history (snd (atMetadataSet env fshDefinition st)) =
     history st @ [Reached Init, Reached MetadataSet]"
  by (simp_all add: atMetadataSet_def Let_def setMetadata_state)


lemma atMetadataSet_id:
  "CodeSystem.id' (fst (atMetadataSet env fshDefinition st)) =
     CodeSystem.id'
       (fst (setId env
               (fst (setName env (newCodeSystem env) (FshCodeSystem.name fshDefinition)
                       (FshCodeSystem.sourceInfo fshDefinition)))
               (FshCodeSystem.id' fshDefinition) (FshCodeSystem.sourceInfo fshDefinition)))"
  by (simp add: atMetadataSet_def setMetadata_def Let_def)

lemma setCaretRules_phase:
  "fst (setCaretRules env sd (caretRules env fshDefinition) (atMetadataSet env fshDefinition st)) =
     resolvedCaretRules env fshDefinition"
  "(fst (snd (setCaretRules env sd (caretRules env fshDefinition)
                (atMetadataSet env fshDefinition st))),
    observe [Reached CaretRulesApplied]
      (snd (snd (setCaretRules env sd (caretRules env fshDefinition)
                   (atMetadataSet env fshDefinition st))))) =
   atCaretRulesApplied env sd fshDefinition st"
  by (simp_all add: setCaretRules_def atCaretRulesApplied_def resolvedCaretRules_def Let_def)

lemma setConcepts_phase:
  "(fst (setConcepts (filter is_ConceptRule (expandedRules env fshDefinition))
           (atCaretRulesApplied env sd fshDefinition st)),
    observe [Reached ConceptsBuilt]
      (snd (setConcepts (filter is_ConceptRule (expandedRules env fshDefinition))
              (atCaretRulesApplied env sd fshDefinition st)))) =
   atConceptsBuilt env sd fshDefinition st"
  by (simp add: setConcepts_def setConcepts_forEach_def atConceptsBuilt_def Let_def)

lemma setCodeCaretRules_phase:
  "(fst (setCodeCaretRules env sd (filter is_CodeCaretValueRule (expandedRules env fshDefinition))
           (atConceptsBuilt env sd fshDefinition st)),
    observe [Reached ConceptCaretRulesApplied]
      (snd (setCodeCaretRules env sd
              (filter is_CodeCaretValueRule (expandedRules env fshDefinition))
              (atConceptsBuilt env sd fshDefinition st)))) =
   atConceptCaretRulesApplied env sd fshDefinition st"
  by (simp add: setCodeCaretRules_def atConceptCaretRulesApplied_def Let_def)

lemma resolvedEntity_simps:
  "FshCodeSystem.rules (resolvedEntity env fshDefinition) =
     writeBack (expandedRules env fshDefinition) (resolvedCaretRules env fshDefinition)"
  "FshCodeSystem.sourceInfo (resolvedEntity env fshDefinition) =
     FshCodeSystem.sourceInfo (applyInsertRules env fshDefinition)"
  by (simp_all add: resolvedEntity_def)

lemma resolvedEntity_classes:
  "filter is_ConceptRule (FshCodeSystem.rules (resolvedEntity env fshDefinition)) =
     filter is_ConceptRule (expandedRules env fshDefinition)"
  "filter is_CodeCaretValueRule (FshCodeSystem.rules (resolvedEntity env fshDefinition)) =
     filter is_CodeCaretValueRule (expandedRules env fshDefinition)"
  unfolding resolvedEntity_simps resolvedCaretRules_def caretRules_def
  by (rule writeBack_concepts, rule writeBack_codeCarets)

lemma applyRules_phases:
  "applyRules env sd (applyInsertRules env fshDefinition) (atMetadataSet env fshDefinition st) =
     (resolvedEntity env fshDefinition, atConceptCaretRulesApplied env sd fshDefinition st)"
proof -
  have rules: "FshCodeSystem.rules (applyInsertRules env fshDefinition) =
      expandedRules env fshDefinition"
    by (simp add: expandedRules_def)
  have carets: "filter is_CaretValueRule (expandedRules env fshDefinition) =
      caretRules env fshDefinition"
    by (simp add: caretRules_def)
  have entity: "(applyInsertRules env fshDefinition)\<lparr>FshCodeSystem.rules :=
        writeBack (expandedRules env fshDefinition) (resolvedCaretRules env fshDefinition)\<rparr> =
      resolvedEntity env fshDefinition"
    by (simp add: resolvedEntity_def)
  show ?thesis
    unfolding applyRules_def Let_def rules carets setCaretRules_phase entity
      resolvedEntity_classes setConcepts_phase setCodeCaretRules_phase
    by (simp only: fst_conv snd_conv prod.collapse)
qed

lemma exportCodeSystem_skips:
  "nameExported fshDefinition st \<Longrightarrow> exportCodeSystem env fshDefinition st = (Inr None, st)"
  by (simp add: exportCodeSystem_def nameExported_def)

lemma metadata_pair:
  "(fst (setMetadata env (newCodeSystem env) fshDefinition st),
    observe [Reached Init, Reached MetadataSet]
      (snd (setMetadata env (newCodeSystem env) fshDefinition st))) =
   atMetadataSet env fshDefinition st"
  by (simp add: atMetadataSet_def Let_def)

lemma exportCodeSystem_throws:
  "\<not> nameExported fshDefinition st \<Longrightarrow> fetchSchema env = Inl e \<Longrightarrow>
     exportCodeSystem env fshDefinition st = (Inl e, snd (atMetadataSet env fshDefinition st))"
  by (simp add: exportCodeSystem_def nameExported_def atMetadataSet_def Let_def)

lemma exportCodeSystem_exports:
  "\<not> nameExported fshDefinition st \<Longrightarrow> fetchSchema env = Inr sd \<Longrightarrow>
     exportCodeSystem env fshDefinition st =
       (Inr (Some (fst (atExported env sd fshDefinition st))),
        snd (atExported env sd fshDefinition st))"
  by (simp add: exportCodeSystem_def nameExported_def Let_def metadata_pair applyRules_phases
        atExported_def atCountReconciled_def)


subsection \<open>Package, history and log at the phases\<close>

lemma atCaretRulesApplied_state:
  "codeSystems (snd (atCaretRulesApplied env sd fshDefinition st)) = codeSystems st"
  "milestones (history (snd (atCaretRulesApplied env sd fshDefinition st))) =
     milestones (history st) @ [Reached Init, Reached MetadataSet] @
     map RuleApplication (resolvedCaretRules env fshDefinition) @ [Reached CaretRulesApplied]"
  "fst (atCaretRulesApplied env sd fshDefinition st) =
     fst (ruleByRule (message env) (caretRuleAttempt env sd)
            (resolvedCaretRules env fshDefinition) (fst (atMetadataSet env fshDefinition st)))"
  "log (snd (atCaretRulesApplied env sd fshDefinition st)) =
     log st @ metadataLog env fshDefinition @
     snd (resolveSoftIndexing env (caretRules env fshDefinition)) @
     snd (ruleByRule (message env) (caretRuleAttempt env sd)
            (resolvedCaretRules env fshDefinition) (fst (atMetadataSet env fshDefinition st)))"
  by (simp_all add: atCaretRulesApplied_def Let_def caret_loop_codeSystems caret_loop_history
        caret_loop_ruleByRule atMetadataSet_state milestones_caret_events)

text \<open>What the concept rules log does not depend on the state the loop is started in.\<close>

lemma setConcepts_forEach_log:
  "log (snd (setConcepts_forEach rs ([], st))) = log st @ conceptErrors rs"
proof (induction rs rule: rev_induct)
  case Nil
  show ?case by (simp add: conceptErrors_def)
next
  case (snoc x xs)
  have forest: "fst (setConcepts_forEach xs ([], st)) =
      fst (setConcepts_forEach xs ([], \<lparr>codeSystems = [], log = [], history = []\<rparr>))"
    by (rule setConcepts_forEach_forest)
  show ?case
    using snoc
    by (simp add: conceptErrors_def setConcepts_forEach_snoc setConcepts_each_log forest)
qed

lemma conceptErrors_Nil: "conceptErrors [] = []"
  by (simp add: conceptErrors_def)

lemma atConceptsBuilt_state:
  "codeSystems (snd (atConceptsBuilt env sd fshDefinition st)) = codeSystems st"
  "milestones (history (snd (atConceptsBuilt env sd fshDefinition st))) =
     milestones (history (snd (atCaretRulesApplied env sd fshDefinition st))) @
     map RuleApplication (filter is_ConceptRule (expandedRules env fshDefinition)) @
     [Reached ConceptsBuilt]"
  "log (snd (atConceptsBuilt env sd fshDefinition st)) =
     log (snd (atCaretRulesApplied env sd fshDefinition st)) @
     conceptErrors (filter is_ConceptRule (expandedRules env fshDefinition))"
  unfolding atConceptsBuilt_def Let_def setConcepts_forEach_def [symmetric]
  by (simp_all add: setConcepts_forEach_codeSystems setConcepts_forEach_history
        setConcepts_forEach_log atCaretRulesApplied_state(1) conceptErrors_Nil)

lemma atConceptCaretRulesApplied_state:
  "codeSystems (snd (atConceptCaretRulesApplied env sd fshDefinition st)) = codeSystems st"
  "milestones (history (snd (atConceptCaretRulesApplied env sd fshDefinition st))) =
     milestones (history (snd (atConceptsBuilt env sd fshDefinition st))) @
     map RuleApplication (filter is_CodeCaretValueRule (expandedRules env fshDefinition)) @
     [Reached ConceptCaretRulesApplied]"
  "fst (atConceptCaretRulesApplied env sd fshDefinition st) =
     fst (ruleByRule (message env) (codeCaretRuleAttempt env sd)
            (filter is_CodeCaretValueRule (expandedRules env fshDefinition))
            (fst (atConceptsBuilt env sd fshDefinition st)))"
  "log (snd (atConceptCaretRulesApplied env sd fshDefinition st)) =
     log (snd (atConceptsBuilt env sd fshDefinition st)) @
     snd (ruleByRule (message env) (codeCaretRuleAttempt env sd)
            (filter is_CodeCaretValueRule (expandedRules env fshDefinition))
            (fst (atConceptsBuilt env sd fshDefinition st)))"
  unfolding atConceptCaretRulesApplied_def Let_def setCodeCaretRules_def [symmetric]
  by (simp_all add: setCodeCaretRules_codeSystems setCodeCaretRules_milestones
        setCodeCaretRules_ruleByRule atConceptsBuilt_state(1))

lemma updateCount_state:
  "history (snd (updateCount codeSystem fshDefinition st)) = history st"
  "codeSystems (snd (updateCount codeSystem fshDefinition st)) = codeSystems st"
  "CodeSystem.id' (fst (updateCount codeSystem fshDefinition st)) = CodeSystem.id' codeSystem"
  "CodeSystem.name (fst (updateCount codeSystem fshDefinition st)) = CodeSystem.name codeSystem"
  by (simp_all add: updateCount_def Let_def)

lemma updateCount_log:
  "\<exists>countLog. log (snd (updateCount codeSystem fshDefinition st)) = log st @ countLog
     \<and> length countLog \<le> 1 \<and> list_all (\<lambda>d. fst d = WarnLevel) countLog"
proof (cases "log (snd (updateCount codeSystem fshDefinition st)) = log st")
  case True
  then have "log (snd (updateCount codeSystem fshDefinition st)) = log st @ []
     \<and> length ([] :: diagnostic list) \<le> 1 \<and> list_all (\<lambda>d. fst d = WarnLevel) []"
    by simp
  then show ?thesis by (rule exI)
next
  case False
  then obtain m src where
    "log (snd (updateCount codeSystem fshDefinition st)) = log st @ [(WarnLevel, m, src)]"
    by (auto simp: updateCount_def Let_def split: if_splits)
  then have "log (snd (updateCount codeSystem fshDefinition st)) = log st @ [(WarnLevel, m, src)]
     \<and> length [(WarnLevel, m, src)] \<le> 1 \<and> list_all (\<lambda>d. fst d = WarnLevel) [(WarnLevel, m, src)]"
    by simp
  then show ?thesis by (rule exI)
qed

lemma checkDuplicateId_state:
  "history (checkDuplicateId codeSystem fshDefinition st) = history st"
  "codeSystems (checkDuplicateId codeSystem fshDefinition st) = codeSystems st"
  by (simp_all add: checkDuplicateId_def)

lemma atCountReconciled_state:
  "codeSystems (snd (atCountReconciled env sd fshDefinition st)) = codeSystems st"
  "history (snd (atCountReconciled env sd fshDefinition st)) =
     history (snd (atConceptCaretRulesApplied env sd fshDefinition st)) @ [Reached CountReconciled]"
  "CodeSystem.id' (fst (atCountReconciled env sd fshDefinition st)) =
     CodeSystem.id' (fst (atConceptCaretRulesApplied env sd fshDefinition st))"
  "CodeSystem.name (fst (atCountReconciled env sd fshDefinition st)) =
     CodeSystem.name (fst (atConceptCaretRulesApplied env sd fshDefinition st))"
  by (simp_all add: atCountReconciled_def Let_def updateCount_state checkDuplicateId_state
        atConceptCaretRulesApplied_state(1))

lemma atCountReconciled_log:
  "\<exists>countLog.
     log (snd (atCountReconciled env sd fshDefinition st)) =
       log (snd (atConceptCaretRulesApplied env sd fshDefinition st)) @
       (if list_ex (\<lambda>cs. CodeSystem.id' (fst (atConceptCaretRulesApplied env sd fshDefinition st))
                           = CodeSystem.id' cs) (codeSystems st)
        then [(ErrorLevel,
               ''Multiple code systems with id '' @
               (case CodeSystem.id' (fst (atConceptCaretRulesApplied env sd fshDefinition st)) of
                  None \<Rightarrow> ''undefined'' | Some t \<Rightarrow> t) @
               ''. Each code system must have a unique id.'',
               FshCodeSystem.sourceInfo (applyInsertRules env fshDefinition))]
        else []) @ countLog
     \<and> length countLog \<le> 1 \<and> list_all (\<lambda>d. fst d = WarnLevel) countLog"
proof -
  let ?c = "atConceptCaretRulesApplied env sd fshDefinition st"
  let ?checked = "checkDuplicateId (fst ?c) (resolvedEntity env fshDefinition) (snd ?c)"
  from updateCount_log [of "fst ?c" "resolvedEntity env fshDefinition" ?checked]
  obtain countLog where
    c: "log (snd (updateCount (fst ?c) (resolvedEntity env fshDefinition) ?checked)) =
          log ?checked @ countLog"
       "length countLog \<le> 1" "list_all (\<lambda>d. fst d = WarnLevel) countLog"
    by blast
  have "log ?checked = log (snd ?c) @
       (if list_ex (\<lambda>cs. CodeSystem.id' (fst ?c) = CodeSystem.id' cs) (codeSystems st)
        then [(ErrorLevel,
               ''Multiple code systems with id '' @
               (case CodeSystem.id' (fst ?c) of None \<Rightarrow> ''undefined'' | Some t \<Rightarrow> t) @
               ''. Each code system must have a unique id.'',
               FshCodeSystem.sourceInfo (applyInsertRules env fshDefinition))]
        else [])"
    by (simp add: checkDuplicateId_def duplicateIdMessage_def resolvedEntity_simps
          atConceptCaretRulesApplied_state(1))
  with c have "log (snd (atCountReconciled env sd fshDefinition st)) =
       log (snd ?c) @
       (if list_ex (\<lambda>cs. CodeSystem.id' (fst ?c) = CodeSystem.id' cs) (codeSystems st)
        then [(ErrorLevel,
               ''Multiple code systems with id '' @
               (case CodeSystem.id' (fst ?c) of None \<Rightarrow> ''undefined'' | Some t \<Rightarrow> t) @
               ''. Each code system must have a unique id.'',
               FshCodeSystem.sourceInfo (applyInsertRules env fshDefinition))]
        else []) @ countLog
     \<and> length countLog \<le> 1 \<and> list_all (\<lambda>d. fst d = WarnLevel) countLog"
    by (simp add: atCountReconciled_def Let_def)
  then show ?thesis by (rule exI)
qed

lemma atExported_state:
  "fst (atExported env sd fshDefinition st) = fst (atCountReconciled env sd fshDefinition st)"
  "codeSystems (snd (atExported env sd fshDefinition st)) =
     codeSystems st @ [fst (atExported env sd fshDefinition st)]"
  "log (snd (atExported env sd fshDefinition st)) =
     log (snd (atCountReconciled env sd fshDefinition st))"
  "history (snd (atExported env sd fshDefinition st)) =
     history (snd (atCountReconciled env sd fshDefinition st)) @ [Reached Exported]"
  by (simp_all add: atExported_def Let_def atCountReconciled_state(1))

text \<open>An export that returns a document has passed the guard and found the schema.\<close>

lemma exportCodeSystem_document:
  assumes "exportCodeSystem env fshDefinition st = (Inr (Some document), st')"
  shows "\<not> nameExported fshDefinition st" and "\<exists>sd. fetchSchema env = Inr sd"
proof -
  show g: "\<not> nameExported fshDefinition st"
    using assms exportCodeSystem_skips [of fshDefinition st env] by auto
  show "\<exists>sd. fetchSchema env = Inr sd"
    using assms exportCodeSystem_throws [OF g, of env] by (cases "fetchSchema env") auto
qed

lemma exportCodeSystem_returned:
  assumes "exportCodeSystem env fshDefinition st = (Inr (Some document), st')"
    and "fetchSchema env = Inr sd"
  shows "document = fst (atExported env sd fshDefinition st)"
    and "st' = snd (atExported env sd fshDefinition st)"
proof -
  have g: "\<not> nameExported fshDefinition st"
    using assms(1) by (rule exportCodeSystem_document)
  from assms(1) show "document = fst (atExported env sd fshDefinition st)"
    "st' = snd (atExported env sd fshDefinition st)"
    unfolding exportCodeSystem_exports [OF g assms(2)] by simp_all
qed

lemma exportCodeSystem_appends:
  assumes "exportCodeSystem env fshDefinition st = (Inr (Some document), st')"
  shows "codeSystems st' = codeSystems st @ [document]"
proof -
  from exportCodeSystem_document [OF assms] obtain sd where sd: "fetchSchema env = Inr sd"
    by blast
  show ?thesis
    unfolding exportCodeSystem_returned [OF assms sd] by (rule atExported_state)
qed

subsection \<open>Fields of the document that the rules leave alone\<close>

lemma phases_keep:
  assumes "rulesKeep field env sd fshDefinition"
    and "\<And>codeSystem k. field (codeSystem\<lparr>CodeSystem.concept := k\<rparr>) = field codeSystem"
  shows "field (fst (atConceptCaretRulesApplied env sd fshDefinition st)) =
         field (fst (atMetadataSet env fshDefinition st))"
proof -
  have carets: "\<forall>rule \<in> set (resolvedCaretRules env fshDefinition). \<forall>codeSystem resolved.
        validateValueAtPath env sd (caretPath rule) (value' rule) = Inr resolved \<longrightarrow>
        field (fst (setPropertyOnInstance env codeSystem resolved)) = field codeSystem"
    using assms(1) unfolding rulesKeep_def by (rule conjunct1)
  have codeCarets:
    "\<forall>rule \<in> set (filter is_CodeCaretValueRule (expandedRules env fshDefinition)).
       \<forall>codeSystem conceptPath resolved.
         validateValueAtPath env sd (conceptPath @ ''.'' @ caretPath rule) (value' rule)
           = Inr resolved \<longrightarrow>
         field (fst (setPropertyOnInstance env codeSystem resolved)) = field codeSystem"
    using assms(1) unfolding rulesKeep_def by (rule conjunct2)
  have "field (fst (atCaretRulesApplied env sd fshDefinition st)) =
        field (fst (atMetadataSet env fshDefinition st))"
    using caret_loop_keeps [where field = field, OF carets]
    by (simp add: atCaretRulesApplied_def Let_def)
  moreover have "field (fst (atConceptsBuilt env sd fshDefinition st)) =
        field (fst (atCaretRulesApplied env sd fshDefinition st))"
    by (simp add: atConceptsBuilt_def Let_def assms(2))
  moreover have "field (fst (atConceptCaretRulesApplied env sd fshDefinition st)) =
        field (fst (atConceptsBuilt env sd fshDefinition st))"
    using codeCaret_loop_keeps [where field = field, OF codeCarets]
    by (simp add: atConceptCaretRulesApplied_def Let_def)
  ultimately show ?thesis by simp
qed


lemma exported_id:
  assumes "rulesKeep CodeSystem.id' env sd fshDefinition"
  shows "CodeSystem.id' (fst (atExported env sd fshDefinition st)) =
         CodeSystem.id'
           (fst (setId env
                   (fst (setName env (newCodeSystem env) (FshCodeSystem.name fshDefinition)
                           (FshCodeSystem.sourceInfo fshDefinition)))
                   (FshCodeSystem.id' fshDefinition) (FshCodeSystem.sourceInfo fshDefinition)))"
  using phases_keep [OF assms, of st] atMetadataSet_id [of env fshDefinition st]
  by (simp add: atExported_state atCountReconciled_state)


subsection \<open>The stand-ins and the example entities\<close>

lemma demoEnv_simps:
  "validateValueAtPath demoEnv = demoValidate"
  "setPropertyOnInstance demoEnv = demoSet"
  "setName demoEnv = demoSetName"
  "setId demoEnv = demoSetId"
  "fetchSchema demoEnv = Inr ()"
  "applyInsertRules demoEnv fshDefinition = fshDefinition"
  by (simp_all add: demoEnv_def)

lemma demoEnv_schema: "fetchSchema demoEnv = Inr ()"
  by (simp add: demoEnv_def)


lemma demoEnv_identifies: "identifiesDocuments demoEnv"
  by (simp add: identifiesDocuments_def demoEnv_simps demoSetId_def)

lemma demoValidate_Inr: "demoValidate sd path v = Inr resolved \<Longrightarrow> resolved = (path, v)"
  by (auto simp: demoValidate_def split: if_splits option.splits FshValue.splits)

lemma demoSet_keeps:
  "path \<noteq> ''name'' \<Longrightarrow>
     CodeSystem.name (fst (demoSet codeSystem (path, v))) = CodeSystem.name codeSystem"
  "path \<noteq> ''id'' \<Longrightarrow>
     CodeSystem.id' (fst (demoSet codeSystem (path, v))) = CodeSystem.id' codeSystem"
  by (simp_all add: demoSet_def Let_def)

lemma concept_path_longer:
  "4 \<le> length p \<Longrightarrow> conceptPath @ CHR ''.'' # p \<noteq> ''name''"
  "4 \<le> length p \<Longrightarrow> conceptPath @ CHR ''.'' # p \<noteq> ''id''"
  by (auto dest: arg_cong [where f = length])

text \<open>
  With the stand-ins, rules keep the name and the id of the document when no caret value
  rule has the path \<open>name\<close> or \<open>id\<close>.
\<close>

lemma demoEnv_rulesKeep:
  assumes "\<forall>rule \<in> set (resolvedCaretRules demoEnv fshDefinition).
             caretPath rule \<noteq> ''name'' \<and> caretPath rule \<noteq> ''id''"
    and "\<forall>rule \<in> set (filter is_CodeCaretValueRule (expandedRules demoEnv fshDefinition)).
           4 \<le> length (caretPath rule)"
  shows "rulesKeep CodeSystem.name demoEnv () fshDefinition"
    and "rulesKeep CodeSystem.id' demoEnv () fshDefinition"
proof -
  have caret: "CodeSystem.name (fst (demoSet codeSystem resolved)) = CodeSystem.name codeSystem
      \<and> CodeSystem.id' (fst (demoSet codeSystem resolved)) = CodeSystem.id' codeSystem"
    if "rule \<in> set (resolvedCaretRules demoEnv fshDefinition)"
      and "demoValidate () (caretPath rule) (value' rule) = Inr resolved"
    for rule codeSystem resolved
    using assms(1) that(1) demoValidate_Inr [OF that(2)] by (simp add: demoSet_keeps)
  have codeCaret: "CodeSystem.name (fst (demoSet codeSystem resolved)) = CodeSystem.name codeSystem
      \<and> CodeSystem.id' (fst (demoSet codeSystem resolved)) = CodeSystem.id' codeSystem"
    if "rule \<in> set (filter is_CodeCaretValueRule (expandedRules demoEnv fshDefinition))"
      and "demoValidate () (conceptPath @ ''.'' @ caretPath rule) (value' rule) = Inr resolved"
    for rule codeSystem conceptPath resolved
  proof -
    have "4 \<le> length (caretPath rule)" using assms(2) that(1) by blast
    then show ?thesis
      using demoValidate_Inr [OF that(2)] by (simp add: demoSet_keeps concept_path_longer)
  qed
  show "rulesKeep CodeSystem.name demoEnv () fshDefinition"
    unfolding rulesKeep_def demoEnv_simps using caret codeCaret by blast
  show "rulesKeep CodeSystem.id' demoEnv () fshDefinition"
    unfolding rulesKeep_def demoEnv_simps using caret codeCaret by blast
qed

lemma shuffledZoo_rules:
  "expandedRules demoEnv shuffledZoo =
     [polarDesignationRule, grizzlyCaretRule, bearRule, lionRule, polarRule, catRule,
      contentRule, badCountRule, contactRule]"
  "caretRules demoEnv shuffledZoo = [contentRule, badCountRule, contactRule]"
  "resolvedCaretRules demoEnv shuffledZoo =
     [contentRule, badCountRule,
      CaretValueRule ''contact[0].name'' (FshString ''Keeper'') (Some (SourceInfo ''zoo.fsh'' 9))]"
  by code_simp+

lemma shuffledZoo_keeps:
  "rulesKeep CodeSystem.name demoEnv () shuffledZoo"
  "rulesKeep CodeSystem.id' demoEnv () shuffledZoo"
  by (rule demoEnv_rulesKeep;
      simp add: shuffledZoo_rules contentRule_def badCountRule_def contactRule_def
        polarDesignationRule_def grizzlyCaretRule_def example_rules_defs)+

lemma no_rules_keep:
  assumes "expandedRules env fshDefinition = []"
  shows "rulesKeep field env sd fshDefinition"
  by (simp add: rulesKeep_def resolvedCaretRules_def caretRules_def assms)

lemma export_shuffledZoo_document:
  "fst (exportCodeSystem demoEnv shuffledZoo emptyState) = Inr (Some shuffledZooDocument)"
  by code_simp

lemma export_shuffledZoo:
  "exportCodeSystem demoEnv shuffledZoo emptyState =
     (Inr (Some shuffledZooDocument), snd (exportCodeSystem demoEnv shuffledZoo emptyState))"
  using export_shuffledZoo_document by (simp add: prod_eq_iff)

subsection \<open>Entities with the same name\<close>





subsection \<open>What one export logs\<close>

lemma atConceptCaretRulesApplied_log:
  "log (snd (atConceptCaretRulesApplied env sd fshDefinition st)) =
     log st @ rulePhasesLog env sd fshDefinition st"
  by (simp add: rulePhasesLog_def atConceptCaretRulesApplied_state(4) atConceptsBuilt_state(3)
        atCaretRulesApplied_state(4))

lemma exportCodeSystem_log:
  assumes "\<not> nameExported fshDefinition st" and "fetchSchema env = Inr sd"
  shows "\<exists>countLog.
           log (snd (exportCodeSystem env fshDefinition st)) =
             log st @ rulePhasesLog env sd fshDefinition st @
             (if list_ex (\<lambda>cs. CodeSystem.id' (fst (atExported env sd fshDefinition st))
                                 = CodeSystem.id' cs) (codeSystems st)
              then [(ErrorLevel,
                     ''Multiple code systems with id '' @
                     (case CodeSystem.id' (fst (atExported env sd fshDefinition st)) of
                        None \<Rightarrow> ''undefined'' | Some t \<Rightarrow> t) @
                     ''. Each code system must have a unique id.'',
                     FshCodeSystem.sourceInfo (applyInsertRules env fshDefinition))]
              else []) @ countLog
           \<and> length countLog \<le> 1 \<and> list_all (\<lambda>d. fst d = WarnLevel) countLog"
proof -
  have i: "CodeSystem.id' (fst (atConceptCaretRulesApplied env sd fshDefinition st)) =
      CodeSystem.id' (fst (atExported env sd fshDefinition st))"
    by (simp add: atExported_state atCountReconciled_state)
  from atCountReconciled_log [of env sd fshDefinition st]
  show ?thesis
    unfolding exportCodeSystem_exports [OF assms] snd_conv atExported_state(3) i
      atConceptCaretRulesApplied_log append_assoc .
qed

subsection \<open>Entities with the same id\<close>

text \<open>
  C5, for entities whose rules leave the id of the document alone. Take two entities with
  the same id that are both exported in one run, the first before the second, with any
  exports in between: both exports return documents. When the id \<open>setId\<close> gives a
  document depends on the id it is handed only, and no caret value rule or code caret rule
  of the two entities assigns the id of the document, the two documents have the same id,
  both are in the package, in this order, and what the export of the second logs after
  its metadata and its rules is exactly one error, the text
  \<open>Multiple code systems with id ... Each code system must have a unique id.\<close> with
  that id, at the position of the entity, followed by at most one warning of count
  reconciliation. The export of the first logs no such error when no document of the
  package had its id.
\<close>

theorem exportCodeSystem_same_id:
  assumes "FshCodeSystem.id' second = FshCodeSystem.id' first"
    and "exportCodeSystem env first st = (Inr (Some d1), st1)"
    and "codeSystems st1' = codeSystems st1 @ between"
    and "exportCodeSystem env second st1' = (Inr (Some d2), st2)"
    and "fetchSchema env = Inr sd"
    and "identifiesDocuments env"
    and "rulesKeep CodeSystem.id' env sd first"
    and "rulesKeep CodeSystem.id' env sd second"
  shows "CodeSystem.id' d2 = CodeSystem.id' d1
       \<and> codeSystems st2 = codeSystems st @ [d1] @ between @ [d2]
       \<and> (\<exists>countLog.
             log st2 =
               log st1' @ rulePhasesLog env sd second st1' @
               [(ErrorLevel,
                 ''Multiple code systems with id '' @
                 (case CodeSystem.id' d2 of None \<Rightarrow> ''undefined'' | Some t \<Rightarrow> t) @
                 ''. Each code system must have a unique id.'',
                 FshCodeSystem.sourceInfo (applyInsertRules env second))] @ countLog
             \<and> length countLog \<le> 1 \<and> list_all (\<lambda>d. fst d = WarnLevel) countLog)
       \<and> (\<not> list_ex (\<lambda>cs. CodeSystem.id' d1 = CodeSystem.id' cs) (codeSystems st) \<longrightarrow>
            (\<exists>countLog.
               log st1 = log st @ rulePhasesLog env sd first st @ countLog
               \<and> length countLog \<le> 1 \<and> list_all (\<lambda>d. fst d = WarnLevel) countLog))"
proof (intro conjI impI)
  note r1 = exportCodeSystem_returned [OF assms(2,5)]
  note r2 = exportCodeSystem_returned [OF assms(4,5)]
  have g1: "\<not> nameExported first st"
    using assms(2) by (rule exportCodeSystem_document)
  have g2: "\<not> nameExported second st1'"
    using assms(4) by (rule exportCodeSystem_document)
  have "CodeSystem.id' d2 =
      CodeSystem.id'
        (fst (setId env
                (fst (setName env (newCodeSystem env) (FshCodeSystem.name second)
                        (FshCodeSystem.sourceInfo second)))
                (FshCodeSystem.id' second) (FshCodeSystem.sourceInfo second)))"
    unfolding r2(1) using assms(8) by (rule exported_id)
  also have "\<dots> =
      CodeSystem.id'
        (fst (setId env
                (fst (setName env (newCodeSystem env) (FshCodeSystem.name first)
                        (FshCodeSystem.sourceInfo first)))
                (FshCodeSystem.id' first) (FshCodeSystem.sourceInfo first)))"
    unfolding assms(1) using assms(6) unfolding identifiesDocuments_def by blast
  also have "\<dots> = CodeSystem.id' d1"
    unfolding r1(1) using assms(7) by (rule exported_id [symmetric])
  finally show same: "CodeSystem.id' d2 = CodeSystem.id' d1" .
  have p1: "codeSystems st1 = codeSystems st @ [d1]"
    using assms(2) by (rule exportCodeSystem_appends)
  have p2: "codeSystems st2 = codeSystems st1' @ [d2]"
    using assms(4) by (rule exportCodeSystem_appends)
  from p1 p2 assms(3) show "codeSystems st2 = codeSystems st @ [d1] @ between @ [d2]"
    by simp
  have dup: "list_ex (\<lambda>cs. CodeSystem.id' (fst (atExported env sd second st1'))
                              = CodeSystem.id' cs) (codeSystems st1')"
    using p1 assms(3) same r2(1) by (auto simp: list_ex_iff)
  from exportCodeSystem_log [OF g2 assms(5)] dup
  show "\<exists>countLog.
             log st2 =
               log st1' @ rulePhasesLog env sd second st1' @
               [(ErrorLevel,
                 ''Multiple code systems with id '' @
                 (case CodeSystem.id' d2 of None \<Rightarrow> ''undefined'' | Some t \<Rightarrow> t) @
                 ''. Each code system must have a unique id.'',
                 FshCodeSystem.sourceInfo (applyInsertRules env second))] @ countLog
             \<and> length countLog \<le> 1 \<and> list_all (\<lambda>d. fst d = WarnLevel) countLog"
    unfolding assms(4) snd_conv r2(1) by simp
  assume "\<not> list_ex (\<lambda>cs. CodeSystem.id' d1 = CodeSystem.id' cs) (codeSystems st)"
  with exportCodeSystem_log [OF g1 assms(5)]
  show "\<exists>countLog.
               log st1 = log st @ rulePhasesLog env sd first st @ countLog
               \<and> length countLog \<le> 1 \<and> list_all (\<lambda>d. fst d = WarnLevel) countLog"
    unfolding assms(2) snd_conv r1(1) by simp
qed

lemma export_returns:
  "\<not> nameExported fshDefinition st \<Longrightarrow> fetchSchema env = Inr sd \<Longrightarrow>
     exportCodeSystem env fshDefinition st =
       (Inr (Some (fst (atExported env sd fshDefinition st))),
        snd (exportCodeSystem env fshDefinition st))"
  by (simp add: exportCodeSystem_exports)

text \<open>
  C5 on the entities \<open>Zoo\<close> and \<open>Park\<close>, both with the id \<open>zoo\<close>, with the
  export of \<open>Aviary\<close> in between: the three documents are in the package, and the export
  of \<open>Park\<close> logs the duplicate id error and nothing else.
\<close>

theorem exportCodeSystem_same_id_witness:
  "FshCodeSystem.id' park = FshCodeSystem.id' shuffledZoo
   \<and> fst (exportCodeSystem demoEnv shuffledZoo emptyState) = Inr (Some shuffledZooDocument)
   \<and> fst (exportCodeSystem demoEnv park
            (snd (exportCodeSystem demoEnv aviary
                    (snd (exportCodeSystem demoEnv shuffledZoo emptyState))))) =
       Inr (Some parkDocument)
   \<and> identifiesDocuments demoEnv
   \<and> rulesKeep CodeSystem.id' demoEnv () shuffledZoo
   \<and> rulesKeep CodeSystem.id' demoEnv () park
   \<and> CodeSystem.id' parkDocument = CodeSystem.id' shuffledZooDocument
   \<and> map CodeSystem.name
       (codeSystems (snd (exportCodeSystem demoEnv park
          (snd (exportCodeSystem demoEnv aviary
                  (snd (exportCodeSystem demoEnv shuffledZoo emptyState))))))) =
       [Some ''Zoo'', Some ''Aviary'', Some ''Park'']
   \<and> log (snd (exportCodeSystem demoEnv park
          (snd (exportCodeSystem demoEnv aviary
                  (snd (exportCodeSystem demoEnv shuffledZoo emptyState)))))) =
       log (snd (exportCodeSystem demoEnv aviary
                  (snd (exportCodeSystem demoEnv shuffledZoo emptyState)))) @
       [(ErrorLevel,
         ''Multiple code systems with id zoo. Each code system must have a unique id.'',
         Some (SourceInfo ''park.fsh'' 1))]"
proof -
  let ?s1 = "snd (exportCodeSystem demoEnv shuffledZoo emptyState)"
  let ?s1' = "snd (exportCodeSystem demoEnv aviary ?s1)"
  let ?s2 = "snd (exportCodeSystem demoEnv park ?s1')"
  have h1: "FshCodeSystem.id' park = FshCodeSystem.id' shuffledZoo"
    by (simp add: park_def shuffledZoo_def plainZoo_def)
  have h3: "codeSystems ?s1' = codeSystems ?s1 @ [fst (atExported demoEnv () aviary ?s1)]"
  proof -
    have "\<not> nameExported aviary ?s1" by code_simp
    from exportCodeSystem_appends [OF export_returns [OF this demoEnv_schema]]
    show ?thesis .
  qed
  have d2: "fst (exportCodeSystem demoEnv park ?s1') = Inr (Some parkDocument)"
    by code_simp
  then have h4: "exportCodeSystem demoEnv park ?s1' = (Inr (Some parkDocument), ?s2)"
    by (simp add: prod_eq_iff)
  have h8: "rulesKeep CodeSystem.id' demoEnv () park"
    by (rule no_rules_keep) (simp add: expandedRules_def demoEnv_simps park_def)
  have names: "map CodeSystem.name (codeSystems ?s2) = [Some ''Zoo'', Some ''Aviary'', Some ''Park'']"
    by code_simp
  have quiet: "rulePhasesLog demoEnv () park ?s1' = []"
    by code_simp
  have count: "log ?s2 = log ?s1' @ [d] @ countLog \<Longrightarrow> length (log ?s2) = Suc (length (log ?s1'))
      \<Longrightarrow> countLog = []" for d countLog
    by (cases countLog) simp_all
  have len: "length (log ?s2) = Suc (length (log ?s1'))"
    by code_simp
  have texts: "CodeSystem.id' parkDocument = Some ''zoo''"
    "FshCodeSystem.sourceInfo (applyInsertRules demoEnv park) = Some (SourceInfo ''park.fsh'' 1)"
    by (simp_all add: parkDocument_def zooDocument_def demoEnv_simps park_def)
  from exportCodeSystem_same_id
         [OF h1 export_shuffledZoo h3 h4 demoEnv_schema demoEnv_identifies shuffledZoo_keeps(2) h8]
  obtain countLog where
    c: "CodeSystem.id' parkDocument = CodeSystem.id' shuffledZooDocument"
       "log ?s2 =
          log ?s1' @ rulePhasesLog demoEnv () park ?s1' @
          [(ErrorLevel,
            ''Multiple code systems with id '' @
            (case CodeSystem.id' parkDocument of None \<Rightarrow> ''undefined'' | Some t \<Rightarrow> t) @
            ''. Each code system must have a unique id.'',
            FshCodeSystem.sourceInfo (applyInsertRules demoEnv park))] @ countLog"
    by blast
  from c(2) have l: "log ?s2 =
          log ?s1' @
          [(ErrorLevel,
            ''Multiple code systems with id zoo. Each code system must have a unique id.'',
            Some (SourceInfo ''park.fsh'' 1))] @ countLog"
    unfolding quiet texts by simp
  from count [OF l len] l have "log ?s2 =
          log ?s1' @
          [(ErrorLevel,
            ''Multiple code systems with id zoo. Each code system must have a unique id.'',
            Some (SourceInfo ''park.fsh'' 1))]"
    by simp
  with h1 export_shuffledZoo_document d2 demoEnv_identifies shuffledZoo_keeps(2) h8 c(1) names
  show ?thesis by simp
qed

text \<open>
  C5 as it is stated fails on the entities \<open>Zoo\<close> and \<open>Park\<close>, both with the id
  \<open>zoo\<close>, of which the first has the caret rule \<open>^id = "safari"\<close>: both documents are
  in the package and nothing is logged.
\<close>

theorem exportCodeSystem_same_id_counterexample:
  "FshCodeSystem.id' reidentifiedZoo = FshCodeSystem.id' park
   \<and> FshCodeSystem.name reidentifiedZoo \<noteq> FshCodeSystem.name park
   \<and> map CodeSystem.id'
       (codeSystems (snd (exportCodeSystem demoEnv park
                            (snd (exportCodeSystem demoEnv reidentifiedZoo emptyState)))))
       = [Some ''safari'', Some ''zoo'']
   \<and> log (snd (exportCodeSystem demoEnv park
                   (snd (exportCodeSystem demoEnv reidentifiedZoo emptyState)))) = []"
  by code_simp


subsection \<open>The order of the phases\<close>

lemma exported_milestones:
  "milestones (history (snd (atExported env sd fshDefinition st))) =
     milestones (history st) @
     [Reached Init, Reached MetadataSet] @
     map RuleApplication (resolvedCaretRules env fshDefinition) @
     [Reached CaretRulesApplied] @
     map RuleApplication (filter is_ConceptRule (expandedRules env fshDefinition)) @
     [Reached ConceptsBuilt] @
     map RuleApplication (filter is_CodeCaretValueRule (expandedRules env fshDefinition)) @
     [Reached ConceptCaretRulesApplied, Reached CountReconciled, Reached Exported]"
  by (simp add: atExported_state(4) atCountReconciled_state(2)
        atConceptCaretRulesApplied_state(2) atConceptsBuilt_state(2) atCaretRulesApplied_state(2))

lemma rank_caret: "list_all is_CaretValueRule rs \<Longrightarrow> \<forall>x\<in>set (map RuleApplication rs). rank x = 2"
  by (induction rs) (auto split: Rule.splits simp: is_CaretValueRule_def)

lemma rank_concept: "\<forall>x\<in>set (map RuleApplication (filter is_ConceptRule rs)). rank x = 4"
  by (induction rs) (auto simp: is_ConceptRule_def)

lemma rank_codeCaret: "\<forall>x\<in>set (map RuleApplication (filter is_CodeCaretValueRule rs)). rank x = 6"
  by (induction rs) (auto simp: is_CodeCaretValueRule_def)

lemma sorted_constant: "\<forall>x\<in>set xs. f x = (k::nat) \<Longrightarrow> sorted (map f xs)"
  by (induction xs) auto

lemma phases_sorted:
  assumes "\<forall>x\<in>set as. rank x = 2" "\<forall>x\<in>set bs. rank x = 4" "\<forall>x\<in>set cs. rank x = 6"
  shows "sorted (map rank
           ([Reached Init, Reached MetadataSet] @ as @ [Reached CaretRulesApplied] @ bs @
            [Reached ConceptsBuilt] @ cs @
            [Reached ConceptCaretRulesApplied, Reached CountReconciled, Reached Exported]))"
  using assms sorted_constant [OF assms(1)] sorted_constant [OF assms(2)]
    sorted_constant [OF assms(3)]
  by (auto simp: sorted_append)

lemma exportCodeSystem_log_order:
  assumes "\<not> nameExported fshDefinition st" and "fetchSchema env = Inr sd"
  shows "\<exists>identityLog countLog.
           log (snd (exportCodeSystem env fshDefinition st)) =
             log st @ metadataLog env fshDefinition @
             snd (resolveSoftIndexing env (caretRules env fshDefinition)) @
             snd (ruleByRule (message env) (caretRuleAttempt env sd)
                    (resolvedCaretRules env fshDefinition)
                    (fst (atMetadataSet env fshDefinition st))) @
             conceptErrors (filter is_ConceptRule (expandedRules env fshDefinition)) @
             snd (ruleByRule (message env) (codeCaretRuleAttempt env sd)
                    (filter is_CodeCaretValueRule (expandedRules env fshDefinition))
                    (fst (atConceptsBuilt env sd fshDefinition st))) @
             identityLog @ countLog
           \<and> length identityLog \<le> 1 \<and> list_all (\<lambda>d. fst d = ErrorLevel) identityLog
           \<and> length countLog \<le> 1 \<and> list_all (\<lambda>d. fst d = WarnLevel) countLog"
proof -
  from exportCodeSystem_log [OF assms] obtain countLog where
    c: "log (snd (exportCodeSystem env fshDefinition st)) =
          log st @ rulePhasesLog env sd fshDefinition st @
          (if list_ex (\<lambda>cs. CodeSystem.id' (fst (atExported env sd fshDefinition st))
                              = CodeSystem.id' cs) (codeSystems st)
           then [(ErrorLevel,
                  ''Multiple code systems with id '' @
                  (case CodeSystem.id' (fst (atExported env sd fshDefinition st)) of
                     None \<Rightarrow> ''undefined'' | Some t \<Rightarrow> t) @
                  ''. Each code system must have a unique id.'',
                  FshCodeSystem.sourceInfo (applyInsertRules env fshDefinition))]
           else []) @ countLog"
       "length countLog \<le> 1" "list_all (\<lambda>d. fst d = WarnLevel) countLog"
    by blast
  let ?identityLog =
    "if list_ex (\<lambda>cs. CodeSystem.id' (fst (atExported env sd fshDefinition st))
                        = CodeSystem.id' cs) (codeSystems st)
     then [(ErrorLevel,
            ''Multiple code systems with id '' @
            (case CodeSystem.id' (fst (atExported env sd fshDefinition st)) of
               None \<Rightarrow> ''undefined'' | Some t \<Rightarrow> t) @
            ''. Each code system must have a unique id.'',
            FshCodeSystem.sourceInfo (applyInsertRules env fshDefinition))]
     else []"
  have "log (snd (exportCodeSystem env fshDefinition st)) =
             log st @ metadataLog env fshDefinition @
             snd (resolveSoftIndexing env (caretRules env fshDefinition)) @
             snd (ruleByRule (message env) (caretRuleAttempt env sd)
                    (resolvedCaretRules env fshDefinition)
                    (fst (atMetadataSet env fshDefinition st))) @
             conceptErrors (filter is_ConceptRule (expandedRules env fshDefinition)) @
             snd (ruleByRule (message env) (codeCaretRuleAttempt env sd)
                    (filter is_CodeCaretValueRule (expandedRules env fshDefinition))
                    (fst (atConceptsBuilt env sd fshDefinition st))) @
             ?identityLog @ countLog
           \<and> length ?identityLog \<le> 1 \<and> list_all (\<lambda>d. fst d = ErrorLevel) ?identityLog
           \<and> length countLog \<le> 1 \<and> list_all (\<lambda>d. fst d = WarnLevel) countLog"
    using c by (simp add: rulePhasesLog_def)
  then show ?thesis by blast
qed

text \<open>
  C8. An export that passes the guard and finds the schema goes through the state machine:
  what it returns and the state it leaves are the document and the state at \<open>Exported\<close>,
  where each phase starts from the document and the state of the phase before it, the
  caret value rules are applied to the document with the metadata, the concept rules build
  the forest next, and the code caret rules are applied to the document with that forest.
  So the document after the caret rule phase is what the caret value rules, attempted one
  by one, make of the document with the metadata, and the document after the code caret
  rule phase is what the code caret rules make of the document with the concepts; the log
  holds, after the diagnostics of the metadata and of soft index resolution, the errors of
  the caret value rules, then those of the concept rules, then those of the code caret
  rules, then at most one error of the identity check and at most one warning of count
  reconciliation, whatever the order of the rules in the entity. In the history, the
  milestones of the export are the phases and the rule applications in this order, and
  their ranks in the order of the phases never decrease.
\<close>

theorem exportCodeSystem_phase_order:
  assumes "\<not> nameExported fshDefinition st" and "fetchSchema env = Inr sd"
  shows "exportCodeSystem env fshDefinition st =
           (Inr (Some (fst (atExported env sd fshDefinition st))),
            snd (atExported env sd fshDefinition st))
       \<and> fst (atCaretRulesApplied env sd fshDefinition st) =
           fst (ruleByRule (message env) (caretRuleAttempt env sd)
                  (resolvedCaretRules env fshDefinition)
                  (fst (atMetadataSet env fshDefinition st)))
       \<and> fst (atConceptCaretRulesApplied env sd fshDefinition st) =
           fst (ruleByRule (message env) (codeCaretRuleAttempt env sd)
                  (filter is_CodeCaretValueRule (expandedRules env fshDefinition))
                  (fst (atConceptsBuilt env sd fshDefinition st)))
       \<and> (\<exists>identityLog countLog.
             log (snd (exportCodeSystem env fshDefinition st)) =
               log st @ metadataLog env fshDefinition @
               snd (resolveSoftIndexing env (caretRules env fshDefinition)) @
               snd (ruleByRule (message env) (caretRuleAttempt env sd)
                      (resolvedCaretRules env fshDefinition)
                      (fst (atMetadataSet env fshDefinition st))) @
               conceptErrors (filter is_ConceptRule (expandedRules env fshDefinition)) @
               snd (ruleByRule (message env) (codeCaretRuleAttempt env sd)
                      (filter is_CodeCaretValueRule (expandedRules env fshDefinition))
                      (fst (atConceptsBuilt env sd fshDefinition st))) @
               identityLog @ countLog
             \<and> length identityLog \<le> 1 \<and> list_all (\<lambda>d. fst d = ErrorLevel) identityLog
             \<and> length countLog \<le> 1 \<and> list_all (\<lambda>d. fst d = WarnLevel) countLog)
       \<and> milestones (history (snd (exportCodeSystem env fshDefinition st))) =
           milestones (history st) @
           [Reached Init, Reached MetadataSet] @
           map RuleApplication (resolvedCaretRules env fshDefinition) @
           [Reached CaretRulesApplied] @
           map RuleApplication (filter is_ConceptRule (expandedRules env fshDefinition)) @
           [Reached ConceptsBuilt] @
           map RuleApplication (filter is_CodeCaretValueRule (expandedRules env fshDefinition)) @
           [Reached ConceptCaretRulesApplied, Reached CountReconciled, Reached Exported]
       \<and> list_all is_CaretValueRule (resolvedCaretRules env fshDefinition)
       \<and> length (resolvedCaretRules env fshDefinition) =
           length (filter is_CaretValueRule (expandedRules env fshDefinition))
       \<and> sorted (map rank
           ([Reached Init, Reached MetadataSet] @
            map RuleApplication (resolvedCaretRules env fshDefinition) @
            [Reached CaretRulesApplied] @
            map RuleApplication (filter is_ConceptRule (expandedRules env fshDefinition)) @
            [Reached ConceptsBuilt] @
            map RuleApplication (filter is_CodeCaretValueRule (expandedRules env fshDefinition)) @
            [Reached ConceptCaretRulesApplied, Reached CountReconciled, Reached Exported]))"
proof (intro conjI)
  show "exportCodeSystem env fshDefinition st =
           (Inr (Some (fst (atExported env sd fshDefinition st))),
            snd (atExported env sd fshDefinition st))"
    using assms by (rule exportCodeSystem_exports)
  show "fst (atCaretRulesApplied env sd fshDefinition st) =
           fst (ruleByRule (message env) (caretRuleAttempt env sd)
                  (resolvedCaretRules env fshDefinition)
                  (fst (atMetadataSet env fshDefinition st)))"
    by (rule atCaretRulesApplied_state)
  show "fst (atConceptCaretRulesApplied env sd fshDefinition st) =
           fst (ruleByRule (message env) (codeCaretRuleAttempt env sd)
                  (filter is_CodeCaretValueRule (expandedRules env fshDefinition))
                  (fst (atConceptsBuilt env sd fshDefinition st)))"
    by (rule atConceptCaretRulesApplied_state)
  show "\<exists>identityLog countLog.
             log (snd (exportCodeSystem env fshDefinition st)) =
               log st @ metadataLog env fshDefinition @
               snd (resolveSoftIndexing env (caretRules env fshDefinition)) @
               snd (ruleByRule (message env) (caretRuleAttempt env sd)
                      (resolvedCaretRules env fshDefinition)
                      (fst (atMetadataSet env fshDefinition st))) @
               conceptErrors (filter is_ConceptRule (expandedRules env fshDefinition)) @
               snd (ruleByRule (message env) (codeCaretRuleAttempt env sd)
                      (filter is_CodeCaretValueRule (expandedRules env fshDefinition))
                      (fst (atConceptsBuilt env sd fshDefinition st))) @
               identityLog @ countLog
             \<and> length identityLog \<le> 1 \<and> list_all (\<lambda>d. fst d = ErrorLevel) identityLog
             \<and> length countLog \<le> 1 \<and> list_all (\<lambda>d. fst d = WarnLevel) countLog"
    using assms by (rule exportCodeSystem_log_order)
  show "milestones (history (snd (exportCodeSystem env fshDefinition st))) =
           milestones (history st) @
           [Reached Init, Reached MetadataSet] @
           map RuleApplication (resolvedCaretRules env fshDefinition) @
           [Reached CaretRulesApplied] @
           map RuleApplication (filter is_ConceptRule (expandedRules env fshDefinition)) @
           [Reached ConceptsBuilt] @
           map RuleApplication (filter is_CodeCaretValueRule (expandedRules env fshDefinition)) @
           [Reached ConceptCaretRulesApplied, Reached CountReconciled, Reached Exported]"
    unfolding exportCodeSystem_exports [OF assms] snd_conv by (rule exported_milestones)
  show c: "list_all is_CaretValueRule (resolvedCaretRules env fshDefinition)"
    by (rule resolvedCaretRules_caret)
  show "length (resolvedCaretRules env fshDefinition) =
           length (filter is_CaretValueRule (expandedRules env fshDefinition))"
    by (simp add: resolvedCaretRules_length caretRules_def)
  show "sorted (map rank
           ([Reached Init, Reached MetadataSet] @
            map RuleApplication (resolvedCaretRules env fshDefinition) @
            [Reached CaretRulesApplied] @
            map RuleApplication (filter is_ConceptRule (expandedRules env fshDefinition)) @
            [Reached ConceptsBuilt] @
            map RuleApplication (filter is_CodeCaretValueRule (expandedRules env fshDefinition)) @
            [Reached ConceptCaretRulesApplied, Reached CountReconciled, Reached Exported]))"
    by (intro phases_sorted rank_caret [OF c] rank_concept rank_codeCaret)
qed

lemma shuffledZoo_guard: "\<not> nameExported shuffledZoo emptyState"
  by (simp add: nameExported_def emptyState_def)

text \<open>
  C8 on an entity whose rules are written in the reverse order of the phases, two code
  caret rules, four concept rules and three caret value rules, with one failing rule of
  each class. The code caret rule on \<open>bear\<close>, \<open>polar\<close>, the first rule of the
  entity, finds the concept that the fifth rule adds; the document has the values and the
  concepts of the rules that succeed; and the three errors are logged in the order of the
  phases, not in the order of the rules.
\<close>

theorem exportCodeSystem_phase_order_witness:
  "\<not> nameExported shuffledZoo emptyState \<and> fetchSchema demoEnv = Inr ()
   \<and> FshCodeSystem.rules shuffledZoo =
       [polarDesignationRule, grizzlyCaretRule, bearRule, lionRule, polarRule, catRule,
        contentRule, badCountRule, contactRule]
   \<and> fst (exportCodeSystem demoEnv shuffledZoo emptyState) =
       Inr (Some
         \<lparr>CodeSystem.name = Some ''Zoo'', CodeSystem.id' = Some ''zoo'', CodeSystem.title = None,
          CodeSystem.description = None, CodeSystem.version = Some ''1.0.0'',
          CodeSystem.url = Some ''http://example.org/CodeSystem/zoo'', content = Some ''complete'',
          count = Some 3,
          CodeSystem.concept =
            Some [CodeSystemConcept ''bear'' (Some ''Bear'') None
                    (Some [CodeSystemConcept ''polar'' None None None]),
                  CodeSystemConcept ''cat'' None None None],
          properties =
            [(''contact[0].name'', FshString ''Keeper''),
             (''concept[0].concept[0].designation[0].value'', FshString ''ours blanc'')]\<rparr>)
   \<and> log (snd (exportCodeSystem demoEnv shuffledZoo emptyState)) =
       [(ErrorLevel, ''type mismatch at count'', Some (SourceInfo ''zoo.fsh'' 10)),
        (ErrorLevel, ''Could not find feline in concept hierarchy to use as ancestor of lion.'',
         Some (SourceInfo ''zoo.fsh'' 6)),
        (ErrorLevel, ''path not resolvable: #bear #grizzly'', Some (SourceInfo ''zoo.fsh'' 8))]
   \<and> milestones (history (snd (exportCodeSystem demoEnv shuffledZoo emptyState))) =
       [Reached Init, Reached MetadataSet,
        RuleApplication contentRule, RuleApplication badCountRule,
        RuleApplication
          (CaretValueRule ''contact[0].name'' (FshString ''Keeper'')
             (Some (SourceInfo ''zoo.fsh'' 9))),
        Reached CaretRulesApplied,
        RuleApplication bearRule, RuleApplication lionRule, RuleApplication polarRule,
        RuleApplication catRule,
        Reached ConceptsBuilt,
        RuleApplication polarDesignationRule, RuleApplication grizzlyCaretRule,
        Reached ConceptCaretRulesApplied, Reached CountReconciled, Reached Exported]"
proof -
  have r: "FshCodeSystem.rules shuffledZoo =
       [polarDesignationRule, grizzlyCaretRule, bearRule, lionRule, polarRule, catRule,
        contentRule, badCountRule, contactRule]"
    by (simp add: shuffledZoo_def)
  have d: "fst (exportCodeSystem demoEnv shuffledZoo emptyState) =
       Inr (Some
         \<lparr>CodeSystem.name = Some ''Zoo'', CodeSystem.id' = Some ''zoo'', CodeSystem.title = None,
          CodeSystem.description = None, CodeSystem.version = Some ''1.0.0'',
          CodeSystem.url = Some ''http://example.org/CodeSystem/zoo'', content = Some ''complete'',
          count = Some 3,
          CodeSystem.concept =
            Some [CodeSystemConcept ''bear'' (Some ''Bear'') None
                    (Some [CodeSystemConcept ''polar'' None None None]),
                  CodeSystemConcept ''cat'' None None None],
          properties =
            [(''contact[0].name'', FshString ''Keeper''),
             (''concept[0].concept[0].designation[0].value'', FshString ''ours blanc'')]\<rparr>)"
    by code_simp
  have l: "log (snd (exportCodeSystem demoEnv shuffledZoo emptyState)) =
       [(ErrorLevel, ''type mismatch at count'', Some (SourceInfo ''zoo.fsh'' 10)),
        (ErrorLevel, ''Could not find feline in concept hierarchy to use as ancestor of lion.'',
         Some (SourceInfo ''zoo.fsh'' 6)),
        (ErrorLevel, ''path not resolvable: #bear #grizzly'', Some (SourceInfo ''zoo.fsh'' 8))]"
    by code_simp
  have m: "milestones (history (snd (exportCodeSystem demoEnv shuffledZoo emptyState))) =
       [Reached Init, Reached MetadataSet,
        RuleApplication contentRule, RuleApplication badCountRule,
        RuleApplication
          (CaretValueRule ''contact[0].name'' (FshString ''Keeper'')
             (Some (SourceInfo ''zoo.fsh'' 9))),
        Reached CaretRulesApplied,
        RuleApplication bearRule, RuleApplication lionRule, RuleApplication polarRule,
        RuleApplication catRule,
        Reached ConceptsBuilt,
        RuleApplication polarDesignationRule, RuleApplication grizzlyCaretRule,
        Reached ConceptCaretRulesApplied, Reached CountReconciled, Reached Exported]"
    using exportCodeSystem_phase_order [OF shuffledZoo_guard demoEnv_schema,
            THEN conjunct2, THEN conjunct2, THEN conjunct2, THEN conjunct2, THEN conjunct1]
    by (simp add: shuffledZoo_rules emptyState_def example_rules_defs polarDesignationRule_def
          grizzlyCaretRule_def contentRule_def badCountRule_def contactRule_def)
  from shuffledZoo_guard demoEnv_schema r d l m show ?thesis by simp
qed

subsection \<open>The order of the phases, seen from the result\<close>

lemma writeBack_carets:
  "list_all is_CaretValueRule resolved \<Longrightarrow>
   length resolved = length (filter is_CaretValueRule rs) \<Longrightarrow>
     filter is_CaretValueRule (writeBack rs resolved) = resolved"
proof (induction rs arbitrary: resolved)
  case Nil
  then show ?case by simp
next
  case (Cons r rs)
  show ?case
  proof (cases "is_CaretValueRule r")
    case True
    with Cons.prems obtain x xs where x: "resolved = x # xs" by (cases resolved) auto
    with Cons.prems True Cons.IH [of xs] show ?thesis by simp
  next
    case False
    with Cons.prems Cons.IH [of resolved] show ?thesis by simp
  qed
qed

lemma find_filter: "(\<And>x. P x \<Longrightarrow> Q x) \<Longrightarrow> find P (filter Q xs) = find P xs"
  by (induction xs) auto

lemma updateCount_entity:
  assumes "filter is_CaretValueRule (FshCodeSystem.rules e') =
           filter is_CaretValueRule (FshCodeSystem.rules e)"
    and "FshCodeSystem.sourceInfo e' = FshCodeSystem.sourceInfo e"
  shows "updateCount codeSystem e' st = updateCount codeSystem e st"
proof -
  let ?P = "\<lambda>r. is_CaretValueRule r \<and> caretPath r = ''count''"
  have "find ?P (FshCodeSystem.rules e') = find ?P (filter is_CaretValueRule (FshCodeSystem.rules e'))"
    by (rule find_filter [symmetric]) simp
  also have "\<dots> = find ?P (filter is_CaretValueRule (FshCodeSystem.rules e))"
    by (simp only: assms(1))
  also have "\<dots> = find ?P (FshCodeSystem.rules e)"
    by (rule find_filter) simp
  finally have "find ?P (FshCodeSystem.rules e') = find ?P (FshCodeSystem.rules e)" .
  then show ?thesis
    unfolding updateCount_def assms(2) by (simp only:)
qed

lemma resolvedEntity_carets:
  "filter is_CaretValueRule (FshCodeSystem.rules (resolvedEntity env fshDefinition)) =
     resolvedCaretRules env fshDefinition"
  unfolding resolvedEntity_simps
  by (rule writeBack_carets)
     (simp_all add: resolvedCaretRules_caret resolvedCaretRules_length caretRules_def)

lemma setMetadata_entity:
  assumes "FshCodeSystem.name fshDefinition' = FshCodeSystem.name fshDefinition"
    and "FshCodeSystem.id' fshDefinition' = FshCodeSystem.id' fshDefinition"
    and "FshCodeSystem.title fshDefinition' = FshCodeSystem.title fshDefinition"
    and "FshCodeSystem.description fshDefinition' = FshCodeSystem.description fshDefinition"
    and "FshCodeSystem.sourceInfo fshDefinition' = FshCodeSystem.sourceInfo fshDefinition"
  shows "setMetadata env codeSystem fshDefinition' st = setMetadata env codeSystem fshDefinition st"
  unfolding setMetadata_def assms by (rule refl)

text \<open>
  What the order of the phases means for the result: two entities that agree on their
  metadata and position and, after insert rule expansion, on their position and on the
  caret value rules, the concept rules and the code caret rules, each class in its order,
  are exported alike, however the rules of the three classes are interleaved in each
  entity.
\<close>

lemma exportCodeSystem_interleaving:
  assumes meta: "FshCodeSystem.name fshDefinition' = FshCodeSystem.name fshDefinition"
      "FshCodeSystem.id' fshDefinition' = FshCodeSystem.id' fshDefinition"
      "FshCodeSystem.title fshDefinition' = FshCodeSystem.title fshDefinition"
      "FshCodeSystem.description fshDefinition' = FshCodeSystem.description fshDefinition"
      "FshCodeSystem.sourceInfo fshDefinition' = FshCodeSystem.sourceInfo fshDefinition"
    and src: "FshCodeSystem.sourceInfo (applyInsertRules env fshDefinition') =
         FshCodeSystem.sourceInfo (applyInsertRules env fshDefinition)"
    and classes:
      "filter is_CaretValueRule (expandedRules env fshDefinition') =
       filter is_CaretValueRule (expandedRules env fshDefinition)"
      "filter is_ConceptRule (expandedRules env fshDefinition') =
       filter is_ConceptRule (expandedRules env fshDefinition)"
      "filter is_CodeCaretValueRule (expandedRules env fshDefinition') =
       filter is_CodeCaretValueRule (expandedRules env fshDefinition)"
  shows "exportCodeSystem env fshDefinition' st = exportCodeSystem env fshDefinition st"
proof (cases "nameExported fshDefinition st")
  case True
  then have "nameExported fshDefinition' st" by (simp add: nameExported_def meta)
  with True show ?thesis by (simp add: exportCodeSystem_skips)
next
  case False
  then have False': "\<not> nameExported fshDefinition' st" by (simp add: nameExported_def meta)
  have m: "atMetadataSet env fshDefinition' st = atMetadataSet env fshDefinition st"
    unfolding atMetadataSet_def setMetadata_entity [OF meta] by (rule refl)
  show ?thesis
  proof (cases "fetchSchema env")
    case (Inl e)
    with False False' show ?thesis by (simp add: exportCodeSystem_throws m)
  next
    case (Inr sd)
    have carets: "caretRules env fshDefinition' = caretRules env fshDefinition"
      "resolvedCaretRules env fshDefinition' = resolvedCaretRules env fshDefinition"
      using classes(1) by (simp_all add: caretRules_def resolvedCaretRules_def)
    have a: "atCaretRulesApplied env sd fshDefinition' st =
        atCaretRulesApplied env sd fshDefinition st"
      unfolding atCaretRulesApplied_def m carets by (rule refl)
    have b: "atConceptsBuilt env sd fshDefinition' st = atConceptsBuilt env sd fshDefinition st"
      unfolding atConceptsBuilt_def a classes(2) by (rule refl)
    have c: "atConceptCaretRulesApplied env sd fshDefinition' st =
        atConceptCaretRulesApplied env sd fshDefinition st"
      unfolding atConceptCaretRulesApplied_def b classes(3) by (rule refl)
    have i: "FshCodeSystem.sourceInfo (resolvedEntity env fshDefinition') =
        FshCodeSystem.sourceInfo (resolvedEntity env fshDefinition)"
      using src by (simp add: resolvedEntity_simps)
    have k: "filter is_CaretValueRule (FshCodeSystem.rules (resolvedEntity env fshDefinition')) =
        filter is_CaretValueRule (FshCodeSystem.rules (resolvedEntity env fshDefinition))"
      by (simp add: resolvedEntity_carets carets)
    have d: "checkDuplicateId codeSystem (resolvedEntity env fshDefinition') s =
        checkDuplicateId codeSystem (resolvedEntity env fshDefinition) s" for codeSystem s
      by (simp add: checkDuplicateId_def i)
    have r: "atCountReconciled env sd fshDefinition' st =
        atCountReconciled env sd fshDefinition st"
      unfolding atCountReconciled_def c d updateCount_entity [OF k i] by (rule refl)
    have "atExported env sd fshDefinition' st = atExported env sd fshDefinition st"
      unfolding atExported_def r by (rule refl)
    then show ?thesis
      by (simp add: exportCodeSystem_exports [OF False Inr] exportCodeSystem_exports [OF False' Inr])
  qed
qed


subsection \<open>Soft index resolution\<close>

text \<open>
  The code caret rule phase never consults soft index resolution: it does the same
  whatever the resolver is.
\<close>

lemma setCodeCaretRules_resolver:
  "setCodeCaretRules (env\<lparr>resolveSoftIndexing := resolver\<rparr>) sd rules0 s =
     setCodeCaretRules env sd rules0 s"
proof -
  have v: "validateAndSet (env\<lparr>resolveSoftIndexing := resolver\<rparr>) sd path rule acc =
      validateAndSet env sd path rule acc" for path rule acc
    by (simp add: validateAndSet_def Let_def split: sum.splits prod.splits option.splits)
  have "setCodeCaretRules_each (env\<lparr>resolveSoftIndexing := resolver\<rparr>) sd rule acc =
      setCodeCaretRules_each env sd rule acc" for rule acc
    by (simp add: setCodeCaretRules_each_def v Let_def split: sum.splits)
  then show ?thesis by (simp add: setCodeCaretRules_def)
qed

text \<open>
  C7 on the code as it is. \<open>setCaretRules\<close> hands its rules to soft index resolution
  before it applies them; \<open>setCodeCaretRules\<close> does not. On the entity \<open>Zoo\<close> with
  the caret value rule \<open>^contact[+].name\<close> and, for the concept \<open>polar\<close> under
  \<open>bear\<close>, the code caret rule \<open>^designation[+].value\<close>: soft index resolution gets
  the two caret value rules and not the code caret rule; the value of the caret value rule
  is set at \<open>contact[0].name\<close>; the path of the code caret rule reaches path resolution
  with its soft index, as \<open>concept[0].concept[0].designation[+].value\<close>, where it is
  rejected, so that the rule leaves one error at its position and no value in the
  document.
\<close>

theorem setCodeCaretRules_soft_index:
  "FshCodeSystem.rules zoo =
     [bearRule, contentRule, polarRule, polarCaretRule, catRule, contactRule]
   \<and> caretPath contactRule = ''contact[+].name''
   \<and> codePath polarCaretRule = [''bear'', ''polar'']
   \<and> caretPath polarCaretRule = ''designation[+].value''
   \<and> map properties (codeSystems (snd (exportCodeSystem demoEnv zoo emptyState))) =
       [[(''contact[0].name'', FshString ''Keeper'')]]
   \<and> log (snd (exportCodeSystem demoEnv zoo emptyState)) =
       [(ErrorLevel, ''path not resolvable: concept[0].concept[0].designation[+].value'',
         Some (SourceInfo ''zoo.fsh'' 7))]
   \<and> pathEvents (history (snd (exportCodeSystem demoEnv zoo emptyState))) =
       [SoftIndexResolution [contentRule, contactRule],
        PathResolution ''content'', PathResolution ''contact[0].name'',
        PathResolution ''concept[0].concept[0].designation[+].value'']
   \<and> hasSoftIndex ''concept[0].concept[0].designation[+].value''"
  by code_simp

subsection \<open>Errors\<close>

lemma setCaretRules_milestones:
  "milestones (history (snd (snd (setCaretRules env sd rules0 s)))) =
     milestones (history (snd s)) @
     map RuleApplication (assignCaretPaths rules0 (fst (resolveSoftIndexing env rules0)))"
  by (simp add: setCaretRules_history milestones_caret_events)

lemma exportCodeSystem_returns:
  assumes "fetchSchema env = Inr sd"
  shows "\<exists>result. fst (exportCodeSystem env fshDefinition st) = Inr result"
proof (cases "nameExported fshDefinition st")
  case True
  then show ?thesis by (simp add: exportCodeSystem_skips)
next
  case False
  then show ?thesis by (simp add: exportCodeSystem_exports [OF False assms])
qed

text \<open>
  When the schema is found the loop of \<open>export\<close> logs nothing of its own and hands each
  entity the state the export of the entity before it left.
\<close>

lemma export_loop_schema:
  assumes "fetchSchema env = Inr sd"
  shows "export_loop env entities st =
         foldl (\<lambda>s fshDefinition. snd (exportCodeSystem env fshDefinition s)) st entities"
proof (induction entities arbitrary: st)
  case Nil
  show ?case by simp
next
  case (Cons fshDefinition rest)
  from exportCodeSystem_returns [OF assms, of fshDefinition st] obtain result where
    "fst (exportCodeSystem env fshDefinition st) = Inr result" ..
  then have "exportCodeSystem env fshDefinition st =
      (Inr result, snd (exportCodeSystem env fshDefinition st))"
    by (simp add: prod_eq_iff)
  then have "export_loop env (fshDefinition # rest) st =
      export_loop env rest (snd (exportCodeSystem env fshDefinition st))"
    by (simp add: prod_eq_iff split: prod.splits sum.splits)
  then show ?case by (simp add: Cons.IH)
qed

text \<open>
  When the schema lookup throws, every entity that passes the guard leaves the diagnostics
  of its metadata and the error of the lookup, at its position, and no document.
\<close>

lemma export_loop_no_schema:
  "fetchSchema env = Inl e \<Longrightarrow>
     codeSystems (export_loop env entities st) = codeSystems st
     \<and> log (export_loop env entities st) =
         log st @
         concat (map (\<lambda>fshDefinition.
                        metadataLog env fshDefinition @
                        [(ErrorLevel, message env e, FshCodeSystem.sourceInfo fshDefinition)])
                   (filter (\<lambda>fshDefinition. \<not> nameExported fshDefinition st) entities))"
proof (induction entities arbitrary: st)
  case Nil
  show ?case by simp
next
  case (Cons fshDefinition rest)
  show ?case
  proof (cases "nameExported fshDefinition st")
    case True
    then show ?thesis
      using Cons.IH [OF Cons.prems, of st] by (simp add: exportCodeSystem_skips)
  next
    case False
    let ?st = "logger_error (message env e) (FshCodeSystem.sourceInfo fshDefinition)
                 (snd (atMetadataSet env fshDefinition st))"
    have same: "\<And>f. nameExported f ?st = nameExported f st"
      by (simp add: nameExported_def atMetadataSet_state)
    from False show ?thesis
      using Cons.IH [OF Cons.prems, of ?st]
      by (simp add: exportCodeSystem_throws [OF False Cons.prems] same atMetadataSet_state)
  qed
qed

text \<open>
  C9. An error thrown while a caret value rule or a code caret rule is applied never
  leaves the loop over the rules: it is logged as one error, its message at the position
  of that rule, and the next rule is applied to the document the failed rule left. So
  each of the two loops leaves the document and the errors of its rules attempted one by
  one, every rule is applied, and the package is left alone. When the schema is found,
  \<open>exportCodeSystem\<close> returns, whatever the rules throw; an export that passes the
  guard appends its document to the package and logs the diagnostics of its metadata and
  rule phases, then the error of the identity check if another document has the id, then
  at most one warning of count reconciliation; and the loop of \<open>export\<close> hands each
  entity the state the entity before it left and logs nothing itself. When the schema
  lookup throws and the guard is passed, \<open>exportCodeSystem\<close> throws that error, leaves
  the package as it is and has logged the diagnostics of the metadata only; the loop of
  \<open>export\<close> then logs the message at the position of the entity and goes on with the
  next entity, so that every entity that passes the guard has its error in the log, in
  order.
\<close>

theorem errors_contained:
  "(fetchSchema env = Inr sd \<longrightarrow> (\<exists>result. fst (exportCodeSystem env fshDefinition st) = Inr result))
   \<and> log (snd (setCaretRules_each env sd rule s)) =
       log (snd s) @
       (case ruleError env sd (caretPath rule) rule (fst s) of
          None \<Rightarrow> []
        | Some e \<Rightarrow> [(ErrorLevel, message env e, Rule.sourceInfo rule)])
   \<and> log (snd (setCodeCaretRules_each env sd rule s)) =
       log (snd s) @
       (case (case findConceptPath (fst s) (codePath rule) of
                Inl e \<Rightarrow> Some e
              | Inr conceptPath \<Rightarrow>
                  ruleError env sd (conceptPath @ ''.'' @ caretPath rule) rule (fst s)) of
          None \<Rightarrow> []
        | Some e \<Rightarrow> [(ErrorLevel, message env e, Rule.sourceInfo rule)])
   \<and> fst (snd (setCaretRules env sd rules0 s)) =
       fst (ruleByRule (message env) (caretRuleAttempt env sd)
              (assignCaretPaths rules0 (fst (resolveSoftIndexing env rules0))) (fst s))
   \<and> log (snd (snd (setCaretRules env sd rules0 s))) =
       log (snd s) @ snd (resolveSoftIndexing env rules0) @
       snd (ruleByRule (message env) (caretRuleAttempt env sd)
              (assignCaretPaths rules0 (fst (resolveSoftIndexing env rules0))) (fst s))
   \<and> codeSystems (snd (snd (setCaretRules env sd rules0 s))) = codeSystems (snd s)
   \<and> milestones (history (snd (snd (setCaretRules env sd rules0 s)))) =
       milestones (history (snd s)) @
       map RuleApplication (assignCaretPaths rules0 (fst (resolveSoftIndexing env rules0)))
   \<and> fst (setCodeCaretRules env sd rules0 s) =
       fst (ruleByRule (message env) (codeCaretRuleAttempt env sd) rules0 (fst s))
   \<and> log (snd (setCodeCaretRules env sd rules0 s)) =
       log (snd s) @ snd (ruleByRule (message env) (codeCaretRuleAttempt env sd) rules0 (fst s))
   \<and> codeSystems (snd (setCodeCaretRules env sd rules0 s)) = codeSystems (snd s)
   \<and> milestones (history (snd (setCodeCaretRules env sd rules0 s))) =
       milestones (history (snd s)) @ map RuleApplication rules0
   \<and> (fetchSchema env = Inr sd \<and> \<not> nameExported fshDefinition st \<longrightarrow>
        codeSystems (snd (exportCodeSystem env fshDefinition st)) =
          codeSystems st @ [fst (atExported env sd fshDefinition st)]
        \<and> (\<exists>countLog.
              log (snd (exportCodeSystem env fshDefinition st)) =
                log st @ rulePhasesLog env sd fshDefinition st @
                (if list_ex (\<lambda>cs. CodeSystem.id' (fst (atExported env sd fshDefinition st))
                                    = CodeSystem.id' cs) (codeSystems st)
                 then [(ErrorLevel,
                        ''Multiple code systems with id '' @
                        (case CodeSystem.id' (fst (atExported env sd fshDefinition st)) of
                           None \<Rightarrow> ''undefined'' | Some t \<Rightarrow> t) @
                        ''. Each code system must have a unique id.'',
                        FshCodeSystem.sourceInfo (applyInsertRules env fshDefinition))]
                 else []) @ countLog
              \<and> length countLog \<le> 1 \<and> list_all (\<lambda>d. fst d = WarnLevel) countLog))
   \<and> (fetchSchema env = Inr sd \<longrightarrow>
        export_loop env entities st =
          foldl (\<lambda>s fshDefinition. snd (exportCodeSystem env fshDefinition s)) st entities)
   \<and> (fetchSchema env = Inl e \<and> \<not> nameExported fshDefinition st \<longrightarrow>
        fst (exportCodeSystem env fshDefinition st) = Inl e
        \<and> codeSystems (snd (exportCodeSystem env fshDefinition st)) = codeSystems st
        \<and> log (snd (exportCodeSystem env fshDefinition st)) =
            log st @ metadataLog env fshDefinition)
   \<and> (fetchSchema env = Inl e \<longrightarrow>
        codeSystems (export_loop env entities st) = codeSystems st
        \<and> log (export_loop env entities st) =
            log st @
            concat (map (\<lambda>fshDefinition.
                           metadataLog env fshDefinition @
                           [(ErrorLevel, message env e, FshCodeSystem.sourceInfo fshDefinition)])
                      (filter (\<lambda>fshDefinition. \<not> nameExported fshDefinition st) entities)))"
proof (intro conjI impI)
  assume "fetchSchema env = Inr sd"
  then show "\<exists>result. fst (exportCodeSystem env fshDefinition st) = Inr result"
    by (rule exportCodeSystem_returns)
next
  show "log (snd (setCaretRules_each env sd rule s)) =
       log (snd s) @
       (case ruleError env sd (caretPath rule) rule (fst s) of
          None \<Rightarrow> []
        | Some e \<Rightarrow> [(ErrorLevel, message env e, Rule.sourceInfo rule)])"
    by (rule setCaretRules_each_log)
next
  show "log (snd (setCodeCaretRules_each env sd rule s)) =
       log (snd s) @
       (case (case findConceptPath (fst s) (codePath rule) of
                Inl e \<Rightarrow> Some e
              | Inr conceptPath \<Rightarrow>
                  ruleError env sd (conceptPath @ ''.'' @ caretPath rule) rule (fst s)) of
          None \<Rightarrow> []
        | Some e \<Rightarrow> [(ErrorLevel, message env e, Rule.sourceInfo rule)])"
    by (rule setCodeCaretRules_each_log)
next
  show "fst (snd (setCaretRules env sd rules0 s)) =
       fst (ruleByRule (message env) (caretRuleAttempt env sd)
              (assignCaretPaths rules0 (fst (resolveSoftIndexing env rules0))) (fst s))"
    by (rule setCaretRules_ruleByRule)
next
  show "log (snd (snd (setCaretRules env sd rules0 s))) =
       log (snd s) @ snd (resolveSoftIndexing env rules0) @
       snd (ruleByRule (message env) (caretRuleAttempt env sd)
              (assignCaretPaths rules0 (fst (resolveSoftIndexing env rules0))) (fst s))"
    by (rule setCaretRules_ruleByRule)
next
  show "codeSystems (snd (snd (setCaretRules env sd rules0 s))) = codeSystems (snd s)"
    by (rule setCaretRules_codeSystems)
next
  show "milestones (history (snd (snd (setCaretRules env sd rules0 s)))) =
       milestones (history (snd s)) @
       map RuleApplication (assignCaretPaths rules0 (fst (resolveSoftIndexing env rules0)))"
    by (rule setCaretRules_milestones)
next
  show "fst (setCodeCaretRules env sd rules0 s) =
       fst (ruleByRule (message env) (codeCaretRuleAttempt env sd) rules0 (fst s))"
    by (rule setCodeCaretRules_ruleByRule)
next
  show "log (snd (setCodeCaretRules env sd rules0 s)) =
       log (snd s) @ snd (ruleByRule (message env) (codeCaretRuleAttempt env sd) rules0 (fst s))"
    by (rule setCodeCaretRules_ruleByRule)
next
  show "codeSystems (snd (setCodeCaretRules env sd rules0 s)) = codeSystems (snd s)"
    by (rule setCodeCaretRules_codeSystems)
next
  show "milestones (history (snd (setCodeCaretRules env sd rules0 s))) =
       milestones (history (snd s)) @ map RuleApplication rules0"
    by (rule setCodeCaretRules_milestones)
next
  assume a: "fetchSchema env = Inr sd \<and> \<not> nameExported fshDefinition st"
  then show "codeSystems (snd (exportCodeSystem env fshDefinition st)) =
          codeSystems st @ [fst (atExported env sd fshDefinition st)]"
    by (simp add: exportCodeSystem_exports atExported_state(2))
  from a show "\<exists>countLog.
              log (snd (exportCodeSystem env fshDefinition st)) =
                log st @ rulePhasesLog env sd fshDefinition st @
                (if list_ex (\<lambda>cs. CodeSystem.id' (fst (atExported env sd fshDefinition st))
                                    = CodeSystem.id' cs) (codeSystems st)
                 then [(ErrorLevel,
                        ''Multiple code systems with id '' @
                        (case CodeSystem.id' (fst (atExported env sd fshDefinition st)) of
                           None \<Rightarrow> ''undefined'' | Some t \<Rightarrow> t) @
                        ''. Each code system must have a unique id.'',
                        FshCodeSystem.sourceInfo (applyInsertRules env fshDefinition))]
                 else []) @ countLog
              \<and> length countLog \<le> 1 \<and> list_all (\<lambda>d. fst d = WarnLevel) countLog"
    by (intro exportCodeSystem_log) simp_all
next
  assume "fetchSchema env = Inr sd"
  then show "export_loop env entities st =
          foldl (\<lambda>s fshDefinition. snd (exportCodeSystem env fshDefinition s)) st entities"
    by (rule export_loop_schema)
next
  assume a: "fetchSchema env = Inl e \<and> \<not> nameExported fshDefinition st"
  then have t: "exportCodeSystem env fshDefinition st =
      (Inl e, snd (atMetadataSet env fshDefinition st))"
    by (simp add: exportCodeSystem_throws)
  show "fst (exportCodeSystem env fshDefinition st) = Inl e"
    "codeSystems (snd (exportCodeSystem env fshDefinition st)) = codeSystems st"
    "log (snd (exportCodeSystem env fshDefinition st)) = log st @ metadataLog env fshDefinition"
    by (simp_all add: t atMetadataSet_state)
next
  assume e: "fetchSchema env = Inl e"
  from export_loop_no_schema [OF e, of entities st]
  show "codeSystems (export_loop env entities st) = codeSystems st"
    "log (export_loop env entities st) =
            log st @
            concat (map (\<lambda>fshDefinition.
                           metadataLog env fshDefinition @
                           [(ErrorLevel, message env e, FshCodeSystem.sourceInfo fshDefinition)])
                      (filter (\<lambda>fshDefinition. \<not> nameExported fshDefinition st) entities))"
    by simp_all
qed

lemma noSchemaEnv_schema:
  "fetchSchema noSchemaEnv = Inl (OtherError ''no definition of CodeSystem'')"
  by (simp add: noSchemaEnv_def)

text \<open>
  C9 on examples. With the schema found: the caret rule loop on three rules, of which the
  second assigns a text to \<open>count\<close>, sets the values of the first and the third and logs
  one error at the position of the second; the code caret rule loop on two rules, of
  which the first names a concept that does not exist, logs one error at its position and
  sets the value of the second; and a run over three entities, the first with three
  failing rules, the third with the id of the first, exports the three documents and logs
  the three errors of the rules and the error of the identity check. Without the schema
  the export of an entity throws, and the loop of \<open>export\<close> logs one error for each of two
  entities.
\<close>

theorem errors_contained_witness:
  "fetchSchema demoEnv = Inr ()
   \<and> (\<exists>result. fst (exportCodeSystem demoEnv shuffledZoo emptyState) = Inr result)
   \<and> fst (snd (setCaretRules demoEnv () [contentRule, badCountRule, contactRule]
                 (emptyCodeSystem, emptyState))) =
       emptyCodeSystem\<lparr>content := Some ''complete'',
         properties := [(''contact[0].name'', FshString ''Keeper'')]\<rparr>
   \<and> log (snd (snd (setCaretRules demoEnv () [contentRule, badCountRule, contactRule]
                      (emptyCodeSystem, emptyState)))) =
       [(ErrorLevel, ''type mismatch at count'', Some (SourceInfo ''zoo.fsh'' 10))]
   \<and> fst (setCodeCaretRules demoEnv () [grizzlyCaretRule, polarDesignationRule]
            (exampleDocument, emptyState)) =
       exampleDocument\<lparr>properties :=
         [(''concept[0].concept[0].designation[0].value'', FshString ''ours blanc'')]\<rparr>
   \<and> log (snd (setCodeCaretRules demoEnv () [grizzlyCaretRule, polarDesignationRule]
                 (exampleDocument, emptyState))) =
       [(ErrorLevel, ''path not resolvable: #bear #grizzly'', Some (SourceInfo ''zoo.fsh'' 8))]
   \<and> map CodeSystem.name (codeSystems (export_loop demoEnv [shuffledZoo, aviary, park] emptyState)) =
       [Some ''Zoo'', Some ''Aviary'', Some ''Park'']
   \<and> log (export_loop demoEnv [shuffledZoo, aviary, park] emptyState) =
       [(ErrorLevel, ''type mismatch at count'', Some (SourceInfo ''zoo.fsh'' 10)),
        (ErrorLevel, ''Could not find feline in concept hierarchy to use as ancestor of lion.'',
         Some (SourceInfo ''zoo.fsh'' 6)),
        (ErrorLevel, ''path not resolvable: #bear #grizzly'', Some (SourceInfo ''zoo.fsh'' 8)),
        (ErrorLevel, ''Multiple code systems with id zoo. Each code system must have a unique id.'',
         Some (SourceInfo ''park.fsh'' 1))]
   \<and> fetchSchema noSchemaEnv = Inl (OtherError ''no definition of CodeSystem'')
   \<and> \<not> nameExported plainZoo emptyState
   \<and> fst (exportCodeSystem noSchemaEnv plainZoo emptyState) =
       Inl (OtherError ''no definition of CodeSystem'')
   \<and> codeSystems (export_loop noSchemaEnv [plainZoo, park] emptyState) = []
   \<and> log (export_loop noSchemaEnv [plainZoo, park] emptyState) =
       [(ErrorLevel, ''no definition of CodeSystem'', Some (SourceInfo ''zoo.fsh'' 1)),
        (ErrorLevel, ''no definition of CodeSystem'', Some (SourceInfo ''park.fsh'' 1))]"
proof -
  note found =
    errors_contained
      [where env = demoEnv and sd = "()" and fshDefinition = shuffledZoo and st = emptyState
         and entities = "[shuffledZoo, aviary, park]"]
  note missing =
    errors_contained
      [where env = noSchemaEnv and e = "OtherError ''no definition of CodeSystem''"
         and fshDefinition = plainZoo and st = emptyState and entities = "[plainZoo, park]"]
  have g: "\<not> nameExported plainZoo emptyState" "\<not> nameExported park emptyState"
    by (simp_all add: nameExported_def emptyState_def)
  have returns: "\<exists>result. fst (exportCodeSystem demoEnv shuffledZoo emptyState) = Inr result"
    using found demoEnv_schema by blast
  have threading: "export_loop demoEnv [shuffledZoo, aviary, park] emptyState =
      snd (exportCodeSystem demoEnv park
             (snd (exportCodeSystem demoEnv aviary
                     (snd (exportCodeSystem demoEnv shuffledZoo emptyState)))))"
    using found demoEnv_schema by simp
  have run:
    "map CodeSystem.name
       (codeSystems (snd (exportCodeSystem demoEnv park
          (snd (exportCodeSystem demoEnv aviary
                  (snd (exportCodeSystem demoEnv shuffledZoo emptyState))))))) =
       [Some ''Zoo'', Some ''Aviary'', Some ''Park'']"
    "log (snd (exportCodeSystem demoEnv park
          (snd (exportCodeSystem demoEnv aviary
                  (snd (exportCodeSystem demoEnv shuffledZoo emptyState)))))) =
       [(ErrorLevel, ''type mismatch at count'', Some (SourceInfo ''zoo.fsh'' 10)),
        (ErrorLevel, ''Could not find feline in concept hierarchy to use as ancestor of lion.'',
         Some (SourceInfo ''zoo.fsh'' 6)),
        (ErrorLevel, ''path not resolvable: #bear #grizzly'', Some (SourceInfo ''zoo.fsh'' 8)),
        (ErrorLevel, ''Multiple code systems with id zoo. Each code system must have a unique id.'',
         Some (SourceInfo ''park.fsh'' 1))]"
    by code_simp+
  have loops:
    "fst (snd (setCaretRules demoEnv () [contentRule, badCountRule, contactRule]
                 (emptyCodeSystem, emptyState))) =
       emptyCodeSystem\<lparr>content := Some ''complete'',
         properties := [(''contact[0].name'', FshString ''Keeper'')]\<rparr>"
    "log (snd (snd (setCaretRules demoEnv () [contentRule, badCountRule, contactRule]
                      (emptyCodeSystem, emptyState)))) =
       [(ErrorLevel, ''type mismatch at count'', Some (SourceInfo ''zoo.fsh'' 10))]"
    "fst (setCodeCaretRules demoEnv () [grizzlyCaretRule, polarDesignationRule]
            (exampleDocument, emptyState)) =
       exampleDocument\<lparr>properties :=
         [(''concept[0].concept[0].designation[0].value'', FshString ''ours blanc'')]\<rparr>"
    "log (snd (setCodeCaretRules demoEnv () [grizzlyCaretRule, polarDesignationRule]
                 (exampleDocument, emptyState))) =
       [(ErrorLevel, ''path not resolvable: #bear #grizzly'', Some (SourceInfo ''zoo.fsh'' 8))]"
    by code_simp+
  have quiet: "metadataLog noSchemaEnv plainZoo = []" "metadataLog noSchemaEnv park = []"
    by code_simp+
  have m:
    "message noSchemaEnv (OtherError ''no definition of CodeSystem'') = ''no definition of CodeSystem''"
    "FshCodeSystem.sourceInfo plainZoo = Some (SourceInfo ''zoo.fsh'' 1)"
    "FshCodeSystem.sourceInfo park = Some (SourceInfo ''park.fsh'' 1)"
    by (simp_all add: demoEnv_def noSchemaEnv_def demoMessage_def plainZoo_def park_def)
  have thrown: "fst (exportCodeSystem noSchemaEnv plainZoo emptyState) =
       Inl (OtherError ''no definition of CodeSystem'')"
    "codeSystems (export_loop noSchemaEnv [plainZoo, park] emptyState) = []"
    "log (export_loop noSchemaEnv [plainZoo, park] emptyState) =
       [(ErrorLevel, ''no definition of CodeSystem'', Some (SourceInfo ''zoo.fsh'' 1)),
        (ErrorLevel, ''no definition of CodeSystem'', Some (SourceInfo ''park.fsh'' 1))]"
    using missing noSchemaEnv_schema g quiet m by (simp_all add: emptyState_def)
  from demoEnv_schema returns loops run noSchemaEnv_schema g(1) thrown
  show ?thesis unfolding threading by simp
qed


end
